theory Spec2Isabelle
  imports Complex_Main
begin

section \<open>JavaScript strings\<close>

text \<open>
  A string is a list of code units; the model covers the code units
  U+0000 to U+00FF, one \<^typ>\<open>char\<close> each.  White space is what
  \<^verbatim>\<open>String.prototype.trim\<close> and the regular expression class
  \<^verbatim>\<open>\s\<close> accept in that range: TAB, LF, VT, FF, CR, SPACE and
  NO-BREAK SPACE.
\<close>

definition is_ws :: "char \<Rightarrow> bool" where
  "is_ws c = (let n = (of_char c :: nat) in (9 \<le> n \<and> n \<le> 13) \<or> n = 32 \<or> n = 160)"

definition is_digit :: "char \<Rightarrow> bool" where
  "is_digit c = (let n = (of_char c :: nat) in 48 \<le> n \<and> n \<le> 57)"

definition is_upper :: "char \<Rightarrow> bool" where
  "is_upper c = (let n = (of_char c :: nat) in
     (65 \<le> n \<and> n \<le> 90) \<or> (192 \<le> n \<and> n \<le> 222 \<and> n \<noteq> 215))"

definition is_word :: "char \<Rightarrow> bool" where
  "is_word c = (let n = (of_char c :: nat) in
     (48 \<le> n \<and> n \<le> 57) \<or> (65 \<le> n \<and> n \<le> 90) \<or> (97 \<le> n \<and> n \<le> 122) \<or> n = 95)"

text \<open>Lower-casing a Latin-1 capital adds 32 to its code, that is, sets bit 5.\<close>

definition lower_char :: "char \<Rightarrow> char" where
  "lower_char c = (if is_upper c
     then (case c of Char b0 b1 b2 b3 b4 b5 b6 b7 \<Rightarrow> Char b0 b1 b2 b3 b4 True b6 b7)
     else c)"

definition toLowerCase :: "string \<Rightarrow> string" where
  "toLowerCase s = map lower_char s"

definition trim :: "string \<Rightarrow> string" where
  "trim s = rev (dropWhile is_ws (rev (dropWhile is_ws s)))"

definition startsWith :: "string \<Rightarrow> string \<Rightarrow> bool" where
  "startsWith s p = (take (length p) s = p)"

definition endsWith :: "string \<Rightarrow> string \<Rightarrow> bool" where
  "endsWith s p = (length p \<le> length s \<and> drop (length s - length p) s = p)"

text \<open>\<^verbatim>\<open>s.indexOf(p)\<close>: the first position at which \<open>p\<close> occurs, if any.\<close>

fun indexOf :: "string \<Rightarrow> string \<Rightarrow> nat option" where
  "indexOf [] p = (if p = [] then Some 0 else None)"
| "indexOf (x # xs) p = (if startsWith (x # xs) p then Some 0
     else map_option Suc (indexOf xs p))"

definition includes_str :: "string \<Rightarrow> string \<Rightarrow> bool" where
  "includes_str s p = (indexOf s p \<noteq> None)"

text \<open>\<^verbatim>\<open>s.replace(p, r)\<close> with a string pattern replaces the first occurrence only.\<close>

definition replace_first :: "string \<Rightarrow> string \<Rightarrow> string \<Rightarrow> string" where
  "replace_first s p r = (case indexOf s p of
     None \<Rightarrow> s
   | Some i \<Rightarrow> take i s @ r @ drop (i + length p) s)"

text \<open>\<^verbatim>\<open>s.split(c)\<close> for a one-character separator: never the empty list.\<close>

fun split_on :: "char \<Rightarrow> string \<Rightarrow> string list" where
  "split_on c [] = [[]]"
| "split_on c (x # xs) = (if x = c then [] # split_on c xs
     else (case split_on c xs of p # ps \<Rightarrow> (x # p) # ps | [] \<Rightarrow> [[x]]))"

text \<open>\<^verbatim>\<open>s.split(/\s+/)\<close>: the fields between maximal runs of white space.\<close>

function split_ws :: "string \<Rightarrow> string list" where
  "split_ws [] = [[]]"
| "split_ws (x # xs) = (if is_ws x then [] # split_ws (dropWhile is_ws xs)
     else (case split_ws xs of p # ps \<Rightarrow> (x # p) # ps | [] \<Rightarrow> [[x]]))"
  by pat_completeness auto
termination
  by (relation "measure length") (auto simp: less_Suc_eq_le length_dropWhile_le)

section \<open>JavaScript numbers\<close>

text \<open>
  A number is NaN, an infinity or a finite value.  Finite values are exact reals:
  the rounding of double precision, overflow of a finite literal and the sign of
  zero are outside the model.
\<close>

datatype number = NaN | PosInf | NegInf | Fin real

instantiation number :: "{uminus, plus, minus, times, inverse}"
begin

fun uminus_number :: "number \<Rightarrow> number" where
  "uminus_number NaN = NaN"
| "uminus_number PosInf = NegInf"
| "uminus_number NegInf = PosInf"
| "uminus_number (Fin x) = Fin (- x)"

fun plus_number :: "number \<Rightarrow> number \<Rightarrow> number" where
  "plus_number (Fin x) (Fin y) = Fin (x + y)"
| "plus_number NaN _ = NaN"
| "plus_number _ NaN = NaN"
| "plus_number PosInf NegInf = NaN"
| "plus_number NegInf PosInf = NaN"
| "plus_number PosInf _ = PosInf"
| "plus_number _ PosInf = PosInf"
| "plus_number NegInf _ = NegInf"
| "plus_number _ NegInf = NegInf"

definition minus_number :: "number \<Rightarrow> number \<Rightarrow> number" where
  "minus_number x y = (x :: number) + (- y)"

text \<open>The sign of an operand: \<open>None\<close> for NaN, otherwise \<open>-1\<close>, \<open>0\<close> or \<open>1\<close>;
  the product or quotient of an infinity and an operand of sign \<open>0\<close> is NaN.\<close>

fun num_sgn :: "number \<Rightarrow> int option" where
  "num_sgn NaN = None"
| "num_sgn PosInf = Some 1"
| "num_sgn NegInf = Some (- 1)"
| "num_sgn (Fin x) = Some (if x < 0 then - 1 else if x = 0 then 0 else 1)"

definition inf_of_sign :: "int \<Rightarrow> number" where
  "inf_of_sign k = (if k < 0 then NegInf else if k = 0 then NaN else PosInf)"

fun times_number :: "number \<Rightarrow> number \<Rightarrow> number" where
  "times_number (Fin x) (Fin y) = Fin (x * y)"
| "times_number x y = (case (num_sgn x, num_sgn y) of
     (Some j, Some k) \<Rightarrow> inf_of_sign (j * k)
   | _ \<Rightarrow> NaN)"

fun divide_number :: "number \<Rightarrow> number \<Rightarrow> number" where
  "divide_number (Fin x) (Fin y) = (if y = 0
     then inf_of_sign (if x < 0 then - 1 else if x = 0 then 0 else 1)
     else Fin (x / y))"
| "divide_number NaN _ = NaN"
| "divide_number _ NaN = NaN"
| "divide_number (Fin x) _ = Fin 0"
| "divide_number PosInf (Fin y) = (if y < 0 then NegInf else PosInf)"
| "divide_number NegInf (Fin y) = (if y < 0 then PosInf else NegInf)"
| "divide_number _ _ = NaN"

definition inverse_number :: "number \<Rightarrow> number" where
  "inverse_number x = divide (Fin 1) x"

instance ..

end

text \<open>The remainder \<^verbatim>\<open>x % y\<close> takes the sign of the dividend.\<close>

fun num_rem :: "number \<Rightarrow> number \<Rightarrow> number" where
  "num_rem (Fin x) (Fin y) = (if y = 0 then NaN
     else Fin (x - y * (sgn (x / y) * of_int \<lfloor>\<bar>x / y\<bar>\<rfloor>)))"
| "num_rem (Fin x) PosInf = Fin x"
| "num_rem (Fin x) NegInf = Fin x"
| "num_rem _ _ = NaN"

text \<open>Comparisons with NaN are false.\<close>

fun num_lt :: "number \<Rightarrow> number \<Rightarrow> bool" where
  "num_lt (Fin x) (Fin y) = (x < y)"
| "num_lt NaN _ = False"
| "num_lt _ NaN = False"
| "num_lt NegInf y = (y \<noteq> NegInf)"
| "num_lt x PosInf = (x \<noteq> PosInf)"
| "num_lt _ _ = False"

definition num_gt :: "number \<Rightarrow> number \<Rightarrow> bool" where
  "num_gt x y = num_lt y x"

definition num_le :: "number \<Rightarrow> number \<Rightarrow> bool" where
  "num_le x y = (x \<noteq> NaN \<and> y \<noteq> NaN \<and> (x = y \<or> num_lt x y))"

definition isNaN :: "number \<Rightarrow> bool" where
  "isNaN x = (x = NaN)"

text \<open>Truthiness of a number: \<open>0\<close> and NaN are falsy.\<close>

definition truthy :: "number \<Rightarrow> bool" where
  "truthy x = (x \<noteq> NaN \<and> x \<noteq> Fin 0)"

definition Math_min :: "number \<Rightarrow> number \<Rightarrow> number" where
  "Math_min x y = (if x = NaN \<or> y = NaN then NaN else if num_lt y x then y else x)"

definition Math_max :: "number \<Rightarrow> number \<Rightarrow> number" where
  "Math_max x y = (if x = NaN \<or> y = NaN then NaN else if num_lt x y then y else x)"

fun Math_abs :: "number \<Rightarrow> number" where
  "Math_abs (Fin x) = Fin \<bar>x\<bar>"
| "Math_abs NaN = NaN"
| "Math_abs _ = PosInf"

fun Math_cos :: "number \<Rightarrow> number" where
  "Math_cos (Fin x) = Fin (cos x)"
| "Math_cos _ = NaN"

fun Math_sin :: "number \<Rightarrow> number" where
  "Math_sin (Fin x) = Fin (sin x)"
| "Math_sin _ = NaN"

text \<open>
  \<^verbatim>\<open>Math.pow(x, y)\<close> for a finite exponent \<open>y > 0\<close> that is not an integer, the
  only kind the program passes (\<open>1 / 2.4\<close>): a negative finite base gives NaN.
\<close>

fun Math_pow :: "number \<Rightarrow> real \<Rightarrow> number" where
  "Math_pow (Fin x) y = (if x < 0 then NaN else Fin (x powr y))"
| "Math_pow NaN y = NaN"
| "Math_pow _ y = PosInf"

subsection \<open>\<^verbatim>\<open>parseFloat\<close> and \<^verbatim>\<open>parseInt\<close>\<close>

definition digit_val :: "char \<Rightarrow> nat" where
  "digit_val c = of_char c - 48"

definition digits_val :: "string \<Rightarrow> nat" where
  "digits_val ds = foldl (\<lambda>n c. 10 * n + digit_val c) 0 ds"

text \<open>The exponent part \<^verbatim>\<open>e[+-]?digits\<close>, if it is there with at least one digit.\<close>

definition exponent_part :: "string \<Rightarrow> int" where
  "exponent_part s = (case s of
     [] \<Rightarrow> 0
   | e # t \<Rightarrow> if e = CHR ''e'' \<or> e = CHR ''E'' then
       (case t of
          [] \<Rightarrow> 0
        | c # u \<Rightarrow> if c = CHR ''-'' then
              (if takeWhile is_digit u = [] then 0 else - int (digits_val (takeWhile is_digit u)))
            else if c = CHR ''+'' then int (digits_val (takeWhile is_digit u))
            else int (digits_val (takeWhile is_digit t)))
     else 0)"

definition pow10 :: "int \<Rightarrow> real" where
  "pow10 e = (if 0 \<le> e then 10 ^ nat e else 1 / 10 ^ nat (- e))"

text \<open>The unsigned part of a decimal literal: \<open>Infinity\<close>, or digits with an optional
  fraction and exponent; NaN when neither an integer nor a fraction digit is there.\<close>

definition unsigned_decimal :: "string \<Rightarrow> number" where
  "unsigned_decimal t = (if startsWith t ''Infinity'' then PosInf
     else (let ip = takeWhile is_digit t;
               r1 = dropWhile is_digit t;
               dot = (r1 \<noteq> [] \<and> hd r1 = CHR ''.'');
               fp = (if dot then takeWhile is_digit (tl r1) else []);
               r2 = (if dot then dropWhile is_digit (tl r1) else r1)
           in if ip = [] \<and> fp = [] then NaN
              else Fin ((real (digits_val ip) + real (digits_val fp) / 10 ^ length fp)
                        * pow10 (exponent_part r2))))"

definition parseFloat :: "string \<Rightarrow> number" where
  "parseFloat s = (let t = dropWhile is_ws s in
     case t of
       [] \<Rightarrow> NaN
     | c # u \<Rightarrow> if c = CHR ''-'' then - unsigned_decimal u
                else if c = CHR ''+'' then unsigned_decimal u
                else unsigned_decimal t)"

definition is_hex_digit :: "char \<Rightarrow> bool" where
  "is_hex_digit c = (let n = (of_char c :: nat) in
     (48 \<le> n \<and> n \<le> 57) \<or> (65 \<le> n \<and> n \<le> 70) \<or> (97 \<le> n \<and> n \<le> 102))"

definition hex_digit_val :: "char \<Rightarrow> nat" where
  "hex_digit_val c = (let n = (of_char c :: nat) in
     if n \<le> 57 then n - 48 else if n \<le> 70 then n - 55 else n - 87)"

definition hex_digits_val :: "string \<Rightarrow> nat" where
  "hex_digits_val ds = foldl (\<lambda>n c. 16 * n + hex_digit_val c) 0 ds"

text \<open>\<^verbatim>\<open>parseInt(s, 16)\<close>: leading white space, a sign, an optional \<^verbatim>\<open>0x\<close>, then the
  longest run of hexadecimal digits; NaN when that run is empty.\<close>

definition unsigned_hex :: "string \<Rightarrow> number" where
  "unsigned_hex t = (let u = (if startsWith t ''0x'' \<or> startsWith t ''0X'' then drop 2 t else t);
                        ds = takeWhile is_hex_digit u
                    in if ds = [] then NaN else Fin (real (hex_digits_val ds)))"

definition parseInt16 :: "string \<Rightarrow> number" where
  "parseInt16 s = (let t = dropWhile is_ws s in
     case t of
       [] \<Rightarrow> NaN
     | c # u \<Rightarrow> if c = CHR ''-'' then - unsigned_hex u
                else if c = CHR ''+'' then unsigned_hex u
                else unsigned_hex t)"

section \<open>Regular expressions\<close>

text \<open>
  The patterns of the program use literals, character classes, sequence,
  alternation, optional groups, greedy and lazy repetition of a character class,
  capture groups and the end anchor.  A match is computed as JavaScript's
  backtracking matcher does: \<open>rx_m\<close> lists every way to match at the start of the
  input, in the order the matcher tries them, each with the rest of the input and
  the captures.
\<close>

datatype rx =
    Eps
  | Chr "char \<Rightarrow> bool"
  | Seq rx rx
  | Alt rx rx
  | Opt rx
  | Star "char \<Rightarrow> bool"
  | LazyStar "char \<Rightarrow> bool"
  | Grp nat rx
  | Eol

type_synonym caps = "(nat \<times> string) list"

primrec rx_m :: "rx \<Rightarrow> string \<Rightarrow> caps \<Rightarrow> (string \<times> caps) list" where
  "rx_m Eps s c = [(s, c)]"
| "rx_m (Chr p) s c = (case s of [] \<Rightarrow> [] | x # xs \<Rightarrow> if p x then [(xs, c)] else [])"
| "rx_m (Seq a b) s c = concat (map (\<lambda>(s', c'). rx_m b s' c') (rx_m a s c))"
| "rx_m (Alt a b) s c = rx_m a s c @ rx_m b s c"
| "rx_m (Opt a) s c = rx_m a s c @ [(s, c)]"
| "rx_m (Star p) s c = map (\<lambda>k. (drop k s, c)) (rev [0..<Suc (length (takeWhile p s))])"
| "rx_m (LazyStar p) s c = map (\<lambda>k. (drop k s, c)) [0..<Suc (length (takeWhile p s))]"
| "rx_m (Grp n a) s c =
     map (\<lambda>(s', c'). (s', (n, take (length s - length s') s) # c')) (rx_m a s c)"
| "rx_m Eol s c = (if s = [] then [(s, c)] else [])"

definition chr :: "char \<Rightarrow> rx" where
  "chr x = Chr (\<lambda>c. c = x)"

definition lit :: "string \<Rightarrow> rx" where
  "lit s = foldr (\<lambda>x r. Seq (chr x) r) s Eps"

definition seq :: "rx list \<Rightarrow> rx" where
  "seq rs = foldr Seq rs Eps"

definition Plus :: "(char \<Rightarrow> bool) \<Rightarrow> rx" where
  "Plus p = Seq (Chr p) (Star p)"

text \<open>A match anchored at the start (a pattern that begins with \<^verbatim>\<open>^\<close>): the rest of
  the input and the captures of the first way to match.\<close>

definition rx_exec :: "rx \<Rightarrow> string \<Rightarrow> (string \<times> caps) option" where
  "rx_exec r s = (case rx_m r s [] of [] \<Rightarrow> None | m # _ \<Rightarrow> Some m)"

text \<open>An unanchored search: the leftmost position with a match.  The result is the
  text before the match, the match, the text after it, and the captures.\<close>

fun rx_search_from :: "rx \<Rightarrow> string \<Rightarrow> string \<Rightarrow> (string \<times> string \<times> string \<times> caps) option" where
  "rx_search_from r pre [] = (case rx_exec r [] of
       Some (s', c) \<Rightarrow> Some (pre, [], s', c)
     | None \<Rightarrow> None)"
| "rx_search_from r pre (x # xs) = (case rx_exec r (x # xs) of
       Some (s', c) \<Rightarrow> Some (pre, take (length (x # xs) - length s') (x # xs), s', c)
     | None \<Rightarrow> rx_search_from r (pre @ [x]) xs)"

definition rx_search :: "rx \<Rightarrow> string \<Rightarrow> (string \<times> string \<times> string \<times> caps) option" where
  "rx_search r s = rx_search_from r [] s"

text \<open>\<^verbatim>\<open>s.match(r)\<close> for a pattern without the global flag: the captures.\<close>

definition rx_match :: "rx \<Rightarrow> string \<Rightarrow> caps option" where
  "rx_match r s = map_option (\<lambda>(pre, m, rest, c). c) (rx_search r s)"

definition grp :: "caps \<Rightarrow> nat \<Rightarrow> string option" where
  "grp c n = map_of c n"

text \<open>The class \<^verbatim>\<open>[\d.]\<close>.\<close>

definition dd :: "char \<Rightarrow> bool" where
  "dd c = (is_digit c \<or> c = CHR ''.'')"

section \<open>Color conversion (\<^verbatim>\<open>colorUtils.ts\<close>)\<close>

text \<open>The fields \<open>r\<close>, \<open>g\<close>, \<open>b\<close>, \<open>a\<close> of \<^verbatim>\<open>FigmaColor\<close>; record fields carry a
  prefix throughout, since several interfaces of the program share field names.\<close>

record FigmaColor =
  col_r :: number
  col_g :: number
  col_b :: number
  col_a :: number

definition clamp01 :: "number \<Rightarrow> number" where
  "clamp01 n = Math_max (Fin 0) (Math_min (Fin 1) n)"

definition linearToSrgb :: "number \<Rightarrow> number" where
  "linearToSrgb c = (if num_le c (Fin 0.0031308) then Fin 12.92 * c
     else Fin 1.055 * Math_pow c (1 / 2.4) - Fin 0.055)"

definition oklchToRgba :: "number \<Rightarrow> number \<Rightarrow> number \<Rightarrow> number \<Rightarrow> FigmaColor" where
  "oklchToRgba L C H alpha =
    (let hRad = (H * Fin pi) / Fin 180;
         a' = C * Math_cos hRad;
         b' = C * Math_sin hRad;
         l' = L + Fin 0.3963377774 * a' + Fin 0.2158037573 * b';
         m' = L - Fin 0.1055613458 * a' - Fin 0.0638541728 * b';
         s' = L - Fin 0.0894841775 * a' - Fin 1.291485548 * b';
         l = l' * l' * l';
         m = m' * m' * m';
         s = s' * s' * s';
         r = Fin 4.0767416621 * l - Fin 3.3077115913 * m + Fin 0.2309699292 * s;
         g = Fin (- 1.2684380046) * l + Fin 2.6097574011 * m - Fin 0.3413193965 * s;
         b = Fin (- 0.0041960863) * l - Fin 0.7034186147 * m + Fin 1.707614701 * s
     in \<lparr>col_r = clamp01 (linearToSrgb r),
         col_g = clamp01 (linearToSrgb g),
         col_b = clamp01 (linearToSrgb b),
         col_a = alpha\<rparr>)"

definition hslToRgba :: "number \<Rightarrow> number \<Rightarrow> number \<Rightarrow> number \<Rightarrow> FigmaColor" where
  "hslToRgba h s0 l0 alpha =
    (let s = s0 / Fin 100;
         l = l0 / Fin 100;
         c = (Fin 1 - Math_abs (Fin 2 * l - Fin 1)) * s;
         x = c * (Fin 1 - Math_abs (num_rem (h / Fin 60) (Fin 2) - Fin 1));
         m = l - c / Fin 2;
         (r, g, b) =
           (if num_lt h (Fin 60) then (c, x, Fin 0)
            else if num_lt h (Fin 120) then (x, c, Fin 0)
            else if num_lt h (Fin 180) then (Fin 0, c, x)
            else if num_lt h (Fin 240) then (Fin 0, x, c)
            else if num_lt h (Fin 300) then (x, Fin 0, c)
            else (c, Fin 0, x))
     in \<lparr>col_r = clamp01 (r + m),
         col_g = clamp01 (g + m),
         col_b = clamp01 (b + m),
         col_a = alpha\<rparr>)"

text \<open>\<^verbatim>\<open>hex[i] + hex[i]\<close> for each of the first \<open>n\<close> characters.\<close>

definition double_chars :: "string \<Rightarrow> string" where
  "double_chars h = concat (map (\<lambda>c. [c, c]) h)"

definition hexToRgba :: "string \<Rightarrow> FigmaColor" where
  "hexToRgba hex0 =
    (let hex1 = replace_first hex0 ''#'' '''';
         hex2 = (if length hex1 = 3 then double_chars hex1 else hex1);
         hex = (if length hex2 = 4 then double_chars hex2 else hex2)
     in \<lparr>col_r = parseInt16 (take 2 hex) / Fin 255,
         col_g = parseInt16 (take 2 (drop 2 hex)) / Fin 255,
         col_b = parseInt16 (take 2 (drop 4 hex)) / Fin 255,
         col_a = (if length hex = 8 then parseInt16 (take 2 (drop 6 hex)) / Fin 255
                  else Fin 1)\<rparr>)"

text \<open>An optional alpha capture: used when it is there and not empty; a trailing
  \<^verbatim>\<open>%\<close> divides by 100.\<close>

definition alpha_of :: "string option \<Rightarrow> number" where
  "alpha_of m = (case m of
     None \<Rightarrow> Fin 1
   | Some s \<Rightarrow> if s = [] then Fin 1
              else if endsWith s ''%'' then parseFloat s / Fin 100
              else parseFloat s)"

text \<open>\<^verbatim>\<open>/rgba?\(\s*([\d.]+)\s*,?\s*([\d.]+)\s*,?\s*([\d.]+)\s*(?:[,/]\s*([\d.%]+))?\s*\)/\<close>\<close>

definition rgb_rx :: rx where
  "rgb_rx = seq [lit ''rgb'', Opt (chr CHR ''a''), chr CHR ''('', Star is_ws,
     Grp 1 (Plus dd), Star is_ws, Opt (chr CHR '',''), Star is_ws,
     Grp 2 (Plus dd), Star is_ws, Opt (chr CHR '',''), Star is_ws,
     Grp 3 (Plus dd), Star is_ws,
     Opt (seq [Chr (\<lambda>c. c = CHR '','' \<or> c = CHR ''/''), Star is_ws,
               Grp 4 (Plus (\<lambda>c. dd c \<or> c = CHR ''%''))]),
     Star is_ws, chr CHR '')'']"

definition rgbStringToRgba :: "string \<Rightarrow> FigmaColor option" where
  "rgbStringToRgba str = (case rx_match rgb_rx str of
     None \<Rightarrow> None
   | Some m \<Rightarrow>
       (let r = parseFloat (the (grp m 1)) / Fin 255;
            g = parseFloat (the (grp m 2)) / Fin 255;
            b = parseFloat (the (grp m 3)) / Fin 255;
            a = alpha_of (grp m 4)
        in Some \<lparr>col_r = clamp01 r, col_g = clamp01 g, col_b = clamp01 b,
                  col_a = clamp01 a\<rparr>))"

text \<open>\<^verbatim>\<open>/oklch\(\s*([\d.]+)%?\s+([\d.]+)\s+([\d.]+)\s*(?:\/\s*([\d.]+%?))?\s*\)/\<close>\<close>

definition oklch_rx :: rx where
  "oklch_rx = seq [lit ''oklch('', Star is_ws,
     Grp 1 (Plus dd), Opt (chr CHR ''%''), Plus is_ws,
     Grp 2 (Plus dd), Plus is_ws,
     Grp 3 (Plus dd), Star is_ws,
     Opt (seq [chr CHR ''/'', Star is_ws, Grp 4 (Seq (Plus dd) (Opt (chr CHR ''%'')))]),
     Star is_ws, chr CHR '')'']"

text \<open>\<^verbatim>\<open>/hsla?\(\s*([\d.]+)\s*[,\s]\s*([\d.]+)%?\s*[,\s]\s*([\d.]+)%?\s*(?:[,/]\s*([\d.]+%?))?\s*\)/\<close>\<close>

definition hsl_rx :: rx where
  "hsl_rx = seq [lit ''hsl'', Opt (chr CHR ''a''), chr CHR ''('', Star is_ws,
     Grp 1 (Plus dd), Star is_ws, Chr (\<lambda>c. c = CHR '','' \<or> is_ws c), Star is_ws,
     Grp 2 (Plus dd), Opt (chr CHR ''%''), Star is_ws,
     Chr (\<lambda>c. c = CHR '','' \<or> is_ws c), Star is_ws,
     Grp 3 (Plus dd), Opt (chr CHR ''%''), Star is_ws,
     Opt (seq [Chr (\<lambda>c. c = CHR '','' \<or> c = CHR ''/''), Star is_ws,
               Grp 4 (Seq (Plus dd) (Opt (chr CHR ''%'')))]),
     Star is_ws, chr CHR '')'']"

text \<open>
  The table \<^verbatim>\<open>named\<close> is an object literal, so \<^verbatim>\<open>named[v]\<close> finds the three own
  properties and also what every object inherits from \<^verbatim>\<open>Object.prototype\<close>:
  functions, and for \<^verbatim>\<open>__proto__\<close> the prototype object, all of them truthy
  and none of them a string.
\<close>

datatype property = OwnString string | Inherited | Undefined

definition Object_prototype_keys :: "string list" where
  "Object_prototype_keys = [''constructor'', ''__defineGetter__'', ''__defineSetter__'',
     ''hasOwnProperty'', ''__lookupGetter__'', ''__lookupSetter__'', ''isPrototypeOf'',
     ''propertyIsEnumerable'', ''toString'', ''valueOf'', ''__proto__'', ''toLocaleString'']"

definition named :: "string \<Rightarrow> property" where
  "named v = (if v = ''black'' then OwnString ''#000000''
     else if v = ''white'' then OwnString ''#ffffff''
     else if v = ''transparent'' then OwnString ''#00000000''
     else if v \<in> set Object_prototype_keys then Inherited
     else Undefined)"

text \<open>The only exception the parser can raise: \<^verbatim>\<open>hexToRgba\<close> applied to a value that
  is not a string calls \<^verbatim>\<open>hex.replace\<close>, which is not a function there.\<close>

datatype error = TypeError

definition parseColorValue :: "string \<Rightarrow> error + FigmaColor option" where
  "parseColorValue val =
    (let v = toLowerCase (trim val) in
     case rx_match oklch_rx v of
       Some m \<Rightarrow>
         (let L0 = parseFloat (the (grp m 1));
              L = (if num_gt L0 (Fin 1) then L0 / Fin 100 else L0);
              C = parseFloat (the (grp m 2));
              H = parseFloat (the (grp m 3));
              alpha = alpha_of (grp m 4)
          in Inr (Some (oklchToRgba L C H alpha)))
     | None \<Rightarrow>
       (case rx_match hsl_rx v of
          Some m \<Rightarrow>
            (let h = parseFloat (the (grp m 1));
                 s = parseFloat (the (grp m 2));
                 l = parseFloat (the (grp m 3));
                 a = alpha_of (grp m 4)
             in Inr (Some (hslToRgba h s l a)))
        | None \<Rightarrow>
            if startsWith v ''rgb'' then Inr (rgbStringToRgba v)
            else if startsWith v ''#'' then Inr (Some (hexToRgba v))
            else (case named v of
                    OwnString h \<Rightarrow> Inr (Some (hexToRgba h))
                  | Inherited \<Rightarrow> Inl TypeError
                  | Undefined \<Rightarrow> Inr None)))"

definition remToPx :: "number \<Rightarrow> number" where
  "remToPx rem = rem * Fin 16"

text \<open>\<^verbatim>\<open>/^(-?[\d.]+)(rem|px|em)?$/\<close>\<close>

definition dimension_rx :: rx where
  "dimension_rx = seq [Grp 1 (Seq (Opt (chr CHR ''-'')) (Plus dd)),
     Opt (Grp 2 (Alt (lit ''rem'') (Alt (lit ''px'') (lit ''em'')))), Eol]"

definition parseDimension :: "string \<Rightarrow> number option" where
  "parseDimension val = (case rx_exec dimension_rx (trim val) of
     None \<Rightarrow> None
   | Some (rest, m) \<Rightarrow>
       (let num = parseFloat (the (grp m 1));
            unit = (case grp m 2 of None \<Rightarrow> ''px'' | Some u \<Rightarrow> if u = [] then ''px'' else u)
        in if unit = ''rem'' \<or> unit = ''em'' then Some (remToPx num)
           else Some num))"

definition colorsMatch :: "FigmaColor \<Rightarrow> FigmaColor \<Rightarrow> number \<Rightarrow> bool" where
  "colorsMatch x y tolerance =
    (num_lt (Math_abs (col_r x - col_r y)) tolerance \<and>
     num_lt (Math_abs (col_g x - col_g y)) tolerance \<and>
     num_lt (Math_abs (col_b x - col_b y)) tolerance \<and>
     num_lt (Math_abs (col_a x - col_a y)) tolerance)"

section \<open>The token parser\<close>

subsection \<open>Types\<close>

record CSSVariable =
  cv_name :: string
  cv_rawValue :: string

record ParsedColor =
  pc_path :: "string list"
  pc_figmaColor :: FigmaColor
  pc_rawValue :: string

record ParsedFloat =
  pf_path :: "string list"
  pf_value :: number
  pf_rawValue :: string

datatype ShadowType = DROP_SHADOW | INNER_SHADOW

record ShadowLayer =
  sl_x :: number
  sl_y :: number
  sl_blur :: number
  sl_spread :: number
  sl_color :: FigmaColor
  sl_type :: ShadowType

record ParsedShadow =
  ps_name :: string
  ps_shadows :: "ShadowLayer list"
  ps_rawValue :: string

text \<open>An optional field that is \<^verbatim>\<open>undefined\<close> is \<open>None\<close>.\<close>

record ParsedTypography =
  pt_name :: string
  pt_fontSize :: number
  pt_lineHeight :: "number option"
  pt_letterSpacing :: "number option"
  pt_fontWeight :: "number option"
  pt_rawValue :: string

record ParsedFont =
  pfn_name :: string
  pfn_family :: string
  pfn_rawValue :: string

record ParsedTokenSet =
  colors :: "ParsedColor list"
  spacing :: "ParsedFloat list"
  radius :: "ParsedFloat list"
  shadows :: "ParsedShadow list"
  blur :: "ParsedFloat list"
  typography :: "ParsedTypography list"
  opacity :: "ParsedFloat list"
  fonts :: "ParsedFont list"
  breakpoints :: "ParsedFloat list"
  containers :: "ParsedFloat list"
  fontWeights :: "ParsedFloat list"
  tracking :: "ParsedFloat list"
  leading :: "ParsedFloat list"
  borderWidth :: "ParsedFloat list"
  backdropBlur :: "ParsedFloat list"
  maxWidth :: "ParsedFloat list"
  skew :: "ParsedFloat list"

record ThemeTokens =
  light :: "string \<rightharpoonup> string"
  dark :: "string \<rightharpoonup> string"

subsection \<open>Extraction of custom properties\<close>

text \<open>\<^verbatim>\<open>s.replace(/\s+/g, ' ')\<close>: every maximal run of white space becomes one space.\<close>

function collapse_ws :: "string \<Rightarrow> string" where
  "collapse_ws [] = []"
| "collapse_ws (x # xs) = (if is_ws x then CHR '' '' # collapse_ws (dropWhile is_ws xs)
     else x # collapse_ws xs)"
  by pat_completeness auto
termination
  by (relation "measure length") (auto simp: less_Suc_eq_le length_dropWhile_le)

text \<open>\<^verbatim>\<open>/(--[\w-]+)\s*:\s*([^;]+)/g\<close>\<close>

definition var_rx :: rx where
  "var_rx = seq [Grp 1 (seq [chr CHR ''-'', chr CHR ''-'', Plus (\<lambda>c. is_word c \<or> c = CHR ''-'')]),
     Star is_ws, chr CHR '':'', Star is_ws, Grp 2 (Plus (\<lambda>c. c \<noteq> CHR '';''))]"

definition css_variable :: "caps \<Rightarrow> CSSVariable" where
  "css_variable m = \<lparr>cv_name = trim (the (grp m 1)),
                       cv_rawValue = collapse_ws (trim (the (grp m 2)))\<rparr>"

text \<open>Facts about the matcher that the extraction loop needs in order to end: a match
  leaves a suffix of the input, and consumes at least \<open>min_len\<close> characters.\<close>

primrec min_len :: "rx \<Rightarrow> nat" where
  "min_len Eps = 0"
| "min_len (Chr p) = 1"
| "min_len (Seq a b) = min_len a + min_len b"
| "min_len (Alt a b) = min (min_len a) (min_len b)"
| "min_len (Opt a) = 0"
| "min_len (Star p) = 0"
| "min_len (LazyStar p) = 0"
| "min_len (Grp n a) = min_len a"
| "min_len Eol = 0"

lemma rx_m_min_len: "(s', c') \<in> set (rx_m r s c) \<Longrightarrow> length s' + min_len r \<le> length s"
proof (induction r arbitrary: s c s' c')
  case (Seq a b)
  from Seq.prems obtain s1 c1 where 1: "(s1, c1) \<in> set (rx_m a s c)"
    and 2: "(s', c') \<in> set (rx_m b s1 c1)"
    by auto
  from Seq.IH(1)[OF 1] Seq.IH(2)[OF 2] show ?case by simp
next
  case (Alt a b)
  then show ?case by fastforce
next
  case (Opt a)
  then show ?case by fastforce
next
  case (Grp n a)
  then show ?case by fastforce
qed (auto split: list.splits if_splits)

lemma rx_m_length: "(s', c') \<in> set (rx_m r s c) \<Longrightarrow> length s' \<le> length s"
  using rx_m_min_len[of s' c' r s c] by simp

lemma rx_m_suffix: "(s', c') \<in> set (rx_m r s c) \<Longrightarrow> \<exists>k. s' = drop k s"
proof (induction r arbitrary: s c s' c')
  case Eps
  then show ?case by (auto intro: exI[of _ 0])
next
  case (Chr p)
  then show ?case by (auto split: list.splits if_splits intro: exI[of _ 1])
next
  case (Seq a b)
  from Seq.prems obtain s1 c1 where 1: "(s1, c1) \<in> set (rx_m a s c)"
    and 2: "(s', c') \<in> set (rx_m b s1 c1)"
    by auto
  from Seq.IH(1)[OF 1] Seq.IH(2)[OF 2] show ?case by auto
next
  case (Opt r)
  then show ?case by (auto intro: exI[of _ 0])
next
  case Eol
  then show ?case by (auto split: if_splits)
qed (auto split: list.splits if_splits)

lemma rx_m_take_append:
  assumes "(s', c') \<in> set (rx_m r s c)"
  shows "take (length s - length s') s @ s' = s"
proof -
  from rx_m_suffix[OF assms] obtain k where k: "s' = drop k s" by blast
  show ?thesis
  proof (cases "k \<le> length s")
    case True
    then show ?thesis by (simp add: k)
  next
    case False
    then show ?thesis by (simp add: k)
  qed
qed

lemma rx_exec_Some: "rx_exec r s = Some (s', c') \<Longrightarrow> (s', c') \<in> set (rx_m r s [])"
  by (auto simp: rx_exec_def split: list.splits)

lemma rx_search_from_Some:
  "rx_search_from r pre s = Some (p, m, rest, c) \<Longrightarrow>
   (\<exists>u. p = pre @ u \<and> s = u @ m @ rest) \<and> (rest, c) \<in> set (rx_m r (m @ rest) [])"
proof (induction r pre s rule: rx_search_from.induct)
  case (1 r pre)
  from 1 have mem: "(rest, c) \<in> set (rx_m r [] [])" and pm: "p = pre" "m = []"
    by (auto split: option.splits dest!: rx_exec_Some)
  from rx_m_length[OF mem] have "rest = []" by simp
  with mem pm show ?case by simp
next
  case (2 r pre x xs)
  show ?case
  proof (cases "rx_exec r (x # xs)")
    case None
    with 2 show ?thesis by (auto simp del: rx_m.simps)
  next
    case (Some a)
    obtain s' c' where a: "a = (s', c')" by (cases a)
    from Some a have mem: "(s', c') \<in> set (rx_m r (x # xs) [])"
      by (auto dest: rx_exec_Some)
    from rx_m_take_append[OF mem] 2 Some a mem show ?thesis
      by (auto simp del: rx_m.simps)
  qed
qed

lemma rx_search_Some:
  "rx_search r s = Some (p, m, rest, c) \<Longrightarrow>
   s = p @ m @ rest \<and> (rest, c) \<in> set (rx_m r (m @ rest) [])"
  unfolding rx_search_def by (drule rx_search_from_Some) auto

lemma rx_search_progress:
  assumes "rx_search r s = Some (p, m, rest, c)"
  shows "length rest + min_len r \<le> length s"
proof -
  from rx_search_Some[OF assms] have s: "s = p @ m @ rest"
    and mem: "(rest, c) \<in> set (rx_m r (m @ rest) [])"
    by auto
  from rx_m_min_len[OF mem] show ?thesis by (simp add: s)
qed

lemma min_len_var_rx: "min_len var_rx = 5"
  by (simp add: var_rx_def seq_def chr_def Plus_def)

text \<open>The loop \<^verbatim>\<open>while ((match = regex.exec(css)) !== null)\<close>: each search starts
  where the last match ended.\<close>

function exec_all :: "string \<Rightarrow> caps list" where
  "exec_all css = (case rx_search var_rx css of
     None \<Rightarrow> []
   | Some (pre, m, rest, c) \<Rightarrow> c # exec_all rest)"
  by pat_completeness auto
termination
proof (relation "measure length")
  show "wf (measure length)" by simp
next
  fix css :: string and x2 pre y m z rest c
  assume "rx_search var_rx css = Some x2" "(pre, y) = x2" "(m, z) = y" "(rest, c) = z"
  then have "rx_search var_rx css = Some (pre, m, rest, c)" by simp
  from rx_search_progress[OF this] show "(rest, css) \<in> measure length"
    by (simp add: min_len_var_rx)
qed

declare exec_all.simps [simp del]

definition extractCSSVariables :: "string \<Rightarrow> CSSVariable list" where
  "extractCSSVariables css = map css_variable (exec_all css)"

text \<open>\<^verbatim>\<open>/@theme\s+[^{]*\{([\s\S]*?)\n\}/\<close>\<close>

definition theme_rx :: rx where
  "theme_rx = seq [lit ''@theme'', Plus is_ws, Star (\<lambda>c. c \<noteq> CHR ''{''), chr CHR ''{'',
     Grp 1 (LazyStar (\<lambda>c. True)), chr CHR 0x0A, chr CHR ''}'']"

definition parseThemeBlock :: "string \<Rightarrow> CSSVariable list" where
  "parseThemeBlock css = (case rx_match theme_rx css of
     None \<Rightarrow> []
   | Some m \<Rightarrow> extractCSSVariables (the (grp m 1)))"

text \<open>\<^verbatim>\<open>/:root\s*\{([\s\S]*?)\}/\<close> and \<^verbatim>\<open>/\.dark\s*\{([\s\S]*?)\}/\<close>\<close>

definition root_rx :: rx where
  "root_rx = seq [lit '':root'', Star is_ws, chr CHR ''{'',
     Grp 1 (LazyStar (\<lambda>c. True)), chr CHR ''}'']"

definition dark_rx :: rx where
  "dark_rx = seq [lit ''.dark'', Star is_ws, chr CHR ''{'',
     Grp 1 (LazyStar (\<lambda>c. True)), chr CHR ''}'']"

text \<open>The assignment \<^verbatim>\<open>obj[k] = v\<close> of a string to a property of a plain object:
  the key \<^verbatim>\<open>__proto__\<close> is the prototype setter, which ignores a string.\<close>

definition obj_set :: "(string \<rightharpoonup> string) \<Rightarrow> string \<Rightarrow> string \<Rightarrow> (string \<rightharpoonup> string)" where
  "obj_set obj k v = (if k = ''__proto__'' then obj else obj(k \<mapsto> v))"

definition assign_vars :: "CSSVariable list \<Rightarrow> (string \<rightharpoonup> string)" where
  "assign_vars vars = foldl (\<lambda>obj v. obj_set obj (cv_name v) (cv_rawValue v)) Map.empty vars"

definition parseRootAndDark :: "string \<Rightarrow> ThemeTokens" where
  "parseRootAndDark css =
    \<lparr>light = (case rx_match root_rx css of
                None \<Rightarrow> Map.empty
              | Some m \<Rightarrow> assign_vars (extractCSSVariables (the (grp m 1)))),
     dark = (case rx_match dark_rx css of
               None \<Rightarrow> Map.empty
             | Some m \<Rightarrow> assign_vars (extractCSSVariables (the (grp m 1))))\<rparr>"

subsection \<open>Shadow values\<close>

text \<open>The loop of \<^verbatim>\<open>splitShadowParts\<close> over the characters: the parts so far, the
  parenthesis depth and the part being read.\<close>

fun split_loop :: "string \<Rightarrow> string list \<Rightarrow> int \<Rightarrow> string \<Rightarrow> string list" where
  "split_loop [] parts depth current =
     (if trim current \<noteq> [] then parts @ [current] else parts)"
| "split_loop (ch # rest) parts depth current =
     (let depth1 = (if ch = CHR ''('' then depth + 1 else depth);
          depth2 = (if ch = CHR '')'' then depth1 - 1 else depth1)
      in if ch = CHR '','' \<and> depth2 = 0
         then split_loop rest (parts @ [current]) depth2 []
         else split_loop rest parts depth2 (current @ [ch]))"

definition splitShadowParts :: "string \<Rightarrow> string list" where
  "splitShadowParts val = split_loop val [] 0 []"

text \<open>\<^verbatim>\<open>/^inset\s+/\<close> and \<^verbatim>\<open>/((?:rgb|oklch|hsl)a?\([^)]+\))/\<close>\<close>

definition inset_rx :: rx where
  "inset_rx = Seq (lit ''inset'') (Plus is_ws)"

definition shadow_color_rx :: rx where
  "shadow_color_rx = Grp 1 (seq [Alt (lit ''rgb'') (Alt (lit ''oklch'') (lit ''hsl'')),
     Opt (chr CHR ''a''), chr CHR ''('', Plus (\<lambda>c. c \<noteq> CHR '')''), chr CHR '')''])"

text \<open>\<^verbatim>\<open>parseDimension(n) || 0\<close> and \<^verbatim>\<open>nums[i] || 0\<close>.\<close>

definition dimension_or_0 :: "string \<Rightarrow> number" where
  "dimension_or_0 n = (case parseDimension n of
     None \<Rightarrow> Fin 0
   | Some d \<Rightarrow> if truthy d then d else Fin 0)"

definition nth_or_0 :: "number list \<Rightarrow> nat \<Rightarrow> number" where
  "nth_or_0 nums i = (if i < length nums \<and> truthy (nums ! i) then nums ! i else Fin 0)"

text \<open>The text of a layer without its inset keyword, the color token found in it, and
  the fields that remain once the color token is removed.\<close>

definition shadow_text :: "string \<Rightarrow> string" where
  "shadow_text part = (case rx_exec inset_rx (trim part) of
     None \<Rightarrow> trim part
   | Some (rest, m) \<Rightarrow> rest)"

definition shadow_colorStr :: "string \<Rightarrow> string" where
  "shadow_colorStr part = (case rx_match shadow_color_rx (shadow_text part) of
     None \<Rightarrow> ''rgb(0 0 0 / 0.1)''
   | Some m \<Rightarrow> the (grp m 1))"

definition shadow_fields :: "string \<Rightarrow> string list" where
  "shadow_fields part =
     split_ws (trim (replace_first (shadow_text part) (shadow_colorStr part) ''''))"

text \<open>The body of the loop of \<^verbatim>\<open>parseShadowValue\<close>, for a part that is not blank.\<close>

definition parseShadowLayer :: "string \<Rightarrow> error + ShadowLayer" where
  "parseShadowLayer part =
    (let isInset = startsWith (trim part) ''inset'';
         nums = map dimension_or_0 (shadow_fields part)
     in case parseColorValue (shadow_colorStr part) of
          Inl e \<Rightarrow> Inl e
        | Inr parsed \<Rightarrow>
            Inr \<lparr>sl_x = nth_or_0 nums 0, sl_y = nth_or_0 nums 1,
                 sl_blur = nth_or_0 nums 2, sl_spread = nth_or_0 nums 3,
                 sl_color = (case parsed of
                     Some color \<Rightarrow> color
                   | None \<Rightarrow> \<lparr>col_r = Fin 0, col_g = Fin 0, col_b = Fin 0, col_a = Fin 0.1\<rparr>),
                 sl_type = (if isInset then INNER_SHADOW else DROP_SHADOW)\<rparr>)"

fun shadow_layers :: "string list \<Rightarrow> ShadowLayer list \<Rightarrow> error + ShadowLayer list" where
  "shadow_layers [] layers = Inr layers"
| "shadow_layers (part # parts) layers =
     (if trim part = [] then shadow_layers parts layers
      else (case parseShadowLayer part of
              Inl e \<Rightarrow> Inl e
            | Inr layer \<Rightarrow> shadow_layers parts (layers @ [layer])))"

definition parseShadowValue :: "string \<Rightarrow> error + ShadowLayer list" where
  "parseShadowValue val = shadow_layers (splitShadowParts val) []"

subsection \<open>Helpers\<close>

text \<open>\<^verbatim>\<open>/calc\(\s*([\d.]+)\s*\/\s*([\d.]+)\s*\)/\<close>\<close>

definition calc_rx :: rx where
  "calc_rx = seq [lit ''calc('', Star is_ws, Grp 1 (Plus dd), Star is_ws, chr CHR ''/'',
     Star is_ws, Grp 2 (Plus dd), Star is_ws, chr CHR '')'']"

definition evaluateCalc :: "string \<Rightarrow> number option" where
  "evaluateCalc val =
    (let fallback = (let num = parseFloat val in if isNaN num then None else Some num)
     in case rx_match calc_rx val of
          None \<Rightarrow> fallback
        | Some m \<Rightarrow>
            (let numerator = parseFloat (the (grp m 1));
                 denominator = parseFloat (the (grp m 2))
             in if denominator \<noteq> Fin 0 then Some (numerator / denominator)
                else fallback))"

text \<open>
  The conversion of a number to a string, for \<^verbatim>\<open>String(step)\<close> and
  \<^verbatim>\<open>step * basePx + 'px'\<close>: the decimal digits of the exact value, at most 17
  after the point.  The exponent notation of very large and very small values is
  outside the model.
\<close>

definition digit_char :: "nat \<Rightarrow> char" where
  "digit_char d = ''0123456789'' ! d"

function string_of_nat :: "nat \<Rightarrow> string" where
  "string_of_nat n = (if n < 10 then [digit_char n]
     else string_of_nat (n div 10) @ [digit_char (n mod 10)])"
  by pat_completeness auto
termination
  by (relation "measure id") auto

fun frac_digits :: "nat \<Rightarrow> real \<Rightarrow> string" where
  "frac_digits 0 x = []"
| "frac_digits (Suc k) x = (if x = 0 then []
     else digit_char (nat \<lfloor>10 * x\<rfloor>) # frac_digits k (10 * x - of_int \<lfloor>10 * x\<rfloor>))"

fun Number_toString :: "number \<Rightarrow> string" where
  "Number_toString NaN = ''NaN''"
| "Number_toString PosInf = ''Infinity''"
| "Number_toString NegInf = ''-Infinity''"
| "Number_toString (Fin x) =
     (if x < 0 then ''-'' else '''') @ string_of_nat (nat \<lfloor>\<bar>x\<bar>\<rfloor>) @
     (if \<bar>x\<bar> = of_int \<lfloor>\<bar>x\<bar>\<rfloor> then ''''
      else ''.'' @ frac_digits 17 (\<bar>x\<bar> - of_int \<lfloor>\<bar>x\<bar>\<rfloor>))"

definition steps :: "real list" where
  "steps = [0.5, 1, 1.5, 2, 2.5, 3, 3.5, 4, 5, 6, 7, 8, 9, 10,
            11, 12, 14, 16, 20, 24, 28, 32, 36, 40, 44, 48, 52, 56,
            60, 64, 72, 80, 96]"

definition generateSpacingScale :: "number \<Rightarrow> ParsedFloat list" where
  "generateSpacingScale basePx = map (\<lambda>step.
     (let safeName = map (\<lambda>c. if c = CHR ''.'' then CHR ''_'' else c) (Number_toString (Fin step))
      in \<lparr>pf_path = [safeName],
          pf_value = Fin step * basePx,
          pf_rawValue = Number_toString (Fin step * basePx) @ ''px''\<rparr>)) steps"

subsection \<open>Token categorization\<close>

definition empty_token_set :: ParsedTokenSet where
  "empty_token_set = \<lparr>colors = [], spacing = [], radius = [], shadows = [], blur = [],
     typography = [], opacity = [], fonts = [], breakpoints = [], containers = [],
     fontWeights = [], tracking = [], leading = [], borderWidth = [], backdropBlur = [],
     maxWidth = [], skew = []\<rparr>"

text \<open>What a branch pushes: one float token when the dimension is not \<^verbatim>\<open>null\<close>
  (respectively when the number is not NaN), nothing otherwise.\<close>

definition dim_token :: "string list \<Rightarrow> string \<Rightarrow> ParsedFloat list" where
  "dim_token path raw = (case parseDimension raw of
     None \<Rightarrow> []
   | Some d \<Rightarrow> [\<lparr>pf_path = path, pf_value = d, pf_rawValue = raw\<rparr>])"

definition num_token :: "string list \<Rightarrow> string \<Rightarrow> ParsedFloat list" where
  "num_token path raw = (let val = parseFloat raw in
     if \<not> isNaN val then [\<lparr>pf_path = path, pf_value = val, pf_rawValue = raw\<rparr>] else [])"

text \<open>What a shadow branch pushes: one shadow token when there is a layer.\<close>

definition shadow_token :: "string \<Rightarrow> string \<Rightarrow> error + ParsedShadow list" where
  "shadow_token shadowName raw = (case parseShadowValue raw of
     Inl e \<Rightarrow> Inl e
   | Inr layers \<Rightarrow> Inr (if length layers > 0
       then [\<lparr>ps_name = shadowName, ps_shadows = layers, ps_rawValue = raw\<rparr>] else []))"

text \<open>\<^verbatim>\<open>name.replace(/^--/, '')\<close> and \<^verbatim>\<open>name.replace(/^max-w(idth)?-/, '')\<close>\<close>

definition strip_dashes :: "string \<Rightarrow> string" where
  "strip_dashes n = (case rx_exec (lit ''--'') n of None \<Rightarrow> n | Some (rest, m) \<Rightarrow> rest)"

definition strip_max_w :: "string \<Rightarrow> string" where
  "strip_max_w n = (case rx_exec (seq [lit ''max-w'', Opt (Grp 1 (lit ''idth'')), chr CHR ''-'']) n of
     None \<Rightarrow> n
   | Some (rest, m) \<Rightarrow> rest)"

text \<open>The path of the radius and blur families: the bare name maps to \<open>default\<close>.\<close>

definition default_path :: "string \<Rightarrow> string \<Rightarrow> string list" where
  "default_path name family =
    (let parts = split_on CHR ''-'' (replace_first name (family @ ''-'') '''')
     in if name = family then parts[0 := ''default''] else parts)"

text \<open>The sibling \<^verbatim>\<open>vars.find(lv => lv.name === '--' + name + suffix)\<close>.\<close>

definition sibling :: "CSSVariable list \<Rightarrow> string \<Rightarrow> string \<Rightarrow> CSSVariable option" where
  "sibling vars name suffix = find (\<lambda>lv. cv_name lv = ''--'' @ name @ suffix) vars"

text \<open>
  The variables \<^verbatim>\<open>lineHeight\<close>, \<^verbatim>\<open>letterSpacing\<close> and \<^verbatim>\<open>fontWeight\<close> are declared
  with \<^verbatim>\<open>var\<close> and no initializer inside the loop of \<^verbatim>\<open>categorizeTokens\<close>: they
  belong to the function, are \<^verbatim>\<open>undefined\<close> when it starts, and keep their value from
  one iteration to the next until an assignment changes it.
\<close>

record TypographyVars =
  tv_lineHeight :: "number option"
  tv_letterSpacing :: "number option"
  tv_fontWeight :: "number option"

definition undefined_vars :: TypographyVars where
  "undefined_vars = \<lparr>tv_lineHeight = None, tv_letterSpacing = None, tv_fontWeight = None\<rparr>"

text \<open>The assignments of the typography rule to the three variables, once the
  dimension of the size variable has parsed.\<close>

definition typography_vars :: "CSSVariable list \<Rightarrow> string \<Rightarrow> TypographyVars \<Rightarrow> TypographyVars" where
  "typography_vars vars name tv =
    \<lparr>tv_lineHeight = (case sibling vars name ''--line-height'' of
         None \<Rightarrow> tv_lineHeight tv
       | Some lhVar \<Rightarrow> evaluateCalc (cv_rawValue lhVar)),
     tv_letterSpacing = (case sibling vars name ''--letter-spacing'' of
         None \<Rightarrow> tv_letterSpacing tv
       | Some lsVar \<Rightarrow>
           (case parseDimension (cv_rawValue lsVar) of
              None \<Rightarrow> tv_letterSpacing tv
            | Some val \<Rightarrow> Some val)),
     tv_fontWeight = (case sibling vars name ''--font-weight'' of
         None \<Rightarrow> tv_fontWeight tv
       | Some fwVar \<Rightarrow>
           (let val = parseFloat (cv_rawValue fwVar) in
            if \<not> isNaN val then Some val else tv_fontWeight tv))\<rparr>"

text \<open>What the typography rule does for a size variable: nothing when the dimension
  is \<^verbatim>\<open>null\<close>; otherwise the three variables are assigned and one token is pushed
  with their values.\<close>

definition typography_token ::
  "CSSVariable list \<Rightarrow> string \<Rightarrow> string \<Rightarrow> TypographyVars \<Rightarrow> ParsedTypography list \<times> TypographyVars" where
  "typography_token vars name raw tv = (case parseDimension raw of
     None \<Rightarrow> ([], tv)
   | Some d \<Rightarrow>
       (let tv' = typography_vars vars name tv in
        ([\<lparr>pt_name = replace_first name ''text-'' '''',
           pt_fontSize = d,
           pt_lineHeight = tv_lineHeight tv',
           pt_letterSpacing = tv_letterSpacing tv',
           pt_fontWeight = tv_fontWeight tv',
           pt_rawValue = raw\<rparr>], tv')))"

text \<open>\<^verbatim>\<open>v.rawValue.split(',')[0].trim().replace(/['"]/g, '')\<close>\<close>

definition font_family :: "string \<Rightarrow> string" where
  "font_family raw = filter (\<lambda>c. c \<noteq> CHR 0x27 \<and> c \<noteq> CHR 0x22)
     (trim (case split_on CHR '','' raw of [] \<Rightarrow> [] | x # xs \<Rightarrow> x))"

text \<open>The body of the loop of \<^verbatim>\<open>categorizeTokens\<close> for one variable \<open>v\<close>: the rules in
  the order of the program, on the token set and the three typography variables.  The
  opacity rule alone does not end with \<^verbatim>\<open>continue\<close>, so the two rules after it are
  still tried.\<close>

definition categorize_var ::
  "CSSVariable list \<Rightarrow> CSSVariable \<Rightarrow> ParsedTokenSet \<Rightarrow> TypographyVars \<Rightarrow>
     error + ParsedTokenSet \<times> TypographyVars" where
  "categorize_var vars v result tv =
    (let name = strip_dashes (cv_name v); raw = cv_rawValue v in
     if startsWith name ''color-'' then
       (case parseColorValue raw of
          Inl e \<Rightarrow> Inl e
        | Inr None \<Rightarrow> Inr (result, tv)
        | Inr (Some color) \<Rightarrow> Inr (result\<lparr>colors := colors result @
            [\<lparr>pc_path = split_on CHR ''-'' (replace_first name ''color-'' ''''),
              pc_figmaColor = color, pc_rawValue = raw\<rparr>]\<rparr>, tv))
     else if name = ''spacing'' then
       Inr (result\<lparr>spacing := spacing result @ dim_token [''base''] raw\<rparr>, tv)
     else if startsWith name ''breakpoint-'' then
       Inr (result\<lparr>breakpoints := breakpoints result @
         dim_token [replace_first name ''breakpoint-'' ''''] raw\<rparr>, tv)
     else if startsWith name ''container-'' then
       Inr (result\<lparr>containers := containers result @
         dim_token [replace_first name ''container-'' ''''] raw\<rparr>, tv)
     else if startsWith name ''max-w-'' \<or> startsWith name ''max-width-'' then
       Inr (result\<lparr>maxWidth := maxWidth result @ dim_token [strip_max_w name] raw\<rparr>, tv)
     else if startsWith name ''font-weight-'' then
       Inr (result\<lparr>fontWeights := fontWeights result @
         num_token [replace_first name ''font-weight-'' ''''] raw\<rparr>, tv)
     else if startsWith name ''tracking-'' then
       Inr (result\<lparr>tracking := tracking result @
         dim_token [replace_first name ''tracking-'' ''''] raw\<rparr>, tv)
     else if startsWith name ''leading-'' then
       Inr (result\<lparr>leading := leading result @
         num_token [replace_first name ''leading-'' ''''] raw\<rparr>, tv)
     else if startsWith name ''radius'' then
       Inr (result\<lparr>radius := radius result @ dim_token (default_path name ''radius'') raw\<rparr>, tv)
     else if startsWith name ''shadow-'' \<and> \<not> startsWith name ''shadow-inner'' then
       (case shadow_token (''drop-shadow/'' @ replace_first name ''shadow-'' '''') raw of
          Inl e \<Rightarrow> Inl e
        | Inr ts \<Rightarrow> Inr (result\<lparr>shadows := shadows result @ ts\<rparr>, tv))
     else if startsWith name ''inset-shadow-'' then
       (case shadow_token (''inset-shadow/'' @ replace_first name ''inset-shadow-'' '''') raw of
          Inl e \<Rightarrow> Inl e
        | Inr ts \<Rightarrow> Inr (result\<lparr>shadows := shadows result @ ts\<rparr>, tv))
     else if startsWith name ''drop-shadow-'' then
       (case shadow_token (''drop-shadow/'' @ replace_first name ''drop-shadow-'' '''') raw of
          Inl e \<Rightarrow> Inl e
        | Inr ts \<Rightarrow> Inr (result\<lparr>shadows := shadows result @ ts\<rparr>, tv))
     else if startsWith name ''text-shadow-'' then
       (case shadow_token (''text-shadow/'' @ replace_first name ''text-shadow-'' '''') raw of
          Inl e \<Rightarrow> Inl e
        | Inr ts \<Rightarrow> Inr (result\<lparr>shadows := shadows result @ ts\<rparr>, tv))
     else if startsWith name ''blur'' then
       Inr (result\<lparr>blur := blur result @ dim_token (default_path name ''blur'') raw\<rparr>, tv)
     else if startsWith name ''backdrop-blur'' then
       Inr (result\<lparr>backdropBlur := backdropBlur result @
         dim_token (default_path name ''backdrop-blur'') raw\<rparr>, tv)
     else if startsWith name ''text-'' \<and> \<not> includes_str name ''shadow'' then
       (if endsWith name ''--line-height'' \<or> endsWith name ''--letter-spacing''
           \<or> endsWith name ''--font-weight''
        then Inr (result, tv)
        else (case typography_token vars name raw tv of
                (ts, tv') \<Rightarrow> Inr (result\<lparr>typography := typography result @ ts\<rparr>, tv')))
     else if startsWith name ''font-'' \<and> \<not> startsWith name ''font-weight-'' then
       Inr (result\<lparr>fonts := fonts result @
         [\<lparr>pfn_name = replace_first name ''font-'' '''', pfn_family = font_family raw,
           pfn_rawValue = raw\<rparr>]\<rparr>, tv)
     else
       (let result1 = (if startsWith name ''opacity-''
              then result\<lparr>opacity := opacity result @
                num_token (split_on CHR ''-'' (replace_first name ''opacity-'' '''')) raw\<rparr>
              else result)
        in if startsWith name ''border-width-'' then
             Inr (result1\<lparr>borderWidth := borderWidth result1 @
               dim_token (split_on CHR ''-'' (replace_first name ''border-width-'' '''')) raw\<rparr>, tv)
           else if startsWith name ''skew-'' then
             Inr (result1\<lparr>skew := skew result1 @
               num_token (split_on CHR ''-'' (replace_first name ''skew-'' '''')) raw\<rparr>, tv)
           else Inr (result1, tv)))"

fun categorize_loop ::
  "CSSVariable list \<Rightarrow> CSSVariable list \<Rightarrow> ParsedTokenSet \<Rightarrow> TypographyVars \<Rightarrow>
     error + ParsedTokenSet \<times> TypographyVars" where
  "categorize_loop vars [] result tv = Inr (result, tv)"
| "categorize_loop vars (v # vs) result tv = (case categorize_var vars v result tv of
     Inl e \<Rightarrow> Inl e
   | Inr (result', tv') \<Rightarrow> categorize_loop vars vs result' tv')"

definition categorizeTokens :: "CSSVariable list \<Rightarrow> error + ParsedTokenSet" where
  "categorizeTokens vars = (case categorize_loop vars vars empty_token_set undefined_vars of
     Inl e \<Rightarrow> Inl e
   | Inr (result, tv) \<Rightarrow> Inr (if length (spacing result) = 1
       then result\<lparr>spacing := generateSpacingScale (pf_value (spacing result ! 0))\<rparr>
       else result))"

section \<open>Notions used to state the properties\<close>

text \<open>The capture groups that occur in a pattern.\<close>

primrec groups :: "rx \<Rightarrow> nat set" where
  "groups Eps = {}"
| "groups (Chr p) = {}"
| "groups (Seq a b) = groups a \<union> groups b"
| "groups (Alt a b) = groups a \<union> groups b"
| "groups (Opt a) = groups a"
| "groups (Star p) = {}"
| "groups (LazyStar p) = {}"
| "groups (Grp n a) = insert n (groups a)"
| "groups Eol = {}"

text \<open>
  The top-level pieces of a shadow list, in the words of the specification: a depth
  counter goes up on an opening parenthesis and down on a closing one, and only a
  comma at depth \<open>0\<close> is a separator.
\<close>

fun top_level_pieces :: "int \<Rightarrow> string \<Rightarrow> string list" where
  "top_level_pieces depth [] = [[]]"
| "top_level_pieces depth (ch # rest) =
     (let depth' = (if ch = CHR ''('' then depth + 1 else if ch = CHR '')'' then depth - 1 else depth)
      in if ch = CHR '','' \<and> depth' = 0 then [] # top_level_pieces depth' rest
         else (case top_level_pieces depth' rest of
                 p # ps \<Rightarrow> (ch # p) # ps
               | [] \<Rightarrow> [[ch]]))"

text \<open>A last piece that is empty or blank is not a part.\<close>

definition drop_blank_last :: "string list \<Rightarrow> string list" where
  "drop_blank_last ps = (if trim (last ps) = [] then butlast ps else ps)"

text \<open>The value a list of declarations gives a name: that of the last declaration of
  the name.  The body of the first block a pattern finds.\<close>

definition last_value :: "CSSVariable list \<Rightarrow> string \<Rightarrow> string option" where
  "last_value vars n = (case filter (\<lambda>v. cv_name v = n) vars of
     [] \<Rightarrow> None
   | d # ds \<Rightarrow> Some (cv_rawValue (last (d # ds))))"

definition first_block :: "rx \<Rightarrow> string \<Rightarrow> string option" where
  "first_block r css = map_option (\<lambda>m. the (grp m 1)) (rx_match r css)"


text \<open>A channel in the interval from \<open>0\<close> to \<open>1\<close>.\<close>

definition in_unit :: "number \<Rightarrow> bool" where
  "in_unit n = (num_le (Fin 0) n \<and> num_le n (Fin 1))"

text \<open>
  The color syntaxes the specification documents, each for the whole value: a number is
  digits with an optional fraction; \<^verbatim>\<open>oklch(L C H [/ A])\<close> with \<open>L\<close> and \<open>A\<close> a number or a
  percentage; \<^verbatim>\<open>hsl(H, S%, L%[, A])\<close> and \<^verbatim>\<open>rgb(...)\<close>, also written \<^verbatim>\<open>hsla\<close> and \<^verbatim>\<open>rgba\<close>,
  with channels separated by a comma or by white space and an optional alpha after
  \<^verbatim>\<open>,\<close> or \<^verbatim>\<open>/\<close>; a \<^verbatim>\<open>#\<close> followed by 3, 4, 6 or 8 hexadecimal digits; and the three
  named colors.
\<close>

definition num_syntax :: rx where
  "num_syntax = Alt (Seq (Plus is_digit) (Opt (Seq (chr CHR ''.'') (Star is_digit))))
     (Seq (chr CHR ''.'') (Plus is_digit))"

definition pct_syntax :: rx where
  "pct_syntax = Seq num_syntax (Opt (chr CHR ''%''))"

definition sep_syntax :: rx where
  "sep_syntax = Alt (seq [Star is_ws, chr CHR '','', Star is_ws]) (Plus is_ws)"

definition oklch_syntax :: rx where
  "oklch_syntax = seq [lit ''oklch('', Star is_ws, pct_syntax, Plus is_ws, num_syntax,
     Plus is_ws, num_syntax,
     Opt (seq [Star is_ws, chr CHR ''/'', Star is_ws, pct_syntax]),
     Star is_ws, chr CHR '')'']"

definition hsl_syntax :: rx where
  "hsl_syntax = seq [lit ''hsl'', Opt (chr CHR ''a''), chr CHR ''('', Star is_ws, num_syntax,
     sep_syntax, pct_syntax, sep_syntax, pct_syntax,
     Opt (seq [Star is_ws, Chr (\<lambda>c. c = CHR '','' \<or> c = CHR ''/''), Star is_ws, pct_syntax]),
     Star is_ws, chr CHR '')'']"

definition rgb_syntax :: rx where
  "rgb_syntax = seq [lit ''rgb'', Opt (chr CHR ''a''), chr CHR ''('', Star is_ws, num_syntax,
     sep_syntax, num_syntax, sep_syntax, num_syntax,
     Opt (seq [Star is_ws, Chr (\<lambda>c. c = CHR '','' \<or> c = CHR ''/''), Star is_ws, pct_syntax]),
     Star is_ws, chr CHR '')'']"

definition whole :: "rx \<Rightarrow> string \<Rightarrow> bool" where
  "whole r s = (rx_m (Seq r Eol) s [] \<noteq> [])"

definition hex_syntax :: "string \<Rightarrow> bool" where
  "hex_syntax v = (case v of
     [] \<Rightarrow> False
   | c # h \<Rightarrow> c = CHR ''#'' \<and> length h \<in> {3, 4, 6, 8} \<and> list_all is_hex_digit h)"

definition documented_syntax :: "string \<Rightarrow> bool" where
  "documented_syntax v = (whole oklch_syntax v \<or> whole hsl_syntax v \<or> whole rgb_syntax v \<or>
     hex_syntax v \<or> v = ''black'' \<or> v = ''white'' \<or> v = ''transparent'')"

text \<open>A value that names a property every object inherits, once trimmed and in lower
  case; a \<^verbatim>\<open>color-\<close> variable whose value is a color.\<close>

definition inherited_name :: "string \<Rightarrow> bool" where
  "inherited_name raw = (toLowerCase (trim raw) = ''constructor'' \<or>
     toLowerCase (trim raw) = ''__proto__'')"

definition has_color :: "CSSVariable \<Rightarrow> bool" where
  "has_color v = (startsWith (strip_dashes (cv_name v)) ''color-'' \<and>
     (case parseColorValue (cv_rawValue v) of Inr (Some c) \<Rightarrow> True | _ \<Rightarrow> False))"

text \<open>A variable that gives a spacing base, the token it makes, and the path names of
  the 33 steps of the spacing table.\<close>

definition is_spacing_base :: "CSSVariable \<Rightarrow> bool" where
  "is_spacing_base v = (strip_dashes (cv_name v) = ''spacing'' \<and> parseDimension (cv_rawValue v) \<noteq> None)"

definition step_names :: "string list" where
  "step_names = [''0_5'', ''1'', ''1_5'', ''2'', ''2_5'', ''3'', ''3_5'', ''4'', ''5'', ''6'', ''7'',
     ''8'', ''9'', ''10'', ''11'', ''12'', ''14'', ''16'', ''20'', ''24'', ''28'', ''32'', ''36'', ''40'',
     ''44'', ''48'', ''52'', ''56'', ''60'', ''64'', ''72'', ''80'', ''96'']"

definition base_token :: "CSSVariable \<Rightarrow> ParsedFloat" where
  "base_token v = \<lparr>pf_path = [''base''], pf_value = the (parseDimension (cv_rawValue v)),
     pf_rawValue = cv_rawValue v\<rparr>"

text \<open>
  What one step of the categorizer can do to the token set: nothing, or a push onto
  one family (onto two for a name that the opacity rule and a later rule both take).
\<close>

inductive step_shape :: "CSSVariable list \<Rightarrow> CSSVariable \<Rightarrow> ParsedTokenSet \<Rightarrow> ParsedTokenSet \<Rightarrow> bool"
  for vars :: "CSSVariable list" and v :: CSSVariable and result :: ParsedTokenSet where
  unchanged: "step_shape vars v result result"
| color: "p \<noteq> [] \<Longrightarrow> step_shape vars v result (result\<lparr>colors := colors result @
     [\<lparr>pc_path = p, pc_figmaColor = c, pc_rawValue = cv_rawValue v\<rparr>]\<rparr>)"
| spacing: "step_shape vars v result
     (result\<lparr>spacing := spacing result @ dim_token [''base''] (cv_rawValue v)\<rparr>)"
| breakpoint: "p \<noteq> [] \<Longrightarrow> step_shape vars v result
     (result\<lparr>breakpoints := breakpoints result @ dim_token p (cv_rawValue v)\<rparr>)"
| container: "p \<noteq> [] \<Longrightarrow> step_shape vars v result
     (result\<lparr>containers := containers result @ dim_token p (cv_rawValue v)\<rparr>)"
| maxWidth: "p \<noteq> [] \<Longrightarrow> step_shape vars v result
     (result\<lparr>maxWidth := maxWidth result @ dim_token p (cv_rawValue v)\<rparr>)"
| fontWeight: "p \<noteq> [] \<Longrightarrow> step_shape vars v result
     (result\<lparr>fontWeights := fontWeights result @ num_token p (cv_rawValue v)\<rparr>)"
| tracking: "p \<noteq> [] \<Longrightarrow> step_shape vars v result
     (result\<lparr>tracking := tracking result @ dim_token p (cv_rawValue v)\<rparr>)"
| leading: "p \<noteq> [] \<Longrightarrow> step_shape vars v result
     (result\<lparr>leading := leading result @ num_token p (cv_rawValue v)\<rparr>)"
| radius: "p \<noteq> [] \<Longrightarrow> step_shape vars v result
     (result\<lparr>radius := radius result @ dim_token p (cv_rawValue v)\<rparr>)"
| shadow: "n \<noteq> [] \<Longrightarrow> shadow_token n (cv_rawValue v) = Inr ts \<Longrightarrow> step_shape vars v result
     (result\<lparr>shadows := shadows result @ ts\<rparr>)"
| blur: "p \<noteq> [] \<Longrightarrow> step_shape vars v result
     (result\<lparr>blur := blur result @ dim_token p (cv_rawValue v)\<rparr>)"
| backdropBlur: "p \<noteq> [] \<Longrightarrow> step_shape vars v result
     (result\<lparr>backdropBlur := backdropBlur result @ dim_token p (cv_rawValue v)\<rparr>)"
| typography: "step_shape vars v result (result\<lparr>typography := typography result @ ts\<rparr>)"
| font: "step_shape vars v result (result\<lparr>fonts := fonts result @ [f]\<rparr>)"
| opacity: "p \<noteq> [] \<Longrightarrow> step_shape vars v result
     (result\<lparr>opacity := opacity result @ num_token p (cv_rawValue v)\<rparr>)"
| borderWidth: "p \<noteq> [] \<Longrightarrow> step_shape vars v result
     (result\<lparr>borderWidth := borderWidth result @ dim_token p (cv_rawValue v)\<rparr>)"
| skew: "p \<noteq> [] \<Longrightarrow> step_shape vars v result
     (result\<lparr>skew := skew result @ num_token p (cv_rawValue v)\<rparr>)"
| opacity_borderWidth: "p \<noteq> [] \<Longrightarrow> q \<noteq> [] \<Longrightarrow> step_shape vars v result
     (result\<lparr>opacity := opacity result @ num_token p (cv_rawValue v),
        borderWidth := borderWidth result @ dim_token q (cv_rawValue v)\<rparr>)"
| opacity_skew: "p \<noteq> [] \<Longrightarrow> q \<noteq> [] \<Longrightarrow> step_shape vars v result
     (result\<lparr>opacity := opacity result @ num_token p (cv_rawValue v),
        skew := skew result @ num_token q (cv_rawValue v)\<rparr>)"

text \<open>The float tokens of all families, and the well-formedness of names that the
  categorizer keeps: paths are not empty, shadow names are not empty, and the
  components of spacing paths are not empty.\<close>

definition float_tokens :: "ParsedTokenSet \<Rightarrow> ParsedFloat list" where
  "float_tokens ts = spacing ts @ radius ts @ blur ts @ opacity ts @ breakpoints ts @
     containers ts @ fontWeights ts @ tracking ts @ leading ts @ borderWidth ts @
     backdropBlur ts @ maxWidth ts @ skew ts"

definition paths_ok :: "ParsedTokenSet \<Rightarrow> bool" where
  "paths_ok ts = (list_all (\<lambda>t. pc_path t \<noteq> []) (colors ts) \<and>
     list_all (\<lambda>t. pf_path t \<noteq> []) (float_tokens ts) \<and>
     list_all (\<lambda>t. ps_name t \<noteq> []) (shadows ts) \<and>
     list_all (\<lambda>t. [] \<notin> set (pf_path t)) (spacing ts))"

text \<open>The token set a run returns, if it returns, and the names in three families.\<close>

definition returned :: "error + 'a \<Rightarrow> 'a option" where
  "returned r = (case r of Inl e \<Rightarrow> None | Inr x \<Rightarrow> Some x)"

definition color_paths :: "ParsedTokenSet \<Rightarrow> string list list" where
  "color_paths ts = map pc_path (colors ts)"

definition typography_names :: "ParsedTokenSet \<Rightarrow> string list" where
  "typography_names ts = map pt_name (typography ts)"

definition font_names :: "ParsedTokenSet \<Rightarrow> string list" where
  "font_names ts = map pfn_name (fonts ts)"

text \<open>A name that ends as one of the three typography modifiers does.\<close>

definition is_modifier :: "string \<Rightarrow> bool" where
  "is_modifier n = (endsWith n ''--line-height'' \<or> endsWith n ''--letter-spacing'' \<or>
     endsWith n ''--font-weight'')"

text \<open>
  The steps of \<^verbatim>\<open>oklchToRgba\<close> on finite numbers, one function for each line of the
  source, and the power-law branch of \<^verbatim>\<open>linearToSrgb\<close>.
\<close>

definition oklab_a :: "real \<Rightarrow> real \<Rightarrow> real" where
  "oklab_a C H = C * cos (H * pi / 180)"

definition oklab_b :: "real \<Rightarrow> real \<Rightarrow> real" where
  "oklab_b C H = C * sin (H * pi / 180)"

definition lms_l :: "real \<Rightarrow> real \<Rightarrow> real \<Rightarrow> real" where
  "lms_l L a b = L + 0.3963377774 * a + 0.2158037573 * b"

definition lms_m :: "real \<Rightarrow> real \<Rightarrow> real \<Rightarrow> real" where
  "lms_m L a b = L - 0.1055613458 * a - 0.0638541728 * b"

definition lms_s :: "real \<Rightarrow> real \<Rightarrow> real \<Rightarrow> real" where
  "lms_s L a b = L - 0.0894841775 * a - 1.291485548 * b"

definition lin_r :: "real \<Rightarrow> real \<Rightarrow> real \<Rightarrow> real" where
  "lin_r l m s = 4.0767416621 * l - 3.3077115913 * m + 0.2309699292 * s"

definition lin_g :: "real \<Rightarrow> real \<Rightarrow> real \<Rightarrow> real" where
  "lin_g l m s = - 1.2684380046 * l + 2.6097574011 * m - 0.3413193965 * s"

definition lin_b :: "real \<Rightarrow> real \<Rightarrow> real \<Rightarrow> real" where
  "lin_b l m s = - 0.0041960863 * l - 0.7034186147 * m + 1.707614701 * s"

definition gamma :: "real \<Rightarrow> real" where
  "gamma c = 1.055 * c powr (1 / 2.4) - 0.055"

text \<open>
  A channel is within \<open>eps\<close> of a value; a result is a color whose red, green and
  blue channels are within \<open>eps\<close> of three values.
\<close>

definition near :: "number \<Rightarrow> real \<Rightarrow> real \<Rightarrow> bool" where
  "near n x eps = (case n of Fin y \<Rightarrow> \<bar>y - x\<bar> \<le> eps | _ \<Rightarrow> False)"

definition approx_rgb :: "error + FigmaColor option \<Rightarrow> real \<Rightarrow> real \<Rightarrow> real \<Rightarrow> real \<Rightarrow> bool" where
  "approx_rgb res r g b eps = (case res of
     Inr (Some c) \<Rightarrow> near (col_r c) r eps \<and> near (col_g c) g eps \<and> near (col_b c) b eps
   | _ \<Rightarrow> False)"

text \<open>A size variable of the typography family: the name starts with \<^verbatim>\<open>text-\<close>, holds
  no \<^verbatim>\<open>shadow\<close>, does not end as a modifier, and the value is a dimension.  The name of
  its token.  A value that holds no digit, no point and not the text \<^verbatim>\<open>Infinity\<close>.\<close>

definition is_text_size :: "CSSVariable \<Rightarrow> bool" where
  "is_text_size v = (let n = strip_dashes (cv_name v) in
     startsWith n ''text-'' \<and> \<not> includes_str n ''shadow'' \<and> \<not> is_modifier n \<and>
     parseDimension (cv_rawValue v) \<noteq> None)"

definition size_name :: "CSSVariable \<Rightarrow> string" where
  "size_name v = replace_first (strip_dashes (cv_name v)) ''text-'' ''''"

definition non_numeric :: "string \<Rightarrow> bool" where
  "non_numeric raw = (\<not> list_ex dd raw \<and> \<not> includes_str raw ''Infinity'')"

text \<open>The first way to match that the matcher finds.\<close>

definition rx_first :: "rx \<Rightarrow> string \<Rightarrow> caps \<Rightarrow> (string \<times> caps) option" where
  "rx_first r s c = (case rx_m r s c of [] \<Rightarrow> None | m # _ \<Rightarrow> Some m)"

section \<open>Evaluation on concrete inputs\<close>

text \<open>The conversion from oklch uses \<open>pi\<close>, \<open>cos\<close>, \<open>sin\<close> and a real power, which have
  no executable equations: it stays folded when terms are evaluated, and is
  reasoned about directly.\<close>

declare oklchToRgba_def [code del]

section \<open>Trimming and lower-casing\<close>

lemma is_upper_lower_char: "\<not> is_upper (lower_char c)"
  by (cases c) (auto simp: is_upper_def lower_char_def Let_def)

lemma is_ws_lower_char: "is_ws (lower_char c) = is_ws c"
  by (cases c) (auto simp: is_upper_def is_ws_def lower_char_def Let_def)

lemma lower_char_idem: "lower_char (lower_char c) = lower_char c"
  using is_upper_lower_char[of c] by (simp add: lower_char_def)

lemma toLowerCase_idem: "toLowerCase (toLowerCase s) = toLowerCase s"
  by (simp add: toLowerCase_def lower_char_idem)

lemma dropWhile_ws_lower:
  "dropWhile is_ws (map lower_char s) = map lower_char (dropWhile is_ws s)"
  by (induction s) (auto simp: is_ws_lower_char)

lemma trim_toLowerCase: "trim (toLowerCase s) = toLowerCase (trim s)"
  by (simp add: trim_def toLowerCase_def dropWhile_ws_lower rev_map)

lemma dropWhile_rev_trimmed:
  "dropWhile P (rev (dropWhile P (rev (dropWhile P s)))) =
   rev (dropWhile P (rev (dropWhile P s)))"
proof (cases "dropWhile P (rev (dropWhile P s)) = []")
  case True
  show ?thesis unfolding True by simp
next
  case False
  let ?t = "dropWhile P s"
  define u where "u = dropWhile P (rev ?t)"
  from False have une: "u \<noteq> []" by (simp add: u_def)
  have split: "rev ?t = takeWhile P (rev ?t) @ u"
    by (simp add: u_def)
  have tne: "?t \<noteq> []"
  proof
    assume e: "?t = []"
    have "u = []" unfolding u_def e by simp
    with une show "False" by simp
  qed
  from split une have "last (rev ?t) = last u"
    by (metis last_appendR)
  with tne have "hd ?t = last u" by (simp add: last_rev)
  moreover from tne have "\<not> P (hd ?t)" by (simp add: hd_dropWhile)
  ultimately have "\<not> P (hd (rev u))" using une by (simp add: hd_rev)
  then show ?thesis unfolding u_def by (simp add: dropWhile_eq_self_iff)
qed

lemma trim_idem: "trim (trim s) = trim s"
  by (simp add: trim_def dropWhile_rev_trimmed)


lemma includes_strI: "includes_str (a @ p @ b) p"
proof (induction a)
  case Nil
  have sw: "startsWith (p @ b) p" by (simp add: startsWith_def)
  show ?case
  proof (cases "p @ b")
    case Nil
    then show ?thesis by (simp add: includes_str_def)
  next
    case (Cons y ys)
    with sw show ?thesis by (simp add: includes_str_def)
  qed
next
  case (Cons x a)
  then show ?case by (auto simp: includes_str_def)
qed


lemma trim_first_nonws:
  assumes "\<not> is_ws x"
  shows "\<exists>w. trim (x # s) = x # w"
proof -
  have "dropWhile is_ws (rev s @ [x]) \<noteq> []" using assms by (simp add: dropWhile_append)
  moreover have "last (dropWhile is_ws (rev s @ [x])) = x"
    using assms by (simp add: dropWhile_append)
  ultimately obtain u where "dropWhile is_ws (rev s @ [x]) = u @ [x]"
    by (metis append_butlast_last_id)
  then show ?thesis using assms by (simp add: trim_def)
qed


section \<open>Facts about the matcher\<close>

lemma in_rx_m_chr: "(s', c') \<in> set (rx_m (chr x) s c) \<longleftrightarrow> s = x # s' \<and> c' = c"
  by (cases s) (auto simp: chr_def)

lemma in_rx_m_Seq: "(s', c') \<in> set (rx_m (Seq a b) s c) \<longleftrightarrow>
   (\<exists>s1 c1. (s1, c1) \<in> set (rx_m a s c) \<and> (s', c') \<in> set (rx_m b s1 c1))"
  by auto

lemma in_rx_m_lit: "(s', c') \<in> set (rx_m (lit w) s c) \<longleftrightarrow> s = w @ s' \<and> c' = c"
proof (induction w arbitrary: s)
  case Nil
  then show ?case by (auto simp: lit_def)
next
  case (Cons x w)
  have "lit (x # w) = Seq (chr x) (lit w)" by (simp add: lit_def)
  then show ?case using Cons by (auto simp: in_rx_m_chr in_rx_m_Seq simp del: rx_m.simps)
qed

lemma seq_Cons: "seq (r # rs) = Seq r (seq rs)"
  by (simp add: seq_def)

lemma rx_m_caps: "(s', c') \<in> set (rx_m r s c) \<Longrightarrow> \<exists>d. c' = d @ c \<and> fst ` set d \<subseteq> groups r"
proof (induction r arbitrary: s c s' c')
  case (Seq a b)
  from Seq.prems obtain s1 c1 where 1: "(s1, c1) \<in> set (rx_m a s c)"
    and 2: "(s', c') \<in> set (rx_m b s1 c1)"
    by auto
  from Seq.IH(1)[OF 1] obtain d1 where d1: "c1 = d1 @ c" "fst ` set d1 \<subseteq> groups a" by blast
  from Seq.IH(2)[OF 2] obtain d2 where d2: "c' = d2 @ c1" "fst ` set d2 \<subseteq> groups b" by blast
  show ?case
    by (rule exI[of _ "d2 @ d1"]) (use d1 d2 in auto)
next
  case (Alt a b)
  then show ?case by fastforce
next
  case (Opt a)
  then show ?case by fastforce
next
  case (Grp n a)
  from Grp.prems obtain c0 where 1: "(s', c0) \<in> set (rx_m a s c)"
    and c': "c' = (n, take (length s - length s') s) # c0"
    by auto
  from Grp.IH[OF 1] obtain d where d: "c0 = d @ c" "fst ` set d \<subseteq> groups a" by blast
  show ?case
    by (rule exI[of _ "(n, take (length s - length s') s) # d"]) (use d c' in auto)
qed (auto split: list.splits if_splits)

lemma rx_m_grp_other:
  assumes "(s', c') \<in> set (rx_m r s c)" and "n \<notin> groups r"
  shows "grp c' n = grp c n"
proof -
  from rx_m_caps[OF assms(1)] obtain d where d: "c' = d @ c" "fst ` set d \<subseteq> groups r" by blast
  with assms(2) have "n \<notin> fst ` set d" by blast
  then have "map_of d n = None" by (simp add: map_of_eq_None_iff)
  then show ?thesis by (simp add: grp_def d map_add_def)
qed

lemma rx_m_Grp_capture:
  assumes "(s', c') \<in> set (rx_m (Grp n a) s c)"
  shows "\<exists>x c0. c' = (n, x) # c0 \<and> s = x @ s' \<and> (s', c0) \<in> set (rx_m a s c)"
proof -
  from assms obtain c0 where 1: "(s', c0) \<in> set (rx_m a s c)"
    and c': "c' = (n, take (length s - length s') s) # c0"
    by auto
  from rx_m_take_append[OF 1] c' 1 show ?thesis by metis
qed

lemma var_rx_name:
  assumes "(rest, c) \<in> set (rx_m var_rx t [])"
  shows "\<exists>w. grp c 1 = Some (CHR ''-'' # w)"
proof -
  define A where "A = seq [chr CHR ''-'', chr CHR ''-'', Plus (\<lambda>c. is_word c \<or> c = CHR ''-'')]"
  define R where "R = seq [Star is_ws, chr CHR '':'', Star is_ws, Grp 2 (Plus (\<lambda>c. c \<noteq> CHR '';''))]"
  have v: "var_rx = Seq (Grp 1 A) R" by (simp add: var_rx_def A_def R_def seq_Cons)
  from assms obtain s1 c1 where 1: "(s1, c1) \<in> set (rx_m (Grp 1 A) t [])"
    and 2: "(rest, c) \<in> set (rx_m R s1 c1)"
    unfolding v in_rx_m_Seq by blast
  from rx_m_Grp_capture[OF 1] obtain x c0 where c1: "c1 = (1, x) # c0" and t: "t = x @ s1"
    and 3: "(s1, c0) \<in> set (rx_m A t [])" by blast
  have "1 \<notin> groups R" by (simp add: R_def seq_def chr_def Plus_def)
  from rx_m_grp_other[OF 2 this] have g: "grp c 1 = Some x" by (simp add: c1 grp_def)
  from 3 obtain t' where t': "t = CHR ''-'' # t'"
    unfolding A_def seq_Cons in_rx_m_Seq in_rx_m_chr by blast
  from rx_m_min_len[OF 3] have "length s1 < length t" by (simp add: A_def seq_def chr_def Plus_def)
  with t have "x \<noteq> []" by auto
  with t t' obtain w where "x = CHR ''-'' # w" by (cases x) auto
  with g show ?thesis by simp
qed

lemma exec_all_names: "c \<in> set (exec_all s) \<Longrightarrow> \<exists>w. grp c 1 = Some (CHR ''-'' # w)"
proof (induction s rule: exec_all.induct)
  case (1 css)
  show ?case
  proof (cases "rx_search var_rx css")
    case None
    with 1 show ?thesis by (simp add: exec_all.simps[of css])
  next
    case (Some a)
    obtain pre m rest c0 where a: "a = (pre, m, rest, c0)" by (cases a) auto
    from 1(2) Some a have "c = c0 \<or> c \<in> set (exec_all rest)"
      by (simp add: exec_all.simps[of css])
    then show ?thesis
    proof
      assume "c = c0"
      with rx_search_Some[of var_rx css pre m rest c0] Some a var_rx_name show ?thesis by blast
    next
      assume "c \<in> set (exec_all rest)"
      with 1(1)[OF Some[unfolded a] refl refl refl] show ?thesis by simp
    qed
  qed
qed

lemma extractCSSVariables_names:
  assumes "v \<in> set (extractCSSVariables s)"
  shows "cv_name v \<noteq> ''__proto__''"
proof -
  from assms obtain c where "c \<in> set (exec_all s)" and v: "v = css_variable c"
    by (auto simp: extractCSSVariables_def)
  from exec_all_names[OF this(1)] obtain w where "grp c 1 = Some (CHR ''-'' # w)" by blast
  moreover have "\<not> is_ws CHR ''-''" by (simp add: is_ws_def)
  ultimately obtain u where "cv_name v = CHR ''-'' # u"
    using trim_first_nonws[of "CHR ''-''" w] by (auto simp: v css_variable_def)
  then show ?thesis by simp
qed

text \<open>The first match of each construct.\<close>

lemma rx_exec_first: "rx_exec r s = rx_first r s []"
  by (simp add: rx_exec_def rx_first_def)

lemma rx_first_Eps: "rx_first Eps s c = Some (s, c)"
  by (simp add: rx_first_def)

lemma rx_first_Seq:
  "rx_first a s c = Some (s1, c1) \<Longrightarrow> rx_first b s1 c1 = Some m \<Longrightarrow> rx_first (Seq a b) s c = Some m"
  by (auto simp: rx_first_def split: list.splits)

lemma rx_first_chr: "rx_first (chr x) (x # s) c = Some (s, c)"
  by (simp add: rx_first_def chr_def)

lemma rx_first_lit: "rx_first (lit w) (w @ s) c = Some (s, c)"
proof (induction w)
  case Nil
  then show ?case by (simp add: lit_def rx_first_def)
next
  case (Cons x w)
  have l: "lit (x # w) = Seq (chr x) (lit w)" by (simp add: lit_def)
  show ?case unfolding l using rx_first_Seq[OF rx_first_chr Cons] by simp
qed

lemma rx_first_Star: "rx_first (Star p) s c = Some (dropWhile p s, c)"
  by (simp add: rx_first_def dropWhile_eq_drop)

lemma rx_first_Plus: "p x \<Longrightarrow> rx_first (Plus p) (x # s) c = Some (dropWhile p s, c)"
  by (simp add: rx_first_def Plus_def dropWhile_eq_drop)

lemma rx_first_Grp:
  "rx_first a s c = Some (s', c') \<Longrightarrow>
   rx_first (Grp n a) s c = Some (s', (n, take (length s - length s') s) # c')"
  by (auto simp: rx_first_def split: list.splits)

lemma rx_first_Opt: "rx_first a s c = Some m \<Longrightarrow> rx_first (Opt a) s c = Some m"
  by (auto simp: rx_first_def split: list.splits)

lemma rx_first_Opt_none: "rx_m a s c = [] \<Longrightarrow> rx_first (Opt a) s c = Some (s, c)"
  by (auto simp: rx_first_def split: list.splits)

lemma rx_first_Alt1: "rx_first a s c = Some m \<Longrightarrow> rx_first (Alt a b) s c = Some m"
  by (auto simp: rx_first_def split: list.splits)

lemma rx_first_Alt2: "rx_m a s c = [] \<Longrightarrow> rx_first (Alt a b) s c = rx_first b s c"
  by (auto simp: rx_first_def split: list.splits)

lemma rx_match_prefix:
  "rx_exec r s = Some (s', c) \<Longrightarrow> rx_match r s = Some c"
  by (cases s) (simp_all add: rx_match_def rx_search_def)

lemma dropWhile_all_append:
  "list_all p a \<Longrightarrow> dropWhile p (a @ b) = dropWhile p b"
  by (induction a) auto

lemma dd_not_ws: "dd x \<Longrightarrow> \<not> is_ws x"
  by (auto simp: dd_def is_digit_def is_ws_def Let_def)

lemma rx_match_Some:
  assumes "rx_match r v = Some c"
  shows "\<exists>pre m rest. v = pre @ m @ rest \<and> (rest, c) \<in> set (rx_m r (m @ rest) [])"
proof -
  from assms obtain pre m rest where "rx_search r v = Some (pre, m, rest, c)"
    by (auto simp: rx_match_def)
  from rx_search_Some[OF this] show ?thesis by blast
qed

lemma rx_m_set: "(s', c') \<in> set (rx_m r s c) \<Longrightarrow> set s' \<subseteq> set s"
  using rx_m_suffix[of s' c' r s c] by (auto dest: in_set_dropD)

lemma rx_m_Plus_first: "(s', c') \<in> set (rx_m (Plus p) s c) \<Longrightarrow> \<exists>x xs. s = x # xs \<and> p x"
  by (cases s) (auto simp: Plus_def split: if_splits)

section \<open>Exceptions of the color parser\<close>

lemma lower_keys:
  assumes "toLowerCase s \<in> set Object_prototype_keys"
  shows "toLowerCase s = ''constructor'' \<or> toLowerCase s = ''__proto__''"
proof -
  have "\<forall>c \<in> set (toLowerCase s). \<not> is_upper c"
    by (auto simp: toLowerCase_def is_upper_lower_char)
  with assms show ?thesis
    by (auto simp: Object_prototype_keys_def is_upper_def)
qed

lemma parseColorValue_Inl:
  assumes "parseColorValue s = Inl e"
  shows "toLowerCase (trim s) = ''constructor'' \<or> toLowerCase (trim s) = ''__proto__''"
proof -
  from assms have "named (toLowerCase (trim s)) = Inherited"
    by (auto simp: parseColorValue_def Let_def split: option.splits if_splits property.splits)
  then have "toLowerCase (trim s) \<in> set Object_prototype_keys"
    by (auto simp: named_def split: if_splits)
  then show ?thesis by (rule lower_keys)
qed

lemma parseColorValue_first_char:
  assumes s: "s = x # w" and x: "x = CHR ''r'' \<or> x = CHR ''o'' \<or> x = CHR ''h''"
  shows "parseColorValue s \<noteq> Inl e"
proof
  assume "parseColorValue s = Inl e"
  from parseColorValue_Inl[OF this]
  have v: "toLowerCase (trim s) = ''constructor'' \<or> toLowerCase (trim s) = ''__proto__''" .
  from x have "\<not> is_ws x" and l: "lower_char x = x"
    by (auto simp: is_ws_def lower_char_def is_upper_def)
  from trim_first_nonws[OF this(1)] obtain w' where "trim s = x # w'" unfolding s by blast
  then have "toLowerCase (trim s) = x # toLowerCase w'" by (simp add: toLowerCase_def l)
  with v x show False by auto
qed

text \<open>A pattern of a color function matches only a value that holds its opening.\<close>

lemma oklch_includes:
  assumes "rx_match oklch_rx v = Some c"
  shows "includes_str v ''oklch(''"
proof -
  from rx_match_Some[OF assms] obtain pre m rest where v: "v = pre @ m @ rest"
    and mem: "(rest, c) \<in> set (rx_m oklch_rx (m @ rest) [])" by blast
  from mem obtain s1 c1 where "(s1, c1) \<in> set (rx_m (lit ''oklch('') (m @ rest) [])"
    unfolding oklch_rx_def seq_Cons in_rx_m_Seq by blast
  then have "m @ rest = ''oklch('' @ s1" by (simp add: in_rx_m_lit)
  with v have "v = pre @ ''oklch('' @ s1" by simp
  then show ?thesis using includes_strI by metis
qed

lemma fn_paren:
  assumes "(s', c') \<in> set (rx_m (seq (lit w # Opt (chr CHR ''a'') # chr CHR ''('' # rs)) s c)"
  shows "(\<exists>u. s = (w @ ''('') @ u) \<or> (\<exists>u. s = (w @ ''a('') @ u)"
proof -
  from assms obtain s1 c1 s2 c2 s3 c3 where 1: "(s1, c1) \<in> set (rx_m (lit w) s c)"
    and 2: "(s2, c2) \<in> set (rx_m (Opt (chr CHR ''a'')) s1 c1)"
    and 3: "(s3, c3) \<in> set (rx_m (chr CHR ''('') s2 c2)"
    unfolding seq_Cons in_rx_m_Seq by blast
  from 1 have s: "s = w @ s1" by (simp add: in_rx_m_lit)
  from 3 have s2: "s2 = CHR ''('' # s3" by (simp add: in_rx_m_chr)
  from 2 have "s1 = CHR ''a'' # s2 \<or> s1 = s2" by (auto simp: in_rx_m_chr simp del: rx_m.simps(2))
  with s s2 show ?thesis by auto
qed

lemma fn_includes:
  assumes "rx_match (seq (lit w # Opt (chr CHR ''a'') # chr CHR ''('' # rs)) v = Some c"
  shows "includes_str v (w @ ''('') \<or> includes_str v (w @ ''a('')"
proof -
  from rx_match_Some[OF assms] obtain pre m rest where v: "v = pre @ m @ rest"
    and mem: "(rest, c) \<in> set (rx_m (seq (lit w # Opt (chr CHR ''a'') # chr CHR ''('' # rs)) (m @ rest) [])"
    by blast
  from fn_paren[OF mem] show ?thesis
  proof
    assume "\<exists>u. m @ rest = (w @ ''('') @ u"
    then obtain u where "m @ rest = (w @ ''('') @ u" by blast
    with v have "v = pre @ (w @ ''('') @ u" by simp
    then show ?thesis using includes_strI by metis
  next
    assume "\<exists>u. m @ rest = (w @ ''a('') @ u"
    then obtain u where "m @ rest = (w @ ''a('') @ u" by blast
    with v have "v = pre @ (w @ ''a('') @ u" by simp
    then show ?thesis using includes_strI by metis
  qed
qed

lemma hsl_includes:
  "rx_match hsl_rx v = Some c \<Longrightarrow> includes_str v ''hsl('' \<or> includes_str v ''hsla(''"
  unfolding hsl_rx_def using fn_includes[of "''hsl''" _ v c] by simp

lemma rgb_includes:
  "rx_match rgb_rx v = Some c \<Longrightarrow> includes_str v ''rgb('' \<or> includes_str v ''rgba(''"
  unfolding rgb_rx_def using fn_includes[of "''rgb''" _ v c] by simp

lemma no_oklch: "\<not> includes_str v ''oklch('' \<Longrightarrow> rx_match oklch_rx v = None"
  using oklch_includes by (cases "rx_match oklch_rx v") auto

lemma no_hsl:
  "\<not> includes_str v ''hsl('' \<Longrightarrow> \<not> includes_str v ''hsla('' \<Longrightarrow> rx_match hsl_rx v = None"
  using hsl_includes by (cases "rx_match hsl_rx v") auto

lemma no_rgb:
  "\<not> includes_str v ''rgb('' \<Longrightarrow> \<not> includes_str v ''rgba('' \<Longrightarrow> rx_match rgb_rx v = None"
  using rgb_includes by (cases "rx_match rgb_rx v") auto

lemma named_Undefined:
  assumes "toLowerCase s \<noteq> ''black''" "toLowerCase s \<noteq> ''white''" "toLowerCase s \<noteq> ''transparent''"
    "toLowerCase s \<noteq> ''constructor''" "toLowerCase s \<noteq> ''__proto__''"
  shows "named (toLowerCase s) = Undefined"
  using assms lower_keys[of s] by (auto simp: named_def)

section \<open>Shadow layers\<close>


lemma shadow_color_rx_match:
  assumes "(rest, c) \<in> set (rx_m shadow_color_rx t [])"
  shows "\<exists>x u. grp c 1 = Some x \<and> x \<noteq> [] \<and> t = x @ rest \<and>
     (t = ''rgb'' @ u \<or> t = ''oklch'' @ u \<or> t = ''hsl'' @ u)"
proof -
  define A where "A = seq [Alt (lit ''rgb'') (Alt (lit ''oklch'') (lit ''hsl'')),
     Opt (chr CHR ''a''), chr CHR ''('', Plus (\<lambda>c. c \<noteq> CHR '')''), chr CHR '')'']"
  have r: "shadow_color_rx = Grp 1 A" by (simp add: shadow_color_rx_def A_def)
  from rx_m_Grp_capture[OF assms[unfolded r]] obtain x c0 where c: "c = (1, x) # c0"
    and t: "t = x @ rest" and 3: "(rest, c0) \<in> set (rx_m A t [])" by blast
  from rx_m_min_len[OF 3] have "length rest < length t"
    by (simp add: A_def seq_def chr_def Plus_def lit_def)
  with t have xne: "x \<noteq> []" by auto
  from 3 obtain s1 c1 where "(s1, c1) \<in> set (rx_m (Alt (lit ''rgb'') (Alt (lit ''oklch'') (lit ''hsl''))) t [])"
    unfolding A_def seq_Cons in_rx_m_Seq by blast
  then have "t = ''rgb'' @ s1 \<or> t = ''oklch'' @ s1 \<or> t = ''hsl'' @ s1"
    by (auto simp: in_rx_m_lit simp del: rx_m.simps(2,3) )
  with c t xne show ?thesis by (auto simp: grp_def)
qed

lemma shadow_colorStr_cases:
  "shadow_colorStr part = ''rgb(0 0 0 / 0.1)'' \<and> rx_match shadow_color_rx (shadow_text part) = None \<or>
   (\<exists>x a b u. shadow_colorStr part = x \<and> x \<noteq> [] \<and> shadow_text part = a @ x @ b \<and>
      (x @ b = ''rgb'' @ u \<or> x @ b = ''oklch'' @ u \<or> x @ b = ''hsl'' @ u))"
proof (cases "rx_search shadow_color_rx (shadow_text part)")
  case None
  then show ?thesis by (simp add: shadow_colorStr_def rx_match_def)
next
  case (Some r)
  obtain pre m rest c where r: "r = (pre, m, rest, c)" by (cases r) auto
  from rx_search_Some[OF Some[unfolded r]] have s: "shadow_text part = pre @ m @ rest"
    and mem: "(rest, c) \<in> set (rx_m shadow_color_rx (m @ rest) [])" by auto
  from shadow_color_rx_match[OF mem] obtain x u where x: "grp c 1 = Some x" "x \<noteq> []" "m @ rest = x @ rest"
     "(m @ rest = ''rgb'' @ u \<or> m @ rest = ''oklch'' @ u \<or> m @ rest = ''hsl'' @ u)" by blast
  then have "m = x" by simp
  with x s Some r show ?thesis by (auto simp: shadow_colorStr_def rx_match_def)
qed


lemma default_shadow_color:
  "parseColorValue ''rgb(0 0 0 / 0.1)'' =
     Inr (Some \<lparr>col_r = Fin 0, col_g = Fin 0, col_b = Fin 0, col_a = Fin 0.1\<rparr>)"
  by code_simp

lemma parseShadowLayer_color:
  "\<exists>parsed. parseColorValue (shadow_colorStr part) = Inr parsed"
proof -
  from shadow_colorStr_cases[of part] show ?thesis
  proof
    assume "shadow_colorStr part = ''rgb(0 0 0 / 0.1)'' \<and> rx_match shadow_color_rx (shadow_text part) = None"
    then show ?thesis by (simp add: default_shadow_color)
  next
    assume "\<exists>x a b u. shadow_colorStr part = x \<and> x \<noteq> [] \<and> shadow_text part = a @ x @ b \<and>
      (x @ b = ''rgb'' @ u \<or> x @ b = ''oklch'' @ u \<or> x @ b = ''hsl'' @ u)"
    then obtain x b u where x: "shadow_colorStr part = x" "x \<noteq> []"
      "x @ b = ''rgb'' @ u \<or> x @ b = ''oklch'' @ u \<or> x @ b = ''hsl'' @ u" by blast
    then obtain y w where "x = y # w" and "y = CHR ''r'' \<or> y = CHR ''o'' \<or> y = CHR ''h''"
      by (cases x) auto
    from parseColorValue_first_char[OF this] x(1) show ?thesis
      by (cases "parseColorValue (shadow_colorStr part)") auto
  qed
qed






section \<open>The categorizer: exceptions and skipped variables\<close>

lemma parseShadowLayer_returns: "\<exists>layer. parseShadowLayer part = Inr layer"
  using parseShadowLayer_color[of part] by (auto simp: parseShadowLayer_def Let_def)

lemma shadow_layers_returns: "\<exists>ls. shadow_layers parts layers = Inr ls"
proof (induction parts arbitrary: layers)
  case Nil
  then show ?case by simp
next
  case (Cons part parts)
  obtain layer where "parseShadowLayer part = Inr layer" using parseShadowLayer_returns by blast
  with Cons show ?case by simp
qed

lemma shadow_token_returns: "\<exists>ts. shadow_token n raw = Inr ts \<and> (\<forall>t \<in> set ts. ps_name t = n)"
  using shadow_layers_returns[of "splitShadowParts raw" "[]"]
  by (auto simp: shadow_token_def parseShadowValue_def)

lemma categorize_var_Inl:
  assumes "categorize_var vars v result tv = Inl e"
  shows "startsWith (strip_dashes (cv_name v)) ''color-'' \<and> parseColorValue (cv_rawValue v) = Inl e"
proof -
  have s: "shadow_token n raw \<noteq> Inl e'" for n raw e'
    using shadow_token_returns[of n raw] by auto
  from assms show ?thesis
    unfolding categorize_var_def Let_def
    by (auto simp: s split: if_splits sum.splits option.splits prod.splits)
qed

lemma categorize_var_skip:
  assumes "startsWith (strip_dashes (cv_name v)) ''color-''" "parseColorValue (cv_rawValue v) = Inr None"
  shows "categorize_var vars v result tv = Inr (result, tv)"
  using assms by (simp add: categorize_var_def Let_def)

text \<open>The colors family after the loop, and the runs that return.\<close>

lemma categorize_var_colors:
  "categorize_var vars v result tv = Inr (result', tv') \<Longrightarrow>
   map pc_rawValue (colors result') =
     map pc_rawValue (colors result) @ (if has_color v then [cv_rawValue v] else [])"
  unfolding categorize_var_def Let_def
  by (auto simp: has_color_def split: if_splits sum.splits option.splits prod.splits)

lemma categorize_loop_colors:
  "categorize_loop vars vs result tv = Inr (result', tv') \<Longrightarrow>
   map pc_rawValue (colors result') =
     map pc_rawValue (colors result) @ map cv_rawValue (filter has_color vs)"
proof (induction vs arbitrary: result tv)
  case Nil
  then show ?case by simp
next
  case (Cons v vs)
  from Cons.prems obtain r1 tv1 where 1: "categorize_var vars v result tv = Inr (r1, tv1)"
    and 2: "categorize_loop vars vs r1 tv1 = Inr (result', tv')"
    by (auto split: sum.splits prod.splits)
  from categorize_var_colors[OF 1] Cons.IH[OF 2] show ?case by simp
qed

lemma categorize_loop_returns:
  "list_all (\<lambda>v. \<not> inherited_name (cv_rawValue v)) vs \<Longrightarrow>
   \<exists>result' tv'. categorize_loop vars vs result tv = Inr (result', tv')"
proof (induction vs arbitrary: result tv)
  case Nil
  then show ?case by simp
next
  case (Cons v vs)
  from Cons.prems have nv: "\<not> inherited_name (cv_rawValue v)"
    and rest: "list_all (\<lambda>v. \<not> inherited_name (cv_rawValue v)) vs" by simp_all
  have "categorize_var vars v result tv \<noteq> Inl e" for e
  proof
    assume "categorize_var vars v result tv = Inl e"
    from categorize_var_Inl[OF this] have "parseColorValue (cv_rawValue v) = Inl e" by simp
    from parseColorValue_Inl[OF this] nv show False by (simp add: inherited_name_def)
  qed
  then obtain r1 tv1 where 1: "categorize_var vars v result tv = Inr (r1, tv1)"
    by (cases "categorize_var vars v result tv") auto
  from Cons.IH[OF rest, of r1 tv1] 1 show ?case by simp
qed

lemma categorizeTokens_colors:
  assumes "list_all (\<lambda>v. \<not> inherited_name (cv_rawValue v)) vars"
  shows "\<exists>ts. categorizeTokens vars = Inr ts \<and>
    map pc_rawValue (colors ts) = map cv_rawValue (filter has_color vars)"
proof -
  from categorize_loop_returns[OF assms, of vars empty_token_set undefined_vars]
  obtain result tv where
    l: "categorize_loop vars vars empty_token_set undefined_vars = Inr (result, tv)" by blast
  from categorize_loop_colors[OF l]
  have "map pc_rawValue (colors result) = map cv_rawValue (filter has_color vars)"
    by (simp add: empty_token_set_def)
  with l show ?thesis by (simp add: categorizeTokens_def)
qed

section \<open>The spacing family\<close>

lemma categorize_var_spacing:
  "categorize_var vars v result tv = Inr (result', tv') \<Longrightarrow>
   spacing result' = spacing result @ (if is_spacing_base v then [base_token v] else [])"
  unfolding categorize_var_def Let_def
  by (auto simp: startsWith_def is_spacing_base_def base_token_def dim_token_def
      split: if_splits sum.splits option.splits prod.splits)

lemma categorize_loop_spacing:
  "categorize_loop vars vs result tv = Inr (result', tv') \<Longrightarrow>
   spacing result' = spacing result @ map base_token (filter is_spacing_base vs)"
proof (induction vs arbitrary: result tv)
  case Nil
  then show ?case by simp
next
  case (Cons v vs)
  from Cons.prems obtain r1 tv1 where 1: "categorize_var vars v result tv = Inr (r1, tv1)"
    and 2: "categorize_loop vars vs r1 tv1 = Inr (result', tv')"
    by (auto split: sum.splits prod.splits)
  from categorize_var_spacing[OF 1] Cons.IH[OF 2] show ?case by simp
qed

lemma step_names: 
  "map (\<lambda>step. [map (\<lambda>c. if c = CHR ''.'' then CHR ''_'' else c) (Number_toString (Fin step))]) steps =
   map (\<lambda>n. [n]) step_names"
  by code_simp

lemma generateSpacingScale_paths:
  "map pf_path (generateSpacingScale b) = map (\<lambda>n. [n]) step_names"
  using step_names by (simp add: generateSpacingScale_def Let_def comp_def)

lemma generateSpacingScale_values:
  "map pf_value (generateSpacingScale b) = map (\<lambda>step. Fin step * b) steps"
  by (simp add: generateSpacingScale_def Let_def comp_def)

lemma length_steps: "length steps = 33"
  by (simp add: steps_def)

lemma spacing_scale_general:
  assumes "categorizeTokens vars = Inr ts" "filter is_spacing_base vars = [v]"
    "parseDimension (cv_rawValue v) = Some b"
  shows "spacing ts = generateSpacingScale b"
proof -
  from assms(1) obtain result tv where l: "categorize_loop vars vars empty_token_set undefined_vars = Inr (result, tv)"
    and ts: "ts = (if length (spacing result) = 1
       then result\<lparr>spacing := generateSpacingScale (pf_value (spacing result ! 0))\<rparr>
       else result)"
    by (auto simp: categorizeTokens_def split: sum.splits prod.splits)
  from categorize_loop_spacing[OF l] assms(2) have "spacing result = [base_token v]"
    by (simp add: empty_token_set_def)
  with ts assms(3) show "spacing ts = generateSpacingScale b" by (simp add: base_token_def)
qed

lemma spacing_example:
  "categorizeTokens [\<lparr>cv_name = ''--spacing'', cv_rawValue = ''4px''\<rparr>] \<noteq> Inl e"
  "filter is_spacing_base [\<lparr>cv_name = ''--spacing'', cv_rawValue = ''4px''\<rparr>] =
     [\<lparr>cv_name = ''--spacing'', cv_rawValue = ''4px''\<rparr>]"
  "parseDimension ''4px'' = Some (Fin 4)"
proof -
  have "categorizeTokens [\<lparr>cv_name = ''--spacing'', cv_rawValue = ''4px''\<rparr>] \<noteq> Inl TypeError"
    by code_simp
  then show "categorizeTokens [\<lparr>cv_name = ''--spacing'', cv_rawValue = ''4px''\<rparr>] \<noteq> Inl e"
    by (cases e) simp
  show "filter is_spacing_base [\<lparr>cv_name = ''--spacing'', cv_rawValue = ''4px''\<rparr>] =
     [\<lparr>cv_name = ''--spacing'', cv_rawValue = ''4px''\<rparr>]"
    by code_simp
  show "parseDimension ''4px'' = Some (Fin 4)" by code_simp
qed

section \<open>The steps of the categorizer\<close>

lemma split_on_ne: "split_on c s \<noteq> []"
  by (induction s) (auto split: list.splits)

lemma default_path_ne: "default_path n f \<noteq> []"
  by (simp add: default_path_def Let_def split_on_ne)

lemma categorize_var_shape:
  "categorize_var vars v result tv = Inr (result', tv') \<Longrightarrow> step_shape vars v result result'"
  unfolding categorize_var_def Let_def
  apply (simp split: if_splits sum.splits option.splits prod.splits)
  apply (auto intro!: step_shape.intros simp: split_on_ne default_path_ne)
  done

lemma dim_token_ne: "p \<noteq> [] \<Longrightarrow> list_all (\<lambda>t. pf_path t \<noteq> []) (dim_token p raw)"
  by (auto simp: dim_token_def split: option.splits)

lemma num_token_ne: "p \<noteq> [] \<Longrightarrow> list_all (\<lambda>t. pf_path t \<noteq> []) (num_token p raw)"
  by (auto simp: num_token_def Let_def split: if_splits)

lemma dim_token_base: "list_all (\<lambda>t. [] \<notin> set (pf_path t)) (dim_token [''base''] raw)"
  by (auto simp: dim_token_def split: option.splits)

lemma shadow_token_ne:
  "shadow_token n raw = Inr ts \<Longrightarrow> n \<noteq> [] \<Longrightarrow> list_all (\<lambda>t. ps_name t \<noteq> []) ts"
  using shadow_token_returns[of n raw] by (auto simp: list_all_iff)

lemma step_paths_ok:
  "step_shape vars v result result' \<Longrightarrow> paths_ok result \<Longrightarrow> paths_ok result'"
  by (induction rule: step_shape.induct)
     (simp_all add: paths_ok_def float_tokens_def dim_token_ne num_token_ne dim_token_base
        shadow_token_ne)

lemma categorize_loop_paths_ok:
  "categorize_loop vars vs result tv = Inr (result', tv') \<Longrightarrow> paths_ok result \<Longrightarrow> paths_ok result'"
proof (induction vs arbitrary: result tv)
  case Nil
  then show ?case by simp
next
  case (Cons v vs)
  from Cons.prems(1) obtain r1 tv1 where 1: "categorize_var vars v result tv = Inr (r1, tv1)"
    and 2: "categorize_loop vars vs r1 tv1 = Inr (result', tv')"
    by (auto split: sum.splits prod.splits)
  from step_paths_ok[OF categorize_var_shape[OF 1] Cons.prems(2)] have "paths_ok r1" .
  from Cons.IH[OF 2 this] show ?case .
qed

lemma paths_ok_empty: "paths_ok empty_token_set"
  by (simp add: paths_ok_def float_tokens_def empty_token_set_def)

lemma generateSpacingScale_ok:
  "list_all (\<lambda>t. pf_path t \<noteq> []) (generateSpacingScale b)"
  "list_all (\<lambda>t. [] \<notin> set (pf_path t)) (generateSpacingScale b)"
proof -
  have "list_all (\<lambda>p. p \<noteq> []) (map pf_path (generateSpacingScale b))"
    unfolding generateSpacingScale_paths by (simp add: step_names_def)
  then show "list_all (\<lambda>t. pf_path t \<noteq> []) (generateSpacingScale b)"
    by (simp add: list_all_iff)
  have "list_all (\<lambda>p. [] \<notin> set p) (map pf_path (generateSpacingScale b))"
    unfolding generateSpacingScale_paths by (simp add: step_names_def)
  then show "list_all (\<lambda>t. [] \<notin> set (pf_path t)) (generateSpacingScale b)"
    by (simp add: list_all_iff)
qed

lemma categorizeTokens_paths_ok:
  assumes "categorizeTokens vars = Inr ts"
  shows "paths_ok ts"
proof -
  from assms obtain result tv where l: "categorize_loop vars vars empty_token_set undefined_vars = Inr (result, tv)"
    and ts: "ts = (if length (spacing result) = 1
       then result\<lparr>spacing := generateSpacingScale (pf_value (spacing result ! 0))\<rparr>
       else result)"
    by (auto simp: categorizeTokens_def split: sum.splits prod.splits)
  from categorize_loop_paths_ok[OF l paths_ok_empty] have r: "paths_ok result" .
  show ?thesis
  proof (cases "length (spacing result) = 1")
    case True
    with ts r show ?thesis
      by (simp add: paths_ok_def float_tokens_def generateSpacingScale_ok)
  next
    case False
    with ts r show ?thesis by simp
  qed
qed

section \<open>The typography family\<close>

lemma replace_first_prefix: "replace_first (p @ s) p [] = s"
proof -
  have sw: "startsWith (p @ s) p" by (simp add: startsWith_def)
  have "indexOf (p @ s) p = Some 0"
  proof (cases "p @ s")
    case Nil
    then show ?thesis by simp
  next
    case (Cons y ys)
    with sw show ?thesis by simp
  qed
  then show ?thesis by (simp add: replace_first_def)
qed

lemma strip_dashes_dashes: "strip_dashes (''--'' @ s) = s"
  by (simp add: strip_dashes_def rx_exec_def lit_def chr_def)

lemma startsWithD: "startsWith n p \<Longrightarrow> \<exists>r. n = p @ r"
  unfolding startsWith_def by (metis append_take_drop_id)

lemma text_shadow_includes: "startsWith n ''text-shadow-'' \<Longrightarrow> includes_str n ''shadow''"
proof -
  assume "startsWith n ''text-shadow-''"
  then obtain r where "n = ''text-shadow-'' @ r" using startsWithD by blast
  then have "n = ''text-'' @ ''shadow'' @ (''-'' @ r)" by simp
  then show ?thesis using includes_strI by metis
qed

lemma text_not_other:
  "\<not> startsWith (''text-'' @ sz) ''color-''"
  "''text-'' @ sz \<noteq> ''spacing''"
  "\<not> startsWith (''text-'' @ sz) ''breakpoint-''"
  "\<not> startsWith (''text-'' @ sz) ''container-''"
  "\<not> startsWith (''text-'' @ sz) ''max-w-''"
  "\<not> startsWith (''text-'' @ sz) ''max-width-''"
  "\<not> startsWith (''text-'' @ sz) ''font-weight-''"
  "\<not> startsWith (''text-'' @ sz) ''tracking-''"
  "\<not> startsWith (''text-'' @ sz) ''leading-''"
  "\<not> startsWith (''text-'' @ sz) ''radius''"
  "\<not> startsWith (''text-'' @ sz) ''shadow-''"
  "\<not> startsWith (''text-'' @ sz) ''inset-shadow-''"
  "\<not> startsWith (''text-'' @ sz) ''drop-shadow-''"
  "\<not> startsWith (''text-'' @ sz) ''blur''"
  "\<not> startsWith (''text-'' @ sz) ''backdrop-blur''"
  "startsWith (''text-'' @ sz) ''text-''"
  by (simp_all add: startsWith_def)

lemma categorize_var_text:
  assumes n: "startsWith (strip_dashes (cv_name v)) ''text-''"
    and ns: "\<not> includes_str (strip_dashes (cv_name v)) ''shadow''"
    and nm: "\<not> is_modifier (strip_dashes (cv_name v))"
  shows "categorize_var vars v result tv =
    (case typography_token vars (strip_dashes (cv_name v)) (cv_rawValue v) tv of
       (ts, tv') \<Rightarrow> Inr (result\<lparr>typography := typography result @ ts\<rparr>, tv'))"
proof -
  from n obtain sz where sz: "strip_dashes (cv_name v) = ''text-'' @ sz" using startsWithD by blast
  have g: "\<not> startsWith (''text-'' @ sz) ''text-shadow-''"
    using ns text_shadow_includes unfolding sz by blast
  from nm have h: "\<not> endsWith (''text-'' @ sz) ''--line-height''"
    "\<not> endsWith (''text-'' @ sz) ''--letter-spacing''"
    "\<not> endsWith (''text-'' @ sz) ''--font-weight''"
    unfolding sz by (simp_all add: is_modifier_def)
  show ?thesis
    unfolding categorize_var_def Let_def sz
    by (simp only: text_not_other g h ns[unfolded sz] if_True if_False simp_thms)
qed

lemma categorize_var_modifier:
  assumes n: "startsWith (strip_dashes (cv_name v)) ''text-''"
    and ns: "\<not> includes_str (strip_dashes (cv_name v)) ''shadow''"
    and nm: "is_modifier (strip_dashes (cv_name v))"
  shows "categorize_var vars v result tv = Inr (result, tv)"
proof -
  from n obtain sz where sz: "strip_dashes (cv_name v) = ''text-'' @ sz" using startsWithD by blast
  have g: "\<not> startsWith (''text-'' @ sz) ''text-shadow-''"
    using ns text_shadow_includes unfolding sz by blast
  from nm have h: "endsWith (''text-'' @ sz) ''--line-height'' \<or>
    endsWith (''text-'' @ sz) ''--letter-spacing'' \<or>
    endsWith (''text-'' @ sz) ''--font-weight''"
    unfolding sz by (simp add: is_modifier_def)
  show ?thesis
    unfolding categorize_var_def Let_def sz
    by (simp only: text_not_other g h ns[unfolded sz] if_True if_False simp_thms)
qed

lemma categorize_var_other:
  assumes "categorize_var vars v result tv = Inr (result', tv')"
    and "\<not> (startsWith (strip_dashes (cv_name v)) ''text-'' \<and>
      \<not> includes_str (strip_dashes (cv_name v)) ''shadow'')"
  shows "typography result' = typography result \<and> tv' = tv"
  using assms unfolding categorize_var_def Let_def
  by (auto split: if_splits sum.splits option.splits)

text \<open>One step of the loop, seen from the typography family.\<close>

lemma categorize_var_typography:
  assumes "categorize_var vars v result tv = Inr (result', tv')"
  shows "typography result' = typography result @
      (if is_text_size v
       then fst (typography_token vars (strip_dashes (cv_name v)) (cv_rawValue v) tv) else []) \<and>
    tv' = (if is_text_size v
       then snd (typography_token vars (strip_dashes (cv_name v)) (cv_rawValue v) tv) else tv)"
proof (cases "startsWith (strip_dashes (cv_name v)) ''text-'' \<and>
      \<not> includes_str (strip_dashes (cv_name v)) ''shadow''")
  case False
  with categorize_var_other[OF assms] show ?thesis by (auto simp: is_text_size_def Let_def)
next
  case True
  then have n: "startsWith (strip_dashes (cv_name v)) ''text-''"
    and ns: "\<not> includes_str (strip_dashes (cv_name v)) ''shadow''" by simp_all
  show ?thesis
  proof (cases "is_modifier (strip_dashes (cv_name v))")
    case True
    from assms categorize_var_modifier[OF n ns True, of vars result tv]
    have "result' = result" "tv' = tv" by simp_all
    moreover have "\<not> is_text_size v" using True by (simp add: is_text_size_def Let_def)
    ultimately show ?thesis by simp
  next
    case False
    obtain ts tv1 where
      t: "typography_token vars (strip_dashes (cv_name v)) (cv_rawValue v) tv = (ts, tv1)"
      by (cases "typography_token vars (strip_dashes (cv_name v)) (cv_rawValue v) tv")
    from assms categorize_var_text[OF n ns False, of vars result tv]
    have r: "result' = result\<lparr>typography := typography result @ ts\<rparr>" "tv' = tv1"
      by (simp_all add: t)
    show ?thesis
    proof (cases "parseDimension (cv_rawValue v)")
      case None
      then have "\<not> is_text_size v" by (simp add: is_text_size_def Let_def)
      moreover from None t have "ts = []" "tv1 = tv" by (simp_all add: typography_token_def)
      ultimately show ?thesis using r by simp
    next
      case (Some d)
      then have "is_text_size v"
        using n ns False by (simp add: is_text_size_def Let_def)
      then show ?thesis using r t by simp
    qed
  qed
qed

lemma typography_token_names:
  "is_text_size v \<Longrightarrow>
   map pt_name (fst (typography_token vars (strip_dashes (cv_name v)) (cv_rawValue v) tv)) = [size_name v]"
  by (auto simp: is_text_size_def typography_token_def size_name_def Let_def split: option.splits)

lemma categorize_loop_typography_names:
  "categorize_loop vars vs result tv = Inr (result', tv') \<Longrightarrow>
   map pt_name (typography result') =
     map pt_name (typography result) @ map size_name (filter is_text_size vs)"
proof (induction vs arbitrary: result tv)
  case Nil
  then show ?case by simp
next
  case (Cons v vs)
  from Cons.prems obtain r1 tv1 where 1: "categorize_var vars v result tv = Inr (r1, tv1)"
    and 2: "categorize_loop vars vs r1 tv1 = Inr (result', tv')"
    by (auto split: sum.splits prod.splits)
  from categorize_var_typography[OF 1] typography_token_names[of v vars tv] Cons.IH[OF 2]
  show ?case by (cases "is_text_size v") simp_all
qed

lemma typography_token_sizes:
  "is_text_size v \<Longrightarrow>
   map pt_fontSize (fst (typography_token vars (strip_dashes (cv_name v)) (cv_rawValue v) tv)) =
     [the (parseDimension (cv_rawValue v))]"
  by (auto simp: is_text_size_def typography_token_def Let_def split: option.splits)

lemma categorize_loop_typography_sizes:
  "categorize_loop vars vs result tv = Inr (result', tv') \<Longrightarrow>
   map pt_fontSize (typography result') =
     map pt_fontSize (typography result) @
     map (\<lambda>v. the (parseDimension (cv_rawValue v))) (filter is_text_size vs)"
proof (induction vs arbitrary: result tv)
  case Nil
  then show ?case by simp
next
  case (Cons v vs)
  from Cons.prems obtain r1 tv1 where 1: "categorize_var vars v result tv = Inr (r1, tv1)"
    and 2: "categorize_loop vars vs r1 tv1 = Inr (result', tv')"
    by (auto split: sum.splits prod.splits)
  from categorize_var_typography[OF 1] typography_token_sizes[of v vars tv] Cons.IH[OF 2]
  show ?case by (cases "is_text_size v") simp_all
qed

lemma step_typography:
  "step_shape vars v result result' \<Longrightarrow> set (typography result) \<subseteq> set (typography result')"
  by (induction rule: step_shape.induct) auto

lemma categorize_loop_typography_mono:
  "categorize_loop vars vs result tv = Inr (result', tv') \<Longrightarrow>
   set (typography result) \<subseteq> set (typography result')"
proof (induction vs arbitrary: result tv)
  case Nil
  then show ?case by simp
next
  case (Cons v vs)
  from Cons.prems obtain r1 tv1 where 1: "categorize_var vars v result tv = Inr (r1, tv1)"
    and 2: "categorize_loop vars vs r1 tv1 = Inr (result', tv')"
    by (auto split: sum.splits prod.splits)
  from step_typography[OF categorize_var_shape[OF 1]] Cons.IH[OF 2] show ?case by blast
qed

text \<open>The token of a size variable whose line height has a sibling: the line height
  is what \<^verbatim>\<open>evaluateCalc\<close> gives for the sibling, whatever the variables held.\<close>

lemma categorize_loop_text:
  assumes "categorize_loop vars vs result tv = Inr (result', tv')" "v \<in> set vs"
    "startsWith (strip_dashes (cv_name v)) ''text-''"
    "\<not> includes_str (strip_dashes (cv_name v)) ''shadow''"
    "\<not> is_modifier (strip_dashes (cv_name v))"
    "parseDimension (cv_rawValue v) = Some d"
    "sibling vars (strip_dashes (cv_name v)) ''--line-height'' = Some lh"
  shows "\<exists>t \<in> set (typography result'). pt_name t = size_name v \<and> pt_fontSize t = d \<and>
    pt_lineHeight t = evaluateCalc (cv_rawValue lh) \<and> pt_rawValue t = cv_rawValue v"
  using assms(1,2)
proof (induction vs arbitrary: result tv)
  case Nil
  then show ?case by simp
next
  case (Cons w vs)
  from Cons.prems(1) obtain r1 tv1 where 1: "categorize_var vars w result tv = Inr (r1, tv1)"
    and 2: "categorize_loop vars vs r1 tv1 = Inr (result', tv')"
    by (auto split: sum.splits prod.splits)
  show ?case
  proof (cases "w = v")
    case True
    let ?tv = "typography_vars vars (strip_dashes (cv_name v)) tv"
    let ?t = "\<lparr>pt_name = size_name v, pt_fontSize = d,
      pt_lineHeight = evaluateCalc (cv_rawValue lh),
      pt_letterSpacing = tv_letterSpacing ?tv, pt_fontWeight = tv_fontWeight ?tv,
      pt_rawValue = cv_rawValue v\<rparr>"
    have "typography_token vars (strip_dashes (cv_name v)) (cv_rawValue v) tv = ([?t], ?tv)"
      using assms(6,7)
      by (simp add: typography_token_def Let_def typography_vars_def size_name_def)
    with 1 categorize_var_text[OF assms(3,4,5), of vars result tv]
    have "r1 = result\<lparr>typography := typography result @ [?t]\<rparr>"
      by (auto simp: True)
    then have "?t \<in> set (typography r1)" by simp
    with categorize_loop_typography_mono[OF 2] have "?t \<in> set (typography result')" by blast
    then show ?thesis by (rule bexI[rotated]) simp
  next
    case False
    with Cons.prems(2) have "v \<in> set vs" by simp
    from Cons.IH[OF 2 this] show ?thesis .
  qed
qed

lemma categorizeTokens_typography:
  assumes "categorizeTokens vars = Inr ts"
  shows "\<exists>result tv. categorize_loop vars vars empty_token_set undefined_vars = Inr (result, tv) \<and>
    typography ts = typography result"
  using assms by (auto simp: categorizeTokens_def split: sum.splits prod.splits)

text \<open>The line height of a value \<^verbatim>\<open>calc(A / B)\<close>, and of a value that is not numeric.\<close>

lemma calc_match:
  assumes A: "A \<noteq> []" "list_all dd A" and B: "B \<noteq> []" "list_all dd B"
  shows "rx_match calc_rx (''calc('' @ A @ '' / '' @ B @ '')'') = Some [(2, B), (1, A)]"
proof -
  obtain a A' where A': "A = a # A'" using A(1) by (cases A) auto
  obtain b B' where B': "B = b # B'" using B(1) by (cases B) auto
  have a: "dd a" "list_all dd A'" "\<not> is_ws a" using A(2) dd_not_ws by (auto simp: A')
  have b: "dd b" "list_all dd B'" "\<not> is_ws b" using B(2) dd_not_ws by (auto simp: B')
  have nd: "\<not> dd CHR '' ''" "\<not> dd CHR '')''" "is_ws CHR '' ''" "\<not> is_ws CHR ''/''" "\<not> is_ws CHR '')''"
    by (simp_all add: dd_def is_digit_def is_ws_def)
  let ?s1 = "A @ '' / '' @ B @ '')''"
  let ?s2 = "'' / '' @ B @ '')''"
  let ?s3 = "''/ '' @ B @ '')''"
  let ?s4 = "'' '' @ B @ '')''"
  let ?s5 = "B @ '')''"
  have 1: "rx_first (lit ''calc('') (''calc('' @ ?s1) [] = Some (?s1, [])" by (rule rx_first_lit)
  have 2: "rx_first (Star is_ws) ?s1 [] = Some (?s1, [])"
    using a by (simp add: rx_first_Star A')
  have "rx_first (Plus dd) ?s1 [] = Some (?s2, [])"
    using a nd by (simp add: A' rx_first_Plus dropWhile_all_append)
  from rx_first_Grp[OF this, of 1] have 3: "rx_first (Grp 1 (Plus dd)) ?s1 [] = Some (?s2, [(1, A)])"
    by simp
  have 4: "rx_first (Star is_ws) ?s2 [(1, A)] = Some (?s3, [(1, A)])"
    using nd by (simp add: rx_first_Star)
  have 5: "rx_first (chr CHR ''/'') ?s3 [(1, A)] = Some (?s4, [(1, A)])"
    using rx_first_chr[of "CHR ''/''" ?s4] by simp
  have 6: "rx_first (Star is_ws) ?s4 [(1, A)] = Some (?s5, [(1, A)])"
    using nd b by (simp add: rx_first_Star B')
  have "rx_first (Plus dd) ?s5 [(1, A)] = Some ('')'', [(1, A)])"
    using b nd by (simp add: B' rx_first_Plus dropWhile_all_append)
  from rx_first_Grp[OF this, of 2] have 7: "rx_first (Grp 2 (Plus dd)) ?s5 [(1, A)] = Some ('')'', [(2, B), (1, A)])"
    by simp
  have 8: "rx_first (Star is_ws) '')'' [(2, B), (1, A)] = Some ('')'', [(2, B), (1, A)])"
    using nd by (simp add: rx_first_Star)
  have 9: "rx_first (chr CHR '')'') '')'' [(2, B), (1, A)] = Some ([], [(2, B), (1, A)])"
    by (rule rx_first_chr)
  have "rx_first calc_rx (''calc('' @ ?s1) [] = Some ([], [(2, B), (1, A)])"
    unfolding calc_rx_def seq_Cons
    by (intro rx_first_Seq[OF 1] rx_first_Seq[OF 2] rx_first_Seq[OF 3] rx_first_Seq[OF 4]
        rx_first_Seq[OF 5] rx_first_Seq[OF 6] rx_first_Seq[OF 7] rx_first_Seq[OF 8]
        rx_first_Seq[OF 9]) (simp add: seq_def rx_first_Eps)
  then show ?thesis by (intro rx_match_prefix) (simp add: rx_exec_first)
qed

lemma evaluateCalc_ratio:
  assumes "A \<noteq> []" "list_all dd A" "B \<noteq> []" "list_all dd B" "parseFloat B \<noteq> Fin 0"
  shows "evaluateCalc (''calc('' @ A @ '' / '' @ B @ '')'') = Some (parseFloat A / parseFloat B)"
  using assms(5) calc_match[OF assms(1-4)] by (simp add: evaluateCalc_def Let_def grp_def)

lemma calc_rx_dd:
  assumes "(s', c') \<in> set (rx_m calc_rx s c)"
  shows "list_ex dd s"
proof -
  from assms obtain s1 c1 s2 c2 s3 c3 where 1: "(s1, c1) \<in> set (rx_m (lit ''calc('') s c)"
    and 2: "(s2, c2) \<in> set (rx_m (Star is_ws) s1 c1)"
    and 3: "(s3, c3) \<in> set (rx_m (Grp 1 (Plus dd)) s2 c2)"
    unfolding calc_rx_def seq_Cons in_rx_m_Seq by blast
  from rx_m_Grp_capture[OF 3] obtain c0 where "(s3, c0) \<in> set (rx_m (Plus dd) s2 c2)" by blast
  from rx_m_Plus_first[OF this] obtain x xs where "s2 = x # xs" "dd x" by blast
  then have "x \<in> set s2" by simp
  with rx_m_set[OF 2] rx_m_set[OF 1] have "x \<in> set s" by blast
  with \<open>dd x\<close> show ?thesis by (auto simp: list_ex_iff)
qed

lemma calc_no_match:
  assumes "\<not> list_ex dd raw"
  shows "rx_match calc_rx raw = None"
proof (cases "rx_search calc_rx raw")
  case None
  then show ?thesis by (simp add: rx_match_def)
next
  case (Some r)
  obtain pre m rest c where r: "r = (pre, m, rest, c)" by (cases r) auto
  from rx_search_Some[OF Some[unfolded r]] have s: "raw = pre @ m @ rest"
    and mem: "(rest, c) \<in> set (rx_m calc_rx (m @ rest) [])" by auto
  from calc_rx_dd[OF mem] have "list_ex dd (m @ rest)" .
  with s assms show ?thesis by (auto simp: list_ex_iff)
qed

lemma takeWhile_none: "\<not> list_ex p s \<Longrightarrow> takeWhile p s = []"
  by (cases s) (auto simp: list_ex_iff)

lemma unsigned_decimal_NaN:
  assumes "\<not> list_ex is_digit t" "\<not> startsWith t ''Infinity''"
  shows "unsigned_decimal t = NaN"
proof -
  have 1: "takeWhile is_digit t = []" using assms(1) by (rule takeWhile_none)
  have "\<not> list_ex is_digit (tl t)" using assms(1) by (cases t) (auto simp: list_ex_iff)
  then have 2: "takeWhile is_digit (tl t) = []" by (rule takeWhile_none)
  have 3: "dropWhile is_digit t = t" using 1 by (cases t) (auto split: if_splits)
  show ?thesis using assms(2) by (simp add: unsigned_decimal_def Let_def 1 2 3)
qed

lemma suffix_not_Infinity:
  assumes "\<not> includes_str (a @ t) ''Infinity''"
  shows "\<not> startsWith t ''Infinity''"
proof
  assume "startsWith t ''Infinity''"
  then obtain r where "t = ''Infinity'' @ r" using startsWithD by blast
  then have "a @ t = a @ ''Infinity'' @ r" by simp
  then have "includes_str (a @ t) ''Infinity''" using includes_strI by metis
  with assms show False by simp
qed

lemma parseFloat_NaN:
  assumes "non_numeric raw"
  shows "parseFloat raw = NaN"
proof -
  define t where "t = dropWhile is_ws raw"
  have raw: "raw = takeWhile is_ws raw @ t" by (simp add: t_def)
  from assms have nd: "\<not> list_ex is_digit raw" and ni: "\<not> includes_str raw ''Infinity''"
    by (auto simp: non_numeric_def dd_def list_ex_iff)
  from nd raw have ndt: "\<not> list_ex is_digit t"
    by (metis list_ex_append)
  show ?thesis
  proof (cases t)
    case Nil
    then show ?thesis by (simp add: parseFloat_def t_def[symmetric])
  next
    case (Cons c u)
    from ndt Cons have ndu: "\<not> list_ex is_digit u" by simp
    from ni raw have "\<not> includes_str (takeWhile is_ws raw @ t) ''Infinity''" by simp
    from suffix_not_Infinity[OF this] have it: "\<not> startsWith t ''Infinity''" .
    from ni raw Cons have "\<not> includes_str ((takeWhile is_ws raw @ [c]) @ u) ''Infinity''" by simp
    from suffix_not_Infinity[OF this] have iu: "\<not> startsWith u ''Infinity''" .
    from unsigned_decimal_NaN[OF ndt it] unsigned_decimal_NaN[OF ndu iu] Cons
    show ?thesis by (simp add: parseFloat_def t_def[symmetric])
  qed
qed

lemma evaluateCalc_absent:
  assumes "non_numeric raw"
  shows "evaluateCalc raw = None"
proof -
  from assms have "\<not> list_ex dd raw" by (simp add: non_numeric_def)
  from calc_no_match[OF this] parseFloat_NaN[OF assms] show ?thesis
    by (simp add: evaluateCalc_def Let_def isNaN_def)
qed

lemma typography_example:
  "categorizeTokens
      [\<lparr>cv_name = ''--text-sm'', cv_rawValue = ''14px''\<rparr>,
       \<lparr>cv_name = ''--text-sm--line-height'', cv_rawValue = ''calc(1.25 / 0.875)''\<rparr>] =
     Inr (empty_token_set\<lparr>typography :=
       [\<lparr>pt_name = ''sm'', pt_fontSize = Fin 14, pt_lineHeight = Some (Fin (10 / 7)),
         pt_letterSpacing = None, pt_fontWeight = None, pt_rawValue = ''14px''\<rparr>]\<rparr>)"
  by code_simp

lemma typography_example_normal:
  "categorizeTokens
      [\<lparr>cv_name = ''--text-lg'', cv_rawValue = ''18px''\<rparr>,
       \<lparr>cv_name = ''--text-lg--line-height'', cv_rawValue = ''normal''\<rparr>] =
     Inr (empty_token_set\<lparr>typography :=
       [\<lparr>pt_name = ''lg'', pt_fontSize = Fin 18, pt_lineHeight = None,
         pt_letterSpacing = None, pt_fontWeight = None, pt_rawValue = ''18px''\<rparr>]\<rparr>)"
  by code_simp

text \<open>A size variable with no line height of its own takes the line height that the
  size before it left in the variable.\<close>

lemma typography_carry_over:
  "categorizeTokens
      [\<lparr>cv_name = ''--text-sm'', cv_rawValue = ''14px''\<rparr>,
       \<lparr>cv_name = ''--text-sm--line-height'', cv_rawValue = ''1.5''\<rparr>,
       \<lparr>cv_name = ''--text-lg'', cv_rawValue = ''18px''\<rparr>] =
     Inr (empty_token_set\<lparr>typography :=
       [\<lparr>pt_name = ''sm'', pt_fontSize = Fin 14, pt_lineHeight = Some (Fin 1.5),
         pt_letterSpacing = None, pt_fontWeight = None, pt_rawValue = ''14px''\<rparr>,
        \<lparr>pt_name = ''lg'', pt_fontSize = Fin 18, pt_lineHeight = Some (Fin 1.5),
         pt_letterSpacing = None, pt_fontWeight = None, pt_rawValue = ''18px''\<rparr>]\<rparr>)"
  by code_simp

section \<open>The oklch conversion of one color\<close>

text \<open>Bounds of cosine, sine and \<open>pi\<close> by rational numbers, from the Maclaurin expansions.\<close>

lemma cos_coeffs:
  "cos_coeff (Suc 0) = 0" "cos_coeff 2 = - 1 / 2" "cos_coeff 3 = 0" "cos_coeff 4 = 1 / 24"
  "cos_coeff 5 = 0" "cos_coeff 6 = - 1 / 720" "cos_coeff 7 = 0" "cos_coeff 8 = 1 / 40320"
  "cos_coeff 9 = 0"
  by (simp_all add: cos_coeff_def fact_numeral)

lemma sin_coeffs:
  "sin_coeff (Suc 0) = 1" "sin_coeff 2 = 0" "sin_coeff 3 = - 1 / 6" "sin_coeff 4 = 0"
  "sin_coeff 5 = 1 / 120" "sin_coeff 6 = 0"
  by (simp_all add: sin_coeff_def fact_numeral)

lemma cos_taylor:
  fixes x :: real
  shows "\<bar>cos x - (1 - x^2 / 2 + x^4 / 24 - x^6 / 720 + x^8 / 40320)\<bar> \<le> x^10 / 3628800"
proof -
  obtain t where t: "cos x = (\<Sum>m<10. cos_coeff m * x ^ m) + (cos (t + 1/2 * real 10 * pi) / fact 10) * x ^ 10"
    using Maclaurin_cos_expansion[of x 10] by blast
  have s: "(\<Sum>m<10. cos_coeff m * x ^ m) = 1 - x^2 / 2 + x^4 / 24 - x^6 / 720 + x^8 / 40320"
    by (simp add: lessThan_nat_numeral cos_coeffs)
  define k where "k = cos (t + 1/2 * real 10 * pi)"
  have k: "\<bar>k\<bar> \<le> 1" unfolding k_def by (rule abs_cos_le_one)
  have "\<bar>k\<bar> * x ^ 10 \<le> 1 * x ^ 10"
    by (rule mult_right_mono) (use k in simp_all)
  then have "\<bar>k * x ^ 10\<bar> \<le> x ^ 10" by (simp add: abs_mult)
  then have "\<bar>(k / 3628800) * x ^ 10\<bar> \<le> x ^ 10 / 3628800"
    by (simp add: abs_mult)
  moreover have "(fact 10 :: real) = 3628800" by (simp add: fact_numeral)
  ultimately show ?thesis unfolding t s k_def by simp
qed

lemma sin_taylor:
  fixes x :: real
  shows "\<bar>sin x - (x - x^3 / 6 + x^5 / 120)\<bar> \<le> \<bar>x\<bar>^7 / 5040"
proof -
  have s: "(\<Sum>m<7. sin_coeff m * x ^ m) = x - x^3 / 6 + x^5 / 120"
    by (simp add: lessThan_nat_numeral sin_coeffs)
  have "(fact 7 :: real) = 5040" by (simp add: fact_numeral)
  with Maclaurin_sin_bound[of x 7] show ?thesis unfolding s by (simp add: field_simps)
qed


lemma cos_lower: "1 - x^2 / 2 + x^4 / 24 - x^6 / 720 + x^8 / 40320 - x^10 / 3628800 \<le> cos x"
  for x :: real
  using cos_taylor[of x] by linarith

lemma cos_upper: "cos x \<le> 1 - x^2 / 2 + x^4 / 24 - x^6 / 720 + x^8 / 40320 + x^10 / 3628800"
  for x :: real
  using cos_taylor[of x] by linarith

lemma sin_lower:
  fixes x :: real
  assumes "0 \<le> x"
  shows "x - x^3 / 6 + x^5 / 120 - x^7 / 5040 \<le> sin x"
proof -
  have "\<bar>x\<bar> = x" using assms by simp
  with sin_taylor[of x] have "\<bar>sin x - (x - x^3 / 6 + x^5 / 120)\<bar> \<le> x^7 / 5040"
    by (simp only:)
  then show ?thesis by linarith
qed

lemma sin_upper:
  fixes x :: real
  assumes "0 \<le> x"
  shows "sin x \<le> x - x^3 / 6 + x^5 / 120 + x^7 / 5040"
proof -
  have "\<bar>x\<bar> = x" using assms by simp
  with sin_taylor[of x] have "\<bar>sin x - (x - x^3 / 6 + x^5 / 120)\<bar> \<le> x^7 / 5040"
    by (simp only:)
  then show ?thesis by linarith
qed

lemma pi_bounds: "314 / 100 < pi" "pi < 3142 / 1000"
proof -
  have "(0::real) < 1 - (157/100)^2 / 2 + (157/100)^4 / 24 - (157/100)^6 / 720
      + (157/100)^8 / 40320 - (157/100)^10 / 3628800"
    by (simp add: power_divide)
  with cos_lower[of "157/100"] have p: "0 < cos (157/100 :: real)" by linarith
  show "314 / 100 < pi"
  proof (rule ccontr)
    assume "\<not> 314 / 100 < pi"
    then have "pi / 2 \<le> 157 / 100" by simp
    moreover have "(157 / 100 :: real) \<le> pi" using pi_ge_two by linarith
    ultimately have "cos (157 / 100) \<le> cos (pi / 2)"
      by (intro cos_monotone_0_pi_le) simp_all
    with p show False by simp
  qed
  have "1 - (1571/1000)^2 / 2 + (1571/1000)^4 / 24 - (1571/1000)^6 / 720
      + (1571/1000)^8 / 40320 + (1571/1000)^10 / 3628800 < (0::real)"
    by (simp add: power_divide)
  with cos_upper[of "1571/1000"] have n: "cos (1571/1000 :: real) < 0" by linarith
  show "pi < 3142 / 1000"
  proof (rule ccontr)
    assume "\<not> pi < 3142 / 1000"
    then have "1571 / 1000 \<le> pi / 2" by simp
    then have "0 \<le> cos (1571 / 1000 :: real)" by (intro cos_ge_zero) simp_all
    with n show False by simp
  qed
qed

text \<open>The conversion on finite numbers, as a composition of its steps.\<close>

lemma oklchToRgba_Fin:
  "oklchToRgba (Fin L) (Fin C) (Fin H) alpha =
    (let a = oklab_a C H; b = oklab_b C H;
         l = (lms_l L a b) ^ 3; m = (lms_m L a b) ^ 3; s = (lms_s L a b) ^ 3
     in \<lparr>col_r = clamp01 (linearToSrgb (Fin (lin_r l m s))),
         col_g = clamp01 (linearToSrgb (Fin (lin_g l m s))),
         col_b = clamp01 (linearToSrgb (Fin (lin_b l m s))),
         col_a = alpha\<rparr>)"
  by (simp add: oklchToRgba_def Let_def oklab_a_def oklab_b_def lms_l_def lms_m_def lms_s_def
      lin_r_def lin_g_def lin_b_def minus_number_def power3_eq_cube)

lemma channel_Fin:
  assumes "31308 / 10000000 < c" "0 \<le> gamma c" "gamma c \<le> 1"
  shows "clamp01 (linearToSrgb (Fin c)) = Fin (gamma c)"
proof -
  have "linearToSrgb (Fin c) = Fin (gamma c)"
    using assms(1) by (simp add: linearToSrgb_def num_le_def gamma_def minus_number_def)
  with assms(2,3) show ?thesis
    by (simp add: clamp01_def Math_min_def Math_max_def)
qed

lemma root_bounds:
  fixes x p q lo hi :: real
  assumes "0 < p" "p ^ 12 \<le> lo ^ 5" "0 < lo" "lo \<le> x" "x \<le> hi" "hi ^ 5 \<le> q ^ 12" "0 < q"
  shows "p \<le> x powr (1 / 2.4)" "x powr (1 / 2.4) \<le> q"
proof -
  have x: "0 < x" using assms by linarith
  have e: "x powr (1 / 2.4) = (x ^ 5) powr (1 / 12)"
  proof -
    have "(x ^ 5) powr (1 / 12) = (x powr 5) powr (1 / 12)" using x by simp
    also have "\<dots> = x powr (5 * (1 / 12))" by (rule powr_powr)
    finally show ?thesis by simp
  qed
  have r: "(y ^ 12) powr (1 / 12) = y" if "0 < y" for y :: real
  proof -
    have "(y ^ 12) powr (1 / 12) = (y powr 12) powr (1 / 12)" using that by simp
    also have "\<dots> = y powr (12 * (1 / 12))" by (rule powr_powr)
    finally show ?thesis using that by simp
  qed
  have "lo ^ 5 \<le> x ^ 5" using assms by (intro power_mono) simp_all
  with assms have "p ^ 12 \<le> x ^ 5" by linarith
  then have "(p ^ 12) powr (1 / 12) \<le> (x ^ 5) powr (1 / 12)"
    by (intro powr_mono2) simp_all
  then show "p \<le> x powr (1 / 2.4)" by (simp only: e r[OF assms(1)])
  have "x ^ 5 \<le> hi ^ 5" using assms x by (intro power_mono) simp_all
  with assms have "x ^ 5 \<le> q ^ 12" by linarith
  then have "(x ^ 5) powr (1 / 12) \<le> (q ^ 12) powr (1 / 12)"
    using x by (intro powr_mono2) simp_all
  then show "x powr (1 / 2.4) \<le> q" by (simp only: e r[OF assms(7)])
qed

lemma cube_bounds:
  fixes x lo hi :: real
  assumes "0 \<le> lo" "lo \<le> x" "x \<le> hi"
  shows "lo ^ 3 \<le> x ^ 3" "x ^ 3 \<le> hi ^ 3"
  using assms by (auto intro: power_mono)

lemma hue_bounds:
  "5099 / 10000 \<le> (2923 / 100 :: real) * pi / 180" "(2923 / 100 :: real) * pi / 180 \<le> 51023 / 100000"
  using pi_bounds by simp_all

lemma hue_cos: "109079 / 125000 \<le> cos (2923 / 100 * pi / 180)" "cos (2923 / 100 * pi / 180) \<le> 436397 / 500000"
proof -
  let ?t = "(2923 / 100 :: real) * pi / 180"
  have "cos (51023 / 100000) \<le> cos ?t"
    using hue_bounds pi_bounds by (intro cos_monotone_0_pi_le) simp_all
  moreover have "(109079 / 125000 :: real) \<le> 1 - (51023 / 100000)^2 / 2 + (51023 / 100000)^4 / 24 - (51023 / 100000)^6 / 720
      + (51023 / 100000)^8 / 40320 - (51023 / 100000)^10 / 3628800"
    by (simp add: power_divide)
  ultimately show "109079 / 125000 \<le> cos ?t" using cos_lower[of "51023 / 100000"] by linarith
  have "cos ?t \<le> cos (5099 / 10000)"
    using hue_bounds pi_bounds by (intro cos_monotone_0_pi_le) simp_all
  moreover have "1 - (5099 / 10000)^2 / 2 + (5099 / 10000)^4 / 24 - (5099 / 10000)^6 / 720
      + (5099 / 10000)^8 / 40320 + (5099 / 10000)^10 / 3628800 \<le> (436397 / 500000 :: real)"
    by (simp add: power_divide)
  ultimately show "cos ?t \<le> 436397 / 500000" using cos_upper[of "5099 / 10000"] by linarith
qed

lemma hue_sin: "488089 / 1000000 \<le> sin (2923 / 100 * pi / 180)" "sin (2923 / 100 * pi / 180) \<le> 244191 / 500000"
proof -
  let ?t = "(2923 / 100 :: real) * pi / 180"
  have "sin (5099 / 10000) \<le> sin ?t"
    using hue_bounds pi_bounds by (intro sin_monotone_2pi_le) simp_all
  moreover have "(488089 / 1000000 :: real) \<le> 5099 / 10000 - (5099 / 10000)^3 / 6 + (5099 / 10000)^5 / 120 - (5099 / 10000)^7 / 5040"
    by (simp add: power_divide)
  ultimately show "488089 / 1000000 \<le> sin ?t" using sin_lower[of "5099 / 10000"] by simp
  have "sin ?t \<le> sin (51023 / 100000)"
    using hue_bounds pi_bounds by (intro sin_monotone_2pi_le) simp_all
  moreover have "51023 / 100000 - (51023 / 100000)^3 / 6 + (51023 / 100000)^5 / 120 + (51023 / 100000)^7 / 5040 \<le> (244191 / 500000 :: real)"
    by (simp add: power_divide)
  ultimately show "sin ?t \<le> 244191 / 500000" using sin_upper[of "51023 / 100000"] by simp
qed

text \<open>
  Intervals for every intermediate value of the conversion of
  \<^verbatim>\<open>oklch(62.8% 0.25 29.23)\<close>.
\<close>

lemma example_ab:
  "109079 / 500000 \<le> oklab_a (1 / 4) (2923 / 100)" "oklab_a (1 / 4) (2923 / 100) \<le> 218199 / 1000000"
  "61011 / 500000 \<le> oklab_b (1 / 4) (2923 / 100)" "oklab_b (1 / 4) (2923 / 100) \<le> 7631 / 62500"
  using hue_cos hue_sin by (simp_all add: oklab_a_def oklab_b_def)

lemma example_lms:
  fixes a b :: real
  assumes "109079 / 500000 \<le> a" "a \<le> 218199 / 1000000" "61011 / 500000 \<le> b" "b \<le> 7631 / 62500"
  shows "740797 / 1000000 \<le> lms_l (628 / 1000) a b" "lms_l (628 / 1000) a b \<le> 74083 / 100000"
    "59717 / 100000 \<le> lms_m (628 / 1000) a b" "lms_m (628 / 1000) a b \<le> 29859 / 50000"
    "450789 / 1000000 \<le> lms_s (628 / 1000) a b" "lms_s (628 / 1000) a b \<le> 450889 / 1000000"
  using assms by (simp_all add: lms_l_def lms_m_def lms_s_def)

lemma example_cubes:
  fixes x y z :: real
  assumes "740797 / 1000000 \<le> x" "x \<le> 74083 / 100000" "59717 / 100000 \<le> y" "y \<le> 29859 / 50000" "450789 / 1000000 \<le> z" "z \<le> 450889 / 1000000"
  shows "203267 / 500000 \<le> x ^ 3" "x ^ 3 \<le> 40659 / 100000" "212957 / 1000000 \<le> y ^ 3" "y ^ 3 \<le> 212969 / 1000000"
    "18321 / 200000 \<le> z ^ 3" "z ^ 3 \<le> 91667 / 1000000"
proof -
  have "(740797 / 1000000 :: real) ^ 3 \<le> x ^ 3" "x ^ 3 \<le> (74083 / 100000) ^ 3"
    using assms by (auto intro: cube_bounds)
  moreover have "(203267 / 500000 :: real) \<le> (740797 / 1000000) ^ 3" "(74083 / 100000 :: real) ^ 3 \<le> 40659 / 100000"
    by (simp_all add: power_divide)
  ultimately show "203267 / 500000 \<le> x ^ 3" "x ^ 3 \<le> 40659 / 100000" by linarith+
  have "(59717 / 100000 :: real) ^ 3 \<le> y ^ 3" "y ^ 3 \<le> (29859 / 50000) ^ 3"
    using assms by (auto intro: cube_bounds)
  moreover have "(212957 / 1000000 :: real) \<le> (59717 / 100000) ^ 3" "(29859 / 50000 :: real) ^ 3 \<le> 212969 / 1000000"
    by (simp_all add: power_divide)
  ultimately show "212957 / 1000000 \<le> y ^ 3" "y ^ 3 \<le> 212969 / 1000000" by linarith+
  have "(450789 / 1000000 :: real) ^ 3 \<le> z ^ 3" "z ^ 3 \<le> (450889 / 1000000) ^ 3"
    using assms by (auto intro: cube_bounds)
  moreover have "(18321 / 200000 :: real) \<le> (450789 / 1000000) ^ 3" "(450889 / 1000000 :: real) ^ 3 \<le> 91667 / 1000000"
    by (simp_all add: power_divide)
  ultimately show "18321 / 200000 \<le> z ^ 3" "z ^ 3 \<le> 91667 / 1000000" by linarith+
qed

lemma example_linear:
  fixes l m s :: real
  assumes "203267 / 500000 \<le> l" "l \<le> 40659 / 100000" "212957 / 1000000 \<le> m" "m \<le> 212969 / 1000000" "18321 / 200000 \<le> s" "s \<le> 91667 / 1000000"
  shows "243513 / 250000 \<le> lin_r l m s" "lin_r l m s \<le> 194867 / 200000"
    "1093 / 125000 \<le> lin_g l m s" "lin_g l m s \<le> 2217 / 250000"
    "4913 / 1000000 \<le> lin_b l m s" "lin_b l m s \<le> 5029 / 1000000"
  using assms by (simp_all add: lin_r_def lin_g_def lin_b_def)

lemma gamma_bounds:
  fixes x p q lo hi :: real
  assumes "0 < p" "p ^ 12 \<le> lo ^ 5" "0 < lo" "lo \<le> x" "x \<le> hi" "hi ^ 5 \<le> q ^ 12" "0 < q"
  shows "1055 / 1000 * p - 55 / 1000 \<le> gamma x" "gamma x \<le> 1055 / 1000 * q - 55 / 1000"
  using root_bounds[OF assms] by (simp_all add: gamma_def)

lemma example_gamma:
  fixes r g b :: real
  assumes "243513 / 250000 \<le> r" "r \<le> 194867 / 200000" "1093 / 125000 \<le> g" "g \<le> 2217 / 250000" "4913 / 1000000 \<le> b" "b \<le> 5029 / 1000000"
  shows "9885 / 10000 \<le> gamma r" "gamma r \<le> 9888 / 10000"
    "913 / 10000 \<le> gamma g" "gamma g \<le> 924 / 10000"
    "601 / 10000 \<le> gamma b" "gamma b \<le> 614 / 10000"
proof -
  have "1055 / 1000 * (9891 / 10000) - 55 / 1000 \<le> gamma r \<and> gamma r \<le> 1055 / 1000 * (9893 / 10000) - 55 / 1000"
    using assms(1,2)
    by (intro conjI gamma_bounds[where lo = "243513 / 250000" and hi = "194867 / 200000" and p = "9891 / 10000" and q = "9893 / 10000"])
      (simp_all add: power_divide)
  then show "9885 / 10000 \<le> gamma r" "gamma r \<le> 9888 / 10000" by simp_all
  have "1055 / 1000 * (1387 / 10000) - 55 / 1000 \<le> gamma g \<and> gamma g \<le> 1055 / 1000 * (1397 / 10000) - 55 / 1000"
    using assms(3,4)
    by (intro conjI gamma_bounds[where lo = "1093 / 125000" and hi = "2217 / 250000" and p = "1387 / 10000" and q = "1397 / 10000"])
      (simp_all add: power_divide)
  then show "913 / 10000 \<le> gamma g" "gamma g \<le> 924 / 10000" by simp_all
  have "1055 / 1000 * (1091 / 10000) - 55 / 1000 \<le> gamma b \<and> gamma b \<le> 1055 / 1000 * (1103 / 10000) - 55 / 1000"
    using assms(5,6)
    by (intro conjI gamma_bounds[where lo = "4913 / 1000000" and hi = "5029 / 1000000" and p = "1091 / 10000" and q = "1103 / 10000"])
      (simp_all add: power_divide)
  then show "601 / 10000 \<le> gamma b" "gamma b \<le> 614 / 10000" by simp_all
qed

lemma oklch_example:
  "\<exists>r g b. oklchToRgba (Fin (628 / 1000)) (Fin (1 / 4)) (Fin (2923 / 100)) (Fin 1) =
      \<lparr>col_r = Fin r, col_g = Fin g, col_b = Fin b, col_a = Fin 1\<rparr> \<and>
      9885 / 10000 \<le> r \<and> r \<le> 9888 / 10000 \<and> 913 / 10000 \<le> g \<and> g \<le> 924 / 10000 \<and>
      601 / 10000 \<le> b \<and> b \<le> 614 / 10000"
proof -
  define a where "a = oklab_a (1 / 4) (2923 / 100)"
  define b where "b = oklab_b (1 / 4) (2923 / 100)"
  define l where "l = (lms_l (628 / 1000) a b) ^ 3"
  define m where "m = (lms_m (628 / 1000) a b) ^ 3"
  define s where "s = (lms_s (628 / 1000) a b) ^ 3"
  note ab = example_ab[folded a_def b_def]
  note lms = example_lms[OF ab]
  note cubes = example_cubes[OF lms, folded l_def m_def s_def]
  note lin = example_linear[OF cubes]
  note gam = example_gamma[OF lin]
  have r: "clamp01 (linearToSrgb (Fin (lin_r l m s))) = Fin (gamma (lin_r l m s))"
    using lin(1) gam(1,2) by (intro channel_Fin) simp_all
  have g: "clamp01 (linearToSrgb (Fin (lin_g l m s))) = Fin (gamma (lin_g l m s))"
    using lin(3) gam(3,4) by (intro channel_Fin) simp_all
  have b: "clamp01 (linearToSrgb (Fin (lin_b l m s))) = Fin (gamma (lin_b l m s))"
    using lin(5) gam(5,6) by (intro channel_Fin) simp_all
  have "oklchToRgba (Fin (628 / 1000)) (Fin (1 / 4)) (Fin (2923 / 100)) (Fin 1) =
      \<lparr>col_r = Fin (gamma (lin_r l m s)), col_g = Fin (gamma (lin_g l m s)),
       col_b = Fin (gamma (lin_b l m s)), col_a = Fin 1\<rparr>"
    unfolding oklchToRgba_Fin Let_def
    by (simp only: a_def[symmetric] b_def[symmetric] l_def[symmetric] m_def[symmetric]
        s_def[symmetric] r g b)
  with gam show ?thesis by blast
qed

lemma parse_oklch_example:
  "parseColorValue ''oklch(62.8% 0.25 29.23)'' =
     Inr (Some (oklchToRgba (Fin (628 / 1000)) (Fin (1 / 4)) (Fin (2923 / 100)) (Fin 1)))"
proof -
  have t: "toLowerCase (trim ''oklch(62.8% 0.25 29.23)'') = ''oklch(62.8% 0.25 29.23)''"
    by code_simp
  have m: "rx_match oklch_rx ''oklch(62.8% 0.25 29.23)'' =
      Some [(3, ''29.23''), (2, ''0.25''), (1, ''62.8'')]"
    by code_simp
  have p: "parseFloat ''62.8'' = Fin (628 / 10)" "parseFloat ''0.25'' = Fin (1 / 4)"
    "parseFloat ''29.23'' = Fin (2923 / 100)"
    by code_simp+
  show ?thesis
    by (simp add: parseColorValue_def Let_def t m grp_def p alpha_of_def num_gt_def)
qed

section \<open>The range of the channels\<close>

text \<open>
  Claim C1.  Every color returned by \<^verbatim>\<open>parseColorValue\<close> should have its four
  channels between \<open>0\<close> and \<open>1\<close>.  The oklch and hsl paths return the alpha they
  parsed as it is, while the rgb path clamps it: for
  \<^verbatim>\<open>oklch(0.5 0.1 200 / 5)\<close> the result is a color whose alpha is \<open>5\<close>.
\<close>

theorem parseColorValue_alpha_unclamped:
  "\<exists>c. parseColorValue ''oklch(0.5 0.1 200 / 5)'' = Inr (Some c) \<and> col_a c = Fin 5 \<and>
     \<not> in_unit (col_a c)"
proof -
  have t: "toLowerCase (trim ''oklch(0.5 0.1 200 / 5)'') = ''oklch(0.5 0.1 200 / 5)''"
    by code_simp
  have m: "rx_match oklch_rx ''oklch(0.5 0.1 200 / 5)'' =
      Some [(4, ''5''), (3, ''200''), (2, ''0.1''), (1, ''0.5'')]"
    by code_simp
  have a: "alpha_of (Some ''5'') = Fin 5" by code_simp
  have "col_a (oklchToRgba L C H alpha) = alpha" for L C H alpha
    by (simp add: oklchToRgba_def Let_def)
  then show ?thesis
    by (simp add: parseColorValue_def t m grp_def a in_unit_def num_le_def Let_def)
qed

section \<open>A reference color\<close>

text \<open>
  Claim C2, as stated, fails: the channels that \<^verbatim>\<open>parseColorValue\<close> returns for
  \<^verbatim>\<open>oklch(62.8% 0.25 29.23)\<close> are not within \<open>0.01\<close> of \<open>0.9999\<close>, \<open>0.2253\<close> and
  \<open>0.1253\<close>; the green channel is below \<open>0.0924\<close>.
\<close>

theorem oklch_reference_red_counterexample:
  "\<not> approx_rgb (parseColorValue ''oklch(62.8% 0.25 29.23)'') 0.9999 0.2253 0.1253 0.01"
proof -
  obtain r g b where
    "oklchToRgba (Fin (628 / 1000)) (Fin (1 / 4)) (Fin (2923 / 100)) (Fin 1) =
      \<lparr>col_r = Fin r, col_g = Fin g, col_b = Fin b, col_a = Fin 1\<rparr>"
    and "g \<le> 924 / 10000"
    using oklch_example by blast
  then show ?thesis
    by (simp add: parse_oklch_example approx_rgb_def near_def)
qed

text \<open>
  Claim C2, amended.  For \<^verbatim>\<open>oklch(62.8% 0.25 29.23)\<close> the lightness \<open>62.8\<close> is above
  \<open>1\<close> and is divided by \<open>100\<close>, the result is that of \<^verbatim>\<open>oklchToRgba\<close> at
  \<open>0.628\<close>, \<open>0.25\<close>, \<open>29.23\<close> with alpha \<open>1\<close>, and its red, green and blue channels are
  within \<open>0.01\<close> of \<open>0.9886\<close>, \<open>0.0919\<close> and \<open>0.0605\<close>.
\<close>

theorem oklch_reference_red:
  "parseColorValue ''oklch(62.8% 0.25 29.23)'' =
     Inr (Some (oklchToRgba (Fin 0.628) (Fin 0.25) (Fin 29.23) (Fin 1))) \<and>
   approx_rgb (parseColorValue ''oklch(62.8% 0.25 29.23)'') 0.9886 0.0919 0.0605 0.01"
proof -
  obtain r g b where
    "oklchToRgba (Fin (628 / 1000)) (Fin (1 / 4)) (Fin (2923 / 100)) (Fin 1) =
      \<lparr>col_r = Fin r, col_g = Fin g, col_b = Fin b, col_a = Fin 1\<rparr>"
    and "9885 / 10000 \<le> r" "r \<le> 9888 / 10000" "913 / 10000 \<le> g" "g \<le> 924 / 10000"
      "601 / 10000 \<le> b" "b \<le> 614 / 10000"
    using oklch_example by blast
  moreover from this have "\<bar>r - 9886 / 10000\<bar> \<le> 1 / 100" "\<bar>g - 919 / 10000\<bar> \<le> 1 / 100"
    "\<bar>b - 605 / 10000\<bar> \<le> 1 / 100"
    by linarith+
  ultimately show ?thesis
    by (simp add: parse_oklch_example approx_rgb_def near_def)
qed

section \<open>Values that are not colors\<close>

text \<open>
  Claim C3, as stated, fails.  The values \<^verbatim>\<open>#12345\<close> and \<^verbatim>\<open>rgb(123)\<close> are none of the
  documented syntaxes, yet \<^verbatim>\<open>parseColorValue\<close> returns a color for each: every value
  that starts with \<^verbatim>\<open>#\<close> goes to \<^verbatim>\<open>hexToRgba\<close>, which checks neither length nor
  digits, and the pattern for \<^verbatim>\<open>rgb\<close> needs no separator between the channels.  The
  value \<^verbatim>\<open>constructor\<close> is none of the syntaxes either, and for it the lookup in the
  table of named colors finds an inherited property, so that \<^verbatim>\<open>hexToRgba\<close> throws.
\<close>

theorem parseColorValue_undocumented:
  "\<not> documented_syntax ''#12345'' \<and>
   parseColorValue ''#12345'' =
     Inr (Some \<lparr>col_r = Fin (18 / 255), col_g = Fin (52 / 255), col_b = Fin (5 / 255),
                col_a = Fin 1\<rparr>) \<and>
   \<not> documented_syntax ''rgb(123)'' \<and>
   parseColorValue ''rgb(123)'' =
     Inr (Some \<lparr>col_r = Fin (1 / 255), col_g = Fin (2 / 255), col_b = Fin (3 / 255),
                col_a = Fin 1\<rparr>) \<and>
   \<not> documented_syntax ''constructor'' \<and>
   parseColorValue ''constructor'' = Inl TypeError"
  by code_simp

text \<open>
  Claim C3, amended.  Let \<open>v\<close> be the input, trimmed and in lower case.
  \<^verbatim>\<open>parseColorValue\<close> returns \<^verbatim>\<open>null\<close> when \<open>v\<close> holds none of the texts \<^verbatim>\<open>oklch(\<close>,
  \<^verbatim>\<open>hsl(\<close> and \<^verbatim>\<open>hsla(\<close>, does not both start with \<^verbatim>\<open>rgb\<close> and hold \<^verbatim>\<open>rgb(\<close> or
  \<^verbatim>\<open>rgba(\<close>, does not start with \<^verbatim>\<open>#\<close>, and is not \<^verbatim>\<open>black\<close>, \<^verbatim>\<open>white\<close>,
  \<^verbatim>\<open>transparent\<close>, \<^verbatim>\<open>constructor\<close> or \<^verbatim>\<open>__proto__\<close>.  When \<open>v\<close> starts with \<^verbatim>\<open>#\<close> and
  holds none of \<^verbatim>\<open>oklch(\<close>, \<^verbatim>\<open>hsl(\<close>, \<^verbatim>\<open>hsla(\<close>, the result is the color that
  \<^verbatim>\<open>hexToRgba\<close> computes, whatever follows the \<^verbatim>\<open>#\<close>.  A \<^verbatim>\<open>color-\<close> variable whose
  value parses to \<^verbatim>\<open>null\<close> leaves the token set and the typography variables as they
  are, and the loop goes on with the remaining variables.  When no value of the list
  is \<^verbatim>\<open>constructor\<close> or \<^verbatim>\<open>__proto__\<close> once trimmed and in lower case,
  \<^verbatim>\<open>categorizeTokens\<close> returns, and the colors family holds one entry for each
  \<^verbatim>\<open>color-\<close> variable whose value is a color, in the order of the list, and no other.
\<close>

theorem parseColorValue_null:
  "(toLowerCase (trim s) = v \<and>
    \<not> includes_str v ''oklch('' \<and> \<not> includes_str v ''hsl('' \<and> \<not> includes_str v ''hsla('' \<and>
    (\<not> startsWith v ''rgb'' \<or> \<not> includes_str v ''rgb('' \<and> \<not> includes_str v ''rgba('') \<and>
    \<not> startsWith v ''#'' \<and> v \<noteq> ''black'' \<and> v \<noteq> ''white'' \<and> v \<noteq> ''transparent'' \<and>
    v \<noteq> ''constructor'' \<and> v \<noteq> ''__proto__'' \<longrightarrow> parseColorValue s = Inr None) \<and>
   (toLowerCase (trim s) = v \<and>
    \<not> includes_str v ''oklch('' \<and> \<not> includes_str v ''hsl('' \<and> \<not> includes_str v ''hsla('' \<and>
    startsWith v ''#'' \<longrightarrow> parseColorValue s = Inr (Some (hexToRgba v))) \<and>
   (startsWith (strip_dashes (cv_name w)) ''color-'' \<and> parseColorValue (cv_rawValue w) = Inr None \<longrightarrow>
      categorize_var vars w result tv = Inr (result, tv) \<and>
      categorize_loop vars (w # ws) result tv = categorize_loop vars ws result tv) \<and>
   (list_all (\<lambda>x. \<not> inherited_name (cv_rawValue x)) vars \<longrightarrow>
      (\<exists>ts. categorizeTokens vars = Inr ts \<and>
         map pc_rawValue (colors ts) = map cv_rawValue (filter has_color vars)))"
proof (intro conjI impI)
  assume a: "toLowerCase (trim s) = v \<and>
    \<not> includes_str v ''oklch('' \<and> \<not> includes_str v ''hsl('' \<and> \<not> includes_str v ''hsla('' \<and>
    (\<not> startsWith v ''rgb'' \<or> \<not> includes_str v ''rgb('' \<and> \<not> includes_str v ''rgba('') \<and>
    \<not> startsWith v ''#'' \<and> v \<noteq> ''black'' \<and> v \<noteq> ''white'' \<and> v \<noteq> ''transparent'' \<and>
    v \<noteq> ''constructor'' \<and> v \<noteq> ''__proto__''"
  then have v: "toLowerCase (trim s) = v"
    and h: "\<not> includes_str v ''oklch(''" "\<not> includes_str v ''hsl(''" "\<not> includes_str v ''hsla(''"
      "\<not> startsWith v ''rgb'' \<or> \<not> includes_str v ''rgb('' \<and> \<not> includes_str v ''rgba(''"
      "\<not> startsWith v ''#''"
    and n: "v \<noteq> ''black''" "v \<noteq> ''white''" "v \<noteq> ''transparent''"
      "v \<noteq> ''constructor''" "v \<noteq> ''__proto__''"
    by simp_all
  note 1 = no_oklch[OF h(1)]
  note 2 = no_hsl[OF h(2,3)]
  from h(4) have 3: "startsWith v ''rgb'' \<Longrightarrow> rgbStringToRgba v = None"
    by (auto simp: rgbStringToRgba_def no_rgb)
  from n named_Undefined[of "trim s"] have 4: "named v = Undefined" unfolding v by simp
  note 5 = h(5)
  show "parseColorValue s = Inr None"
    unfolding parseColorValue_def Let_def v using 3 by (simp add: 1 2 4 5)
next
  assume a: "toLowerCase (trim s) = v \<and>
    \<not> includes_str v ''oklch('' \<and> \<not> includes_str v ''hsl('' \<and> \<not> includes_str v ''hsla('' \<and>
    startsWith v ''#''"
  then have v: "toLowerCase (trim s) = v"
    and h: "\<not> includes_str v ''oklch(''" "\<not> includes_str v ''hsl(''" "\<not> includes_str v ''hsla(''"
    and 3: "startsWith v ''#''"
    by simp_all
  note 1 = no_oklch[OF h(1)]
  note 2 = no_hsl[OF h(2,3)]
  from 3 have 4: "\<not> startsWith v ''rgb''" by (cases v) (auto simp: startsWith_def)
  show "parseColorValue s = Inr (Some (hexToRgba v))"
    unfolding parseColorValue_def Let_def v by (simp add: 1 2 3 4)
next
  assume a: "startsWith (strip_dashes (cv_name w)) ''color-'' \<and> parseColorValue (cv_rawValue w) = Inr None"
  then show "categorize_var vars w result tv = Inr (result, tv)" by (simp add: categorize_var_skip)
  then show "categorize_loop vars (w # ws) result tv = categorize_loop vars ws result tv" by simp
next
  assume "list_all (\<lambda>x. \<not> inherited_name (cv_rawValue x)) vars"
  then show "\<exists>ts. categorizeTokens vars = Inr ts \<and>
         map pc_rawValue (colors ts) = map cv_rawValue (filter has_color vars)"
    by (rule categorizeTokens_colors)
qed

text \<open>The value \<^verbatim>\<open>Not-A-Color\<close> between spaces, the value \<^verbatim>\<open>#12345\<close>, a list in which
  a radius follows a color that does not parse, and a list with two \<^verbatim>\<open>color-\<close>
  variables of which one parses.\<close>

theorem parseColorValue_null_witness:
  "toLowerCase (trim '' Not-A-Color '') = ''not-a-color'' \<and>
   \<not> includes_str ''not-a-color'' ''oklch('' \<and> \<not> includes_str ''not-a-color'' ''hsl('' \<and>
   \<not> includes_str ''not-a-color'' ''hsla('' \<and> \<not> startsWith ''not-a-color'' ''rgb'' \<and>
   \<not> startsWith ''not-a-color'' ''#'' \<and>
   parseColorValue '' Not-A-Color '' = Inr None \<and>
   toLowerCase (trim ''#12345'') = ''#12345'' \<and>
   \<not> includes_str ''#12345'' ''oklch('' \<and> \<not> includes_str ''#12345'' ''hsl('' \<and>
   \<not> includes_str ''#12345'' ''hsla('' \<and> startsWith ''#12345'' ''#'' \<and>
   parseColorValue ''#12345'' = Inr (Some (hexToRgba ''#12345'')) \<and>
   startsWith (strip_dashes ''--color-x'') ''color-'' \<and>
   categorize_loop
     [\<lparr>cv_name = ''--color-x'', cv_rawValue = '' Not-A-Color ''\<rparr>, \<lparr>cv_name = ''--radius-sm'', cv_rawValue = ''4px''\<rparr>]
     [\<lparr>cv_name = ''--color-x'', cv_rawValue = '' Not-A-Color ''\<rparr>, \<lparr>cv_name = ''--radius-sm'', cv_rawValue = ''4px''\<rparr>]
     empty_token_set undefined_vars =
   Inr (empty_token_set\<lparr>radius := [\<lparr>pf_path = [''sm''], pf_value = Fin 4, pf_rawValue = ''4px''\<rparr>]\<rparr>,
        undefined_vars) \<and>
   \<not> inherited_name '' Not-A-Color '' \<and> \<not> inherited_name ''#fff'' \<and> \<not> inherited_name ''4px'' \<and>
   map cv_rawValue (filter has_color
     [\<lparr>cv_name = ''--color-x'', cv_rawValue = '' Not-A-Color ''\<rparr>,
      \<lparr>cv_name = ''--color-y'', cv_rawValue = ''#fff''\<rparr>,
      \<lparr>cv_name = ''--radius-sm'', cv_rawValue = ''4px''\<rparr>]) = [''#fff''] \<and>
   map_option (\<lambda>ts. map pc_rawValue (colors ts)) (returned (categorizeTokens
     [\<lparr>cv_name = ''--color-x'', cv_rawValue = '' Not-A-Color ''\<rparr>,
      \<lparr>cv_name = ''--color-y'', cv_rawValue = ''#fff''\<rparr>,
      \<lparr>cv_name = ''--radius-sm'', cv_rawValue = ''4px''\<rparr>])) = Some [''#fff'']"
proof -
  let ?v = "\<lparr>cv_name = ''--color-x'', cv_rawValue = '' Not-A-Color ''\<rparr>"
  let ?y = "\<lparr>cv_name = ''--color-y'', cv_rawValue = ''#fff''\<rparr>"
  let ?w = "\<lparr>cv_name = ''--radius-sm'', cv_rawValue = ''4px''\<rparr>"
  have 1: "toLowerCase (trim '' Not-A-Color '') = ''not-a-color''"
    "\<not> includes_str ''not-a-color'' ''oklch(''" "\<not> includes_str ''not-a-color'' ''hsl(''"
    "\<not> includes_str ''not-a-color'' ''hsla(''" "\<not> startsWith ''not-a-color'' ''rgb''"
    "\<not> startsWith ''not-a-color'' ''#''"
    by code_simp+
  have 2: "toLowerCase (trim ''#12345'') = ''#12345''"
    "\<not> includes_str ''#12345'' ''oklch(''" "\<not> includes_str ''#12345'' ''hsl(''"
    "\<not> includes_str ''#12345'' ''hsla(''" "startsWith ''#12345'' ''#''"
    by code_simp+
  have 3: "startsWith (strip_dashes ''--color-x'') ''color-''"
    by code_simp
  have 4: "categorize_loop [?v, ?w] [?w] empty_token_set undefined_vars =
    Inr (empty_token_set\<lparr>radius := [\<lparr>pf_path = [''sm''], pf_value = Fin 4, pf_rawValue = ''4px''\<rparr>]\<rparr>,
         undefined_vars)"
    by code_simp
  have 5: "\<not> inherited_name '' Not-A-Color ''" "\<not> inherited_name ''#fff''" "\<not> inherited_name ''4px''"
    by code_simp+
  have 6: "map cv_rawValue (filter has_color [?v, ?y, ?w]) = [''#fff'']" by code_simp
  note t1 = parseColorValue_null[where v = "''not-a-color''" and s = "'' Not-A-Color ''" and w = ?v
      and vars = "[?v, ?w]" and result = empty_token_set and tv = undefined_vars and ws = "[?w]"]
  note t2 = parseColorValue_null[where v = "''#12345''" and s = "''#12345''"]
  note t3 = parseColorValue_null[where vars = "[?v, ?y, ?w]"]
  from t1 1 have n: "parseColorValue '' Not-A-Color '' = Inr None" by simp
  from t2 2 have h: "parseColorValue ''#12345'' = Inr (Some (hexToRgba ''#12345''))" by simp
  from t1 3 n have "categorize_loop [?v, ?w] (?v # [?w]) empty_token_set undefined_vars =
      categorize_loop [?v, ?w] [?w] empty_token_set undefined_vars"
    by simp
  with 4 have 7: "categorize_loop [?v, ?w] [?v, ?w] empty_token_set undefined_vars =
    Inr (empty_token_set\<lparr>radius := [\<lparr>pf_path = [''sm''], pf_value = Fin 4, pf_rawValue = ''4px''\<rparr>]\<rparr>,
         undefined_vars)"
    by simp
  have la: "list_all (\<lambda>x. \<not> inherited_name (cv_rawValue x)) [?v, ?y, ?w]" using 5 by simp
  from t3 la have "\<exists>ts. categorizeTokens [?v, ?y, ?w] = Inr ts \<and>
      map pc_rawValue (colors ts) = map cv_rawValue (filter has_color [?v, ?y, ?w])"
    by blast
  then obtain ts where ts: "categorizeTokens [?v, ?y, ?w] = Inr ts"
    "map pc_rawValue (colors ts) = map cv_rawValue (filter has_color [?v, ?y, ?w])"
    by blast
  from ts(2) have "map pc_rawValue (colors ts) = [''#fff'']" unfolding 6 .
  with ts(1) have 8: "map_option (\<lambda>ts. map pc_rawValue (colors ts))
      (returned (categorizeTokens [?v, ?y, ?w])) = Some [''#fff'']"
    by (simp add: returned_def)
  from 1 2 3 5 n h 7 show ?thesis unfolding 6 8 by simp
qed

text \<open>
  Claim C4.  When \<^verbatim>\<open>categorizeTokens\<close> returns and exactly one variable is named
  \<^verbatim>\<open>spacing\<close> with a dimension \<open>b\<close> that parses, the spacing family is the table of
  the 33 steps \<open>0.5, 1, 1.5, 2, \<dots>, 96\<close>: the value of an entry is its step times \<open>b\<close>
  and its path is the step written in decimal with the point replaced by an
  underscore.  For \<^verbatim>\<open>--spacing: 4px\<close> the family has 33 entries, and the entry of step
  4 (the eighth) has the path \<^verbatim>\<open>4\<close> and the value 16.
\<close>

theorem spacing_scale:
  "(categorizeTokens vars = Inr ts \<and> filter is_spacing_base vars = [v] \<and>
    parseDimension (cv_rawValue v) = Some b \<longrightarrow>
      spacing ts = generateSpacingScale b \<and> length (spacing ts) = 33 \<and>
      map pf_value (spacing ts) = map (\<lambda>step. Fin step * b) steps \<and>
      map pf_path (spacing ts) = map (\<lambda>n. [n]) step_names) \<and>
   (\<exists>ts4. categorizeTokens [\<lparr>cv_name = ''--spacing'', cv_rawValue = ''4px''\<rparr>] = Inr ts4 \<and>
      length (spacing ts4) = 33 \<and>
      pf_path (spacing ts4 ! 7) = [''4''] \<and> pf_value (spacing ts4 ! 7) = Fin 16)"
proof (rule conjI, rule impI)
  assume a: "categorizeTokens vars = Inr ts \<and> filter is_spacing_base vars = [v] \<and>
    parseDimension (cv_rawValue v) = Some b"
  then have e: "spacing ts = generateSpacingScale b" using spacing_scale_general by blast
  have l: "length (generateSpacingScale b) = 33"
    by (simp add: generateSpacingScale_def length_steps)
  show "spacing ts = generateSpacingScale b \<and> length (spacing ts) = 33 \<and>
      map pf_value (spacing ts) = map (\<lambda>step. Fin step * b) steps \<and>
      map pf_path (spacing ts) = map (\<lambda>n. [n]) step_names"
    unfolding e using l generateSpacingScale_paths[of b] generateSpacingScale_values[of b]
    by simp
next
  let ?ex = "[\<lparr>cv_name = ''--spacing'', cv_rawValue = ''4px''\<rparr>]"
  obtain ts4 where ts4: "categorizeTokens ?ex = Inr ts4"
    using spacing_example(1) by (cases "categorizeTokens ?ex") auto
  have s: "spacing ts4 = generateSpacingScale (Fin 4)"
    by (rule spacing_scale_general[OF ts4 spacing_example(2)]) (simp add: spacing_example(3))
  have 1: "length (spacing ts4) = 33" by (simp add: s generateSpacingScale_def length_steps)
  have 2: "steps ! 7 = 4" by (simp add: steps_def)
  have 3: "Number_toString (Fin 4) = ''4''" by code_simp
  have 4: "generateSpacingScale (Fin 4) ! 7 =
      \<lparr>pf_path = [''4''], pf_value = Fin 16, pf_rawValue = ''16px''\<rparr>"
    by code_simp
  from ts4 1 4 show "\<exists>ts4. categorizeTokens ?ex = Inr ts4 \<and> length (spacing ts4) = 33 \<and>
      pf_path (spacing ts4 ! 7) = [''4''] \<and> pf_value (spacing ts4 ! 7) = Fin 16"
    by (simp add: s)
qed

text \<open>A base of \<^verbatim>\<open>0.25rem\<close>, that is 4 pixels, next to another variable.\<close>

theorem spacing_scale_witness:
  "categorizeTokens [\<lparr>cv_name = ''spacing'', cv_rawValue = ''0.25rem''\<rparr>,
      \<lparr>cv_name = ''--radius'', cv_rawValue = ''2px''\<rparr>] =
     Inr (empty_token_set\<lparr>spacing := generateSpacingScale (Fin 4),
       radius := [\<lparr>pf_path = [''default''], pf_value = Fin 2, pf_rawValue = ''2px''\<rparr>]\<rparr>) \<and>
   filter is_spacing_base [\<lparr>cv_name = ''spacing'', cv_rawValue = ''0.25rem''\<rparr>,
      \<lparr>cv_name = ''--radius'', cv_rawValue = ''2px''\<rparr>] =
     [\<lparr>cv_name = ''spacing'', cv_rawValue = ''0.25rem''\<rparr>] \<and>
   parseDimension (cv_rawValue \<lparr>cv_name = ''spacing'', cv_rawValue = ''0.25rem''\<rparr>) = Some (Fin 4) \<and>
   length (generateSpacingScale (Fin 4)) = 33 \<and>
   map pf_value (generateSpacingScale (Fin 4)) = map (\<lambda>step. Fin step * Fin 4) steps \<and>
   map pf_path (generateSpacingScale (Fin 4)) = map (\<lambda>n. [n]) step_names"
proof -
  let ?v = "\<lparr>cv_name = ''spacing'', cv_rawValue = ''0.25rem''\<rparr>"
  let ?ex = "[?v, \<lparr>cv_name = ''--radius'', cv_rawValue = ''2px''\<rparr>]"
  let ?ts = "empty_token_set\<lparr>spacing := generateSpacingScale (Fin 4),
       radius := [\<lparr>pf_path = [''default''], pf_value = Fin 2, pf_rawValue = ''2px''\<rparr>]\<rparr>"
  have 1: "categorizeTokens ?ex = Inr ?ts" by code_simp
  have 2: "filter is_spacing_base ?ex = [?v]" by code_simp
  have 3: "parseDimension (cv_rawValue ?v) = Some (Fin 4)" by code_simp
  from spacing_scale[of ?ex ?ts ?v "Fin 4"] 1 2 3
  have "spacing ?ts = generateSpacingScale (Fin 4) \<and> length (spacing ?ts) = 33 \<and>
      map pf_value (spacing ?ts) = map (\<lambda>step. Fin step * Fin 4) steps \<and>
      map pf_path (spacing ?ts) = map (\<lambda>n. [n]) step_names"
    by blast
  with 1 2 3 show ?thesis by simp
qed

section \<open>Typography tokens\<close>

text \<open>
  Claim C5, as stated, fails.  With \<^verbatim>\<open>--text-sm--line-height: calc(1 / 0)\<close> the
  line height is absent, since a denominator \<open>0\<close> is refused; \<^verbatim>\<open>--text-shadowed\<close>
  makes no typography token, since its name contains \<^verbatim>\<open>shadow\<close>; and of two
  variables named \<^verbatim>\<open>--text-sm--line-height\<close> the first one is used, here \<open>1.5\<close>
  and not the ratio of the second.
\<close>

theorem typography_line_height_counterexample:
  "map_option typography (returned (categorizeTokens
      [\<lparr>cv_name = ''--text-sm'', cv_rawValue = ''14px''\<rparr>,
       \<lparr>cv_name = ''--text-sm--line-height'', cv_rawValue = ''calc(1 / 0)''\<rparr>])) =
     Some [\<lparr>pt_name = ''sm'', pt_fontSize = Fin 14, pt_lineHeight = None,
            pt_letterSpacing = None, pt_fontWeight = None, pt_rawValue = ''14px''\<rparr>] \<and>
   map_option typography (returned (categorizeTokens
      [\<lparr>cv_name = ''--text-shadowed'', cv_rawValue = ''14px''\<rparr>,
       \<lparr>cv_name = ''--text-shadowed--line-height'', cv_rawValue = ''calc(1.25 / 0.875)''\<rparr>])) =
     Some [] \<and>
   map_option typography (returned (categorizeTokens
      [\<lparr>cv_name = ''--text-sm'', cv_rawValue = ''14px''\<rparr>,
       \<lparr>cv_name = ''--text-sm--line-height'', cv_rawValue = ''1.5''\<rparr>,
       \<lparr>cv_name = ''--text-sm--line-height'', cv_rawValue = ''calc(1.25 / 0.875)''\<rparr>])) =
     Some [\<lparr>pt_name = ''sm'', pt_fontSize = Fin 14, pt_lineHeight = Some (Fin 1.5),
            pt_letterSpacing = None, pt_fontWeight = None, pt_rawValue = ''14px''\<rparr>]"
  by code_simp

text \<open>
  Claim C5, amended.  Let \<^verbatim>\<open>categorizeTokens\<close> return, and let the list hold a variable
  \<^verbatim>\<open>--text-<size>\<close> with a dimension that parses, whose name holds no \<^verbatim>\<open>shadow\<close> and
  does not end as a modifier, and let \<open>lh\<close> be the first variable of the list named
  \<^verbatim>\<open>--text-<size>--line-height\<close>.  If the value of \<open>lh\<close> is \<^verbatim>\<open>calc(A / B)\<close>, where \<open>A\<close> and
  \<open>B\<close> are made of digits and points and the number \<open>B\<close> is not \<open>0\<close>, there is a
  typography token named \<^verbatim>\<open><size>\<close> whose font size is the dimension and whose line
  height is \<open>A / B\<close>.  If the value of \<open>lh\<close> holds no digit, no point and not the text
  \<^verbatim>\<open>Infinity\<close>, there is such a token whose line height is absent.  The typography
  tokens are those of the size variables, one for each in the order of the list, with
  its name and its font size: a modifier variable makes no token.  For
  \<^verbatim>\<open>--text-sm: 14px\<close> and \<^verbatim>\<open>--text-sm--line-height: calc(1.25 / 0.875)\<close> the token is
  named \<^verbatim>\<open>sm\<close>, with font size 14 and line height \<open>10/7\<close>, about 1.4286.
\<close>

theorem typography_line_height:
  "(categorizeTokens vars = Inr ts \<and> v \<in> set vars \<and> cv_name v = ''--text-'' @ sz \<and>
    parseDimension (cv_rawValue v) = Some d \<and>
    \<not> includes_str (''text-'' @ sz) ''shadow'' \<and> \<not> is_modifier (''text-'' @ sz) \<and>
    sibling vars (''text-'' @ sz) ''--line-height'' = Some lh \<longrightarrow>
      (A \<noteq> [] \<and> list_all dd A \<and> B \<noteq> [] \<and> list_all dd B \<and> parseFloat B \<noteq> Fin 0 \<and>
       cv_rawValue lh = ''calc('' @ A @ '' / '' @ B @ '')'' \<longrightarrow>
         (\<exists>t \<in> set (typography ts). pt_name t = sz \<and> pt_fontSize t = d \<and>
            pt_lineHeight t = Some (parseFloat A / parseFloat B) \<and>
            pt_rawValue t = cv_rawValue v)) \<and>
      (non_numeric (cv_rawValue lh) \<longrightarrow>
         (\<exists>t \<in> set (typography ts). pt_name t = sz \<and> pt_fontSize t = d \<and>
            pt_lineHeight t = None \<and> pt_rawValue t = cv_rawValue v))) \<and>
   (categorizeTokens vars = Inr ts \<longrightarrow>
      map pt_name (typography ts) = map size_name (filter is_text_size vars) \<and>
      map pt_fontSize (typography ts) =
        map (\<lambda>v. the (parseDimension (cv_rawValue v))) (filter is_text_size vars)) \<and>
   map_option typography (returned (categorizeTokens
      [\<lparr>cv_name = ''--text-sm'', cv_rawValue = ''14px''\<rparr>,
       \<lparr>cv_name = ''--text-sm--line-height'', cv_rawValue = ''calc(1.25 / 0.875)''\<rparr>])) =
     Some [\<lparr>pt_name = ''sm'', pt_fontSize = Fin 14, pt_lineHeight = Some (Fin (10 / 7)),
            pt_letterSpacing = None, pt_fontWeight = None, pt_rawValue = ''14px''\<rparr>] \<and>
   \<bar>10 / 7 - 1.4286 :: real\<bar> < 0.0001"
proof (rule conjI, rule impI, rule_tac [2] conjI, rule_tac [2] impI, rule_tac [3] conjI)
  assume a: "categorizeTokens vars = Inr ts \<and> v \<in> set vars \<and> cv_name v = ''--text-'' @ sz \<and>
    parseDimension (cv_rawValue v) = Some d \<and>
    \<not> includes_str (''text-'' @ sz) ''shadow'' \<and> \<not> is_modifier (''text-'' @ sz) \<and>
    sibling vars (''text-'' @ sz) ''--line-height'' = Some lh"
  then obtain result tv where
    l: "categorize_loop vars vars empty_token_set undefined_vars = Inr (result, tv)"
    and t: "typography ts = typography result"
    using categorizeTokens_typography by blast
  from a have n: "strip_dashes (cv_name v) = ''text-'' @ sz"
    using strip_dashes_dashes[of "''text-'' @ sz"] by simp
  have sw: "startsWith (strip_dashes (cv_name v)) ''text-''"
    unfolding n by (simp add: startsWith_def)
  have sn: "size_name v = sz"
    unfolding size_name_def n by (rule replace_first_prefix)
  from a have h: "v \<in> set vars" "\<not> includes_str (strip_dashes (cv_name v)) ''shadow''"
    "\<not> is_modifier (strip_dashes (cv_name v))" "parseDimension (cv_rawValue v) = Some d"
    "sibling vars (strip_dashes (cv_name v)) ''--line-height'' = Some lh"
    unfolding n by simp_all
  from categorize_loop_text[OF l h(1) sw h(2,3,4,5)] obtain tok where
    tok: "tok \<in> set (typography ts)" "pt_name tok = sz" "pt_fontSize tok = d"
      "pt_lineHeight tok = evaluateCalc (cv_rawValue lh)" "pt_rawValue tok = cv_rawValue v"
    unfolding t sn by blast
  show "(A \<noteq> [] \<and> list_all dd A \<and> B \<noteq> [] \<and> list_all dd B \<and> parseFloat B \<noteq> Fin 0 \<and>
       cv_rawValue lh = ''calc('' @ A @ '' / '' @ B @ '')'' \<longrightarrow>
         (\<exists>t \<in> set (typography ts). pt_name t = sz \<and> pt_fontSize t = d \<and>
            pt_lineHeight t = Some (parseFloat A / parseFloat B) \<and>
            pt_rawValue t = cv_rawValue v)) \<and>
      (non_numeric (cv_rawValue lh) \<longrightarrow>
         (\<exists>t \<in> set (typography ts). pt_name t = sz \<and> pt_fontSize t = d \<and>
            pt_lineHeight t = None \<and> pt_rawValue t = cv_rawValue v))"
  proof (rule conjI, rule_tac [!] impI)
    assume b: "A \<noteq> [] \<and> list_all dd A \<and> B \<noteq> [] \<and> list_all dd B \<and> parseFloat B \<noteq> Fin 0 \<and>
       cv_rawValue lh = ''calc('' @ A @ '' / '' @ B @ '')''"
    then have "evaluateCalc (cv_rawValue lh) = Some (parseFloat A / parseFloat B)"
      using evaluateCalc_ratio[of A B] by simp
    with tok show "\<exists>t \<in> set (typography ts). pt_name t = sz \<and> pt_fontSize t = d \<and>
            pt_lineHeight t = Some (parseFloat A / parseFloat B) \<and>
            pt_rawValue t = cv_rawValue v"
      by (intro bexI[of _ tok]) simp_all
  next
    assume "non_numeric (cv_rawValue lh)"
    then have "evaluateCalc (cv_rawValue lh) = None" by (rule evaluateCalc_absent)
    with tok show "\<exists>t \<in> set (typography ts). pt_name t = sz \<and> pt_fontSize t = d \<and>
            pt_lineHeight t = None \<and> pt_rawValue t = cv_rawValue v"
      by (intro bexI[of _ tok]) simp_all
  qed
next
  assume "categorizeTokens vars = Inr ts"
  then obtain result tv where
    l: "categorize_loop vars vars empty_token_set undefined_vars = Inr (result, tv)"
    and t: "typography ts = typography result"
    using categorizeTokens_typography by blast
  from categorize_loop_typography_names[OF l] categorize_loop_typography_sizes[OF l]
  show "map pt_name (typography ts) = map size_name (filter is_text_size vars) \<and>
      map pt_fontSize (typography ts) =
        map (\<lambda>v. the (parseDimension (cv_rawValue v))) (filter is_text_size vars)"
    by (simp add: t empty_token_set_def)
next
  show "map_option typography (returned (categorizeTokens
      [\<lparr>cv_name = ''--text-sm'', cv_rawValue = ''14px''\<rparr>,
       \<lparr>cv_name = ''--text-sm--line-height'', cv_rawValue = ''calc(1.25 / 0.875)''\<rparr>])) =
     Some [\<lparr>pt_name = ''sm'', pt_fontSize = Fin 14, pt_lineHeight = Some (Fin (10 / 7)),
            pt_letterSpacing = None, pt_fontWeight = None, pt_rawValue = ''14px''\<rparr>]"
    by (simp add: typography_example returned_def)
next
  show "\<bar>10 / 7 - 1.4286 :: real\<bar> < 0.0001" by simp
qed

text \<open>The example of the claim, and a line height \<^verbatim>\<open>normal\<close>.\<close>

theorem typography_line_height_witness:
  "categorizeTokens
      [\<lparr>cv_name = ''--text-sm'', cv_rawValue = ''14px''\<rparr>,
       \<lparr>cv_name = ''--text-sm--line-height'', cv_rawValue = ''calc(1.25 / 0.875)''\<rparr>] =
     Inr (empty_token_set\<lparr>typography :=
       [\<lparr>pt_name = ''sm'', pt_fontSize = Fin 14, pt_lineHeight = Some (Fin (10 / 7)),
         pt_letterSpacing = None, pt_fontWeight = None, pt_rawValue = ''14px''\<rparr>]\<rparr>) \<and>
   parseDimension ''14px'' = Some (Fin 14) \<and>
   \<not> includes_str ''text-sm'' ''shadow'' \<and> \<not> is_modifier ''text-sm'' \<and>
   sibling [\<lparr>cv_name = ''--text-sm'', cv_rawValue = ''14px''\<rparr>,
       \<lparr>cv_name = ''--text-sm--line-height'', cv_rawValue = ''calc(1.25 / 0.875)''\<rparr>]
     ''text-sm'' ''--line-height'' =
     Some \<lparr>cv_name = ''--text-sm--line-height'', cv_rawValue = ''calc(1.25 / 0.875)''\<rparr> \<and>
   list_all dd ''1.25'' \<and> list_all dd ''0.875'' \<and> parseFloat ''0.875'' \<noteq> Fin 0 \<and>
   parseFloat ''1.25'' / parseFloat ''0.875'' = Fin (10 / 7) \<and>
   map size_name (filter is_text_size
      [\<lparr>cv_name = ''--text-sm'', cv_rawValue = ''14px''\<rparr>,
       \<lparr>cv_name = ''--text-sm--line-height'', cv_rawValue = ''calc(1.25 / 0.875)''\<rparr>]) = [''sm''] \<and>
   categorizeTokens
      [\<lparr>cv_name = ''--text-lg'', cv_rawValue = ''18px''\<rparr>,
       \<lparr>cv_name = ''--text-lg--line-height'', cv_rawValue = ''normal''\<rparr>] =
     Inr (empty_token_set\<lparr>typography :=
       [\<lparr>pt_name = ''lg'', pt_fontSize = Fin 18, pt_lineHeight = None,
         pt_letterSpacing = None, pt_fontWeight = None, pt_rawValue = ''18px''\<rparr>]\<rparr>) \<and>
   parseDimension ''18px'' = Some (Fin 18) \<and>
   \<not> includes_str ''text-lg'' ''shadow'' \<and> \<not> is_modifier ''text-lg'' \<and>
   sibling [\<lparr>cv_name = ''--text-lg'', cv_rawValue = ''18px''\<rparr>,
       \<lparr>cv_name = ''--text-lg--line-height'', cv_rawValue = ''normal''\<rparr>]
     ''text-lg'' ''--line-height'' =
     Some \<lparr>cv_name = ''--text-lg--line-height'', cv_rawValue = ''normal''\<rparr> \<and>
   non_numeric ''normal'' \<and>
   map pt_lineHeight (typography (empty_token_set\<lparr>typography :=
       [\<lparr>pt_name = ''lg'', pt_fontSize = Fin 18, pt_lineHeight = None,
         pt_letterSpacing = None, pt_fontWeight = None, pt_rawValue = ''18px''\<rparr>]\<rparr>)) = [None]"
proof -
  let ?v = "\<lparr>cv_name = ''--text-sm'', cv_rawValue = ''14px''\<rparr>"
  let ?lh = "\<lparr>cv_name = ''--text-sm--line-height'', cv_rawValue = ''calc(1.25 / 0.875)''\<rparr>"
  let ?tok = "\<lparr>pt_name = ''sm'', pt_fontSize = Fin 14, pt_lineHeight = Some (Fin (10 / 7)),
         pt_letterSpacing = None, pt_fontWeight = None, pt_rawValue = ''14px''\<rparr>"
  let ?ts = "empty_token_set\<lparr>typography := [?tok]\<rparr>"
  let ?w = "\<lparr>cv_name = ''--text-lg'', cv_rawValue = ''18px''\<rparr>"
  let ?n = "\<lparr>cv_name = ''--text-lg--line-height'', cv_rawValue = ''normal''\<rparr>"
  let ?tok2 = "\<lparr>pt_name = ''lg'', pt_fontSize = Fin 18, pt_lineHeight = None,
         pt_letterSpacing = None, pt_fontWeight = None, pt_rawValue = ''18px''\<rparr>"
  let ?ts2 = "empty_token_set\<lparr>typography := [?tok2]\<rparr>"
  have 1: "categorizeTokens [?v, ?lh] = Inr ?ts" by (rule typography_example)
  have 2: "parseDimension ''14px'' = Some (Fin 14)" by code_simp
  have 3: "\<not> includes_str ''text-sm'' ''shadow''" "\<not> is_modifier ''text-sm''" by code_simp+
  have 4: "sibling [?v, ?lh] ''text-sm'' ''--line-height'' = Some ?lh" by code_simp
  have 5: "list_all dd ''1.25''" "list_all dd ''0.875''" by code_simp+
  have 6: "parseFloat ''0.875'' \<noteq> Fin 0" by code_simp
  have 7: "categorizeTokens [?w, ?n] = Inr ?ts2" by (rule typography_example_normal)
  have 8: "parseDimension ''18px'' = Some (Fin 18)" by code_simp
  have 9: "\<not> includes_str ''text-lg'' ''shadow''" "\<not> is_modifier ''text-lg''" by code_simp+
  have 10: "sibling [?w, ?n] ''text-lg'' ''--line-height'' = Some ?n" by code_simp
  have 11: "non_numeric ''normal''" by code_simp
  note t1 = typography_line_height[where vars = "[?v, ?lh]" and ts = ?ts and v = ?v
      and sz = "''sm''" and d = "Fin 14" and lh = ?lh and A = "''1.25''" and B = "''0.875''"]
  note t2 = typography_line_height[where vars = "[?w, ?n]" and ts = ?ts2 and v = ?w
      and sz = "''lg''" and d = "Fin 18" and lh = ?n]
  from t1 1 2 3 4 5 6 have "\<exists>t \<in> set (typography ?ts). pt_name t = ''sm'' \<and> pt_fontSize t = Fin 14 \<and>
      pt_lineHeight t = Some (parseFloat ''1.25'' / parseFloat ''0.875'') \<and> pt_rawValue t = ''14px''"
    by simp
  then have a: "parseFloat ''1.25'' / parseFloat ''0.875'' = Fin (10 / 7)" by simp
  from t1 1 have "map pt_name (typography ?ts) = map size_name (filter is_text_size [?v, ?lh])"
    by blast
  then have b: "map size_name (filter is_text_size [?v, ?lh]) = [''sm'']" by simp
  from t2 7 8 9 10 11 have "\<exists>t \<in> set (typography ?ts2). pt_name t = ''lg'' \<and> pt_fontSize t = Fin 18 \<and>
      pt_lineHeight t = None \<and> pt_rawValue t = ''18px''"
    by simp
  then have c: "map pt_lineHeight (typography ?ts2) = [None]" by simp
  from 1 2 3 4 5 6 7 8 9 10 11 a b c show ?thesis by simp
qed

section \<open>Splitting a shadow list\<close>

lemma top_level_pieces_ne: "top_level_pieces d s \<noteq> []"
  by (induction s arbitrary: d) (auto simp: Let_def split: list.splits)

lemma drop_blank_last_Cons: "ps \<noteq> [] \<Longrightarrow> drop_blank_last (p # ps) = p # drop_blank_last ps"
  by (simp add: drop_blank_last_def)

lemma split_loop_pieces:
  "split_loop s parts depth current =
   parts @ drop_blank_last ((current @ hd (top_level_pieces depth s)) # tl (top_level_pieces depth s))"
proof (induction s arbitrary: parts depth current)
  case Nil
  then show ?case by (simp add: drop_blank_last_def)
next
  case (Cons ch rest)
  define d' where "d' = (if ch = CHR ''('' then depth + 1 else if ch = CHR '')'' then depth - 1 else depth)"
  define T where "T = top_level_pieces d' rest"
  have T: "T \<noteq> []" by (simp add: T_def top_level_pieces_ne)
  then obtain p ps where Tp: "T = p # ps" by (cases T) auto
  have d'2: "(if ch = CHR '')'' then (if ch = CHR ''('' then depth + 1 else depth) - 1
              else (if ch = CHR ''('' then depth + 1 else depth)) = d'"
    by (simp add: d'_def)
  show ?case
  proof (cases "ch = CHR '','' \<and> d' = 0")
    case True
    have l: "split_loop (ch # rest) parts depth current = split_loop rest (parts @ [current]) d' []"
      using True by (auto simp: Let_def d'_def)
    have r: "top_level_pieces depth (ch # rest) = [] # T"
      using True by (auto simp: Let_def d'_def T_def)
    show ?thesis unfolding l r Cons.IH T_def[symmetric] using T
      by (simp add: Tp drop_blank_last_Cons)
  next
    case False
    have l: "split_loop (ch # rest) parts depth current = split_loop rest parts d' (current @ [ch])"
      using False by (auto simp: Let_def d'_def)
    have r: "top_level_pieces depth (ch # rest) = (ch # p) # ps"
      using False Tp by (auto simp: Let_def d'_def T_def)
    show ?thesis unfolding l r Cons.IH T_def[symmetric]
      by (simp add: Tp)
  qed
qed

text \<open>
  Claim C6.  \<^verbatim>\<open>splitShadowParts\<close> splits its input at exactly the commas at
  parenthesis depth \<open>0\<close>: its parts are the top-level pieces of the input, a blank
  last piece left out, so a comma inside a color function never separates two
  layers.  The shadow list of the specification has exactly two parts.
\<close>

theorem splitShadowParts_top_level:
  "splitShadowParts s = drop_blank_last (top_level_pieces 0 s) \<and>
   length (splitShadowParts
     ''0 1px 2px rgb(0,0,0,0.1), inset 0 0 0 1px oklch(0.5 0.1 200)'') = 2"
proof
  show "splitShadowParts s = drop_blank_last (top_level_pieces 0 s)"
    using top_level_pieces_ne[of 0 s]
    by (cases "top_level_pieces 0 s") (simp_all add: splitShadowParts_def split_loop_pieces)
  show "length (splitShadowParts
     ''0 1px 2px rgb(0,0,0,0.1), inset 0 0 0 1px oklch(0.5 0.1 200)'') = 2"
    by code_simp
qed

text \<open>The two parts of that list, and a list with nested commas and a blank tail.\<close>

theorem splitShadowParts_top_level_witness:
  "splitShadowParts ''0 1px 2px rgb(0,0,0,0.1), inset 0 0 0 1px oklch(0.5 0.1 200)'' =
     [''0 1px 2px rgb(0,0,0,0.1)'', '' inset 0 0 0 1px oklch(0.5 0.1 200)''] \<and>
   splitShadowParts ''a,(b,c),d, '' = [''a'', ''(b,c)'', ''d'']"
proof -
  have 1: "drop_blank_last (top_level_pieces 0
      ''0 1px 2px rgb(0,0,0,0.1), inset 0 0 0 1px oklch(0.5 0.1 200)'') =
     [''0 1px 2px rgb(0,0,0,0.1)'', '' inset 0 0 0 1px oklch(0.5 0.1 200)'']"
    by code_simp
  have 2: "drop_blank_last (top_level_pieces 0 ''a,(b,c),d, '') = [''a'', ''(b,c)'', ''d'']"
    by code_simp
  show ?thesis
    using splitShadowParts_top_level[of "''0 1px 2px rgb(0,0,0,0.1), inset 0 0 0 1px oklch(0.5 0.1 200)''"]
      splitShadowParts_top_level[of "''a,(b,c),d, ''"]
    unfolding 1 2 by simp
qed



section \<open>The maps of the root and dark blocks\<close>

lemma foldl_obj_set:
  assumes "\<forall>v \<in> set vars. cv_name v \<noteq> ''__proto__''"
  shows "foldl (\<lambda>obj v. obj_set obj (cv_name v) (cv_rawValue v)) obj0 vars n =
     (case last_value vars n of None \<Rightarrow> obj0 n | Some x \<Rightarrow> Some x)"
  using assms
proof (induction vars arbitrary: obj0)
  case Nil
  then show ?case by (simp add: last_value_def)
next
  case (Cons v vars)
  then show ?case
    by (auto simp: last_value_def obj_set_def split: list.splits)
qed

lemma assign_vars_last: 
  "assign_vars (extractCSSVariables body) = last_value (extractCSSVariables body)"
proof
  fix n
  show "assign_vars (extractCSSVariables body) n = last_value (extractCSSVariables body) n"
    unfolding assign_vars_def
    by (subst foldl_obj_set) (auto simp: extractCSSVariables_names split: option.splits)
qed

text \<open>
  Claim C8.  The light map returned by \<^verbatim>\<open>parseRootAndDark\<close> binds every name
  declared in the first \<^verbatim>\<open>:root\<close> block to the value of its last declaration in
  that block, and the dark map does so for the first \<^verbatim>\<open>.dark\<close> block; a name
  declared more than once therefore has the value of its last occurrence.
\<close>

theorem parseRootAndDark_last_wins:
  "light (parseRootAndDark css) = (case first_block root_rx css of
       None \<Rightarrow> Map.empty
     | Some body \<Rightarrow> last_value (extractCSSVariables body)) \<and>
   dark (parseRootAndDark css) = (case first_block dark_rx css of
       None \<Rightarrow> Map.empty
     | Some body \<Rightarrow> last_value (extractCSSVariables body))"
  by (simp add: parseRootAndDark_def first_block_def assign_vars_last split: option.splits)

text \<open>A name declared twice in each block.\<close>

theorem parseRootAndDark_last_wins_witness:
  "light (parseRootAndDark '':root { --bg: #fff; --fg: #000; --bg: #eee } .dark { --bg: #000; --bg: #111; }'')
     ''--bg'' = Some ''#eee'' \<and>
   dark (parseRootAndDark '':root { --bg: #fff; --fg: #000; --bg: #eee } .dark { --bg: #000; --bg: #111; }'')
     ''--bg'' = Some ''#111''"
proof -
  let ?css = "'':root { --bg: #fff; --fg: #000; --bg: #eee } .dark { --bg: #000; --bg: #111; }''"
  have 1: "(case first_block root_rx ?css of None \<Rightarrow> Map.empty
     | Some body \<Rightarrow> last_value (extractCSSVariables body)) ''--bg'' = Some ''#eee''"
    by code_simp
  have 2: "(case first_block dark_rx ?css of None \<Rightarrow> Map.empty
     | Some body \<Rightarrow> last_value (extractCSSVariables body)) ''--bg'' = Some ''#111''"
    by code_simp
  from parseRootAndDark_last_wins[of ?css] 1 2 show ?thesis by simp
qed

section \<open>Names and paths of the tokens\<close>

text \<open>
  Claim C9, as stated, fails: for the variables \<^verbatim>\<open>--color-\<close>, \<^verbatim>\<open>--text-\<close> and
  \<^verbatim>\<open>--font-\<close> the color token has the path with the single component \<^verbatim>\<open>""\<close>, and
  the typography token and the font token have the empty name.
\<close>

theorem empty_path_component:
  "map_option color_paths (returned (categorizeTokens
      [\<lparr>cv_name = ''--color-'', cv_rawValue = ''#fff''\<rparr>,
       \<lparr>cv_name = ''--text-'', cv_rawValue = ''14px''\<rparr>,
       \<lparr>cv_name = ''--font-'', cv_rawValue = ''Inter, sans-serif''\<rparr>])) = Some [['''']] \<and>
   map_option typography_names (returned (categorizeTokens
      [\<lparr>cv_name = ''--color-'', cv_rawValue = ''#fff''\<rparr>,
       \<lparr>cv_name = ''--text-'', cv_rawValue = ''14px''\<rparr>,
       \<lparr>cv_name = ''--font-'', cv_rawValue = ''Inter, sans-serif''\<rparr>])) = Some [''''] \<and>
   map_option font_names (returned (categorizeTokens
      [\<lparr>cv_name = ''--color-'', cv_rawValue = ''#fff''\<rparr>,
       \<lparr>cv_name = ''--text-'', cv_rawValue = ''14px''\<rparr>,
       \<lparr>cv_name = ''--font-'', cv_rawValue = ''Inter, sans-serif''\<rparr>])) = Some ['''']"
  by code_simp

text \<open>
  Claim C9, amended.  In every token set that \<^verbatim>\<open>categorizeTokens\<close> returns, the path
  of every color token and of every float token is a non-empty list, every shadow
  token has a non-empty name, and no component of a spacing path is empty.
\<close>

theorem paths_nonempty:
  "categorizeTokens vars = Inr ts \<longrightarrow>
     (\<forall>t \<in> set (colors ts). pc_path t \<noteq> []) \<and>
     (\<forall>t \<in> set (float_tokens ts). pf_path t \<noteq> []) \<and>
     (\<forall>t \<in> set (shadows ts). ps_name t \<noteq> []) \<and>
     (\<forall>t \<in> set (spacing ts). [] \<notin> set (pf_path t))"
proof
  assume "categorizeTokens vars = Inr ts"
  from categorizeTokens_paths_ok[OF this] show
    "(\<forall>t \<in> set (colors ts). pc_path t \<noteq> []) \<and>
     (\<forall>t \<in> set (float_tokens ts). pf_path t \<noteq> []) \<and>
     (\<forall>t \<in> set (shadows ts). ps_name t \<noteq> []) \<and>
     (\<forall>t \<in> set (spacing ts). [] \<notin> set (pf_path t))"
    by (simp add: paths_ok_def list_all_iff)
qed


text \<open>A color, a spacing base, a radius and a shadow.\<close>

theorem paths_nonempty_witness:
  "categorizeTokens [\<lparr>cv_name = ''--color-red-500'', cv_rawValue = ''#fff''\<rparr>,
      \<lparr>cv_name = ''--spacing'', cv_rawValue = ''4px''\<rparr>,
      \<lparr>cv_name = ''--radius'', cv_rawValue = ''4px''\<rparr>,
      \<lparr>cv_name = ''--shadow-sm'', cv_rawValue = ''0 1px 2px rgb(0 0 0 / 0.05)''\<rparr>] =
    Inr (empty_token_set\<lparr>
      colors := [\<lparr>pc_path = [''red'', ''500''],
        pc_figmaColor = \<lparr>col_r = Fin 1, col_g = Fin 1, col_b = Fin 1, col_a = Fin 1\<rparr>,
        pc_rawValue = ''#fff''\<rparr>],
      spacing := generateSpacingScale (Fin 4),
      radius := [\<lparr>pf_path = [''default''], pf_value = Fin 4, pf_rawValue = ''4px''\<rparr>],
      shadows := [\<lparr>ps_name = ''drop-shadow/sm'',
        ps_shadows = [\<lparr>sl_x = Fin 0, sl_y = Fin 1, sl_blur = Fin 2, sl_spread = Fin 0,
          sl_color = \<lparr>col_r = Fin 0, col_g = Fin 0, col_b = Fin 0, col_a = Fin 0.05\<rparr>,
          sl_type = DROP_SHADOW\<rparr>],
        ps_rawValue = ''0 1px 2px rgb(0 0 0 / 0.05)''\<rparr>]\<rparr>) \<and>
   [''red'', ''500''] \<noteq> [] \<and> [''default''] \<noteq> [] \<and> ''drop-shadow/sm'' \<noteq> [] \<and>
   pf_path (generateSpacingScale (Fin 4) ! 7) \<noteq> [] \<and>
   [] \<notin> set (pf_path (generateSpacingScale (Fin 4) ! 7))"
proof -
  let ?ex = "[\<lparr>cv_name = ''--color-red-500'', cv_rawValue = ''#fff''\<rparr>,
      \<lparr>cv_name = ''--spacing'', cv_rawValue = ''4px''\<rparr>,
      \<lparr>cv_name = ''--radius'', cv_rawValue = ''4px''\<rparr>,
      \<lparr>cv_name = ''--shadow-sm'', cv_rawValue = ''0 1px 2px rgb(0 0 0 / 0.05)''\<rparr>]"
  let ?ts = "empty_token_set\<lparr>
      colors := [\<lparr>pc_path = [''red'', ''500''],
        pc_figmaColor = \<lparr>col_r = Fin 1, col_g = Fin 1, col_b = Fin 1, col_a = Fin 1\<rparr>,
        pc_rawValue = ''#fff''\<rparr>],
      spacing := generateSpacingScale (Fin 4),
      radius := [\<lparr>pf_path = [''default''], pf_value = Fin 4, pf_rawValue = ''4px''\<rparr>],
      shadows := [\<lparr>ps_name = ''drop-shadow/sm'',
        ps_shadows = [\<lparr>sl_x = Fin 0, sl_y = Fin 1, sl_blur = Fin 2, sl_spread = Fin 0,
          sl_color = \<lparr>col_r = Fin 0, col_g = Fin 0, col_b = Fin 0, col_a = Fin 0.05\<rparr>,
          sl_type = DROP_SHADOW\<rparr>],
        ps_rawValue = ''0 1px 2px rgb(0 0 0 / 0.05)''\<rparr>]\<rparr>"
  have 1: "categorizeTokens ?ex = Inr ?ts" by code_simp
  from paths_nonempty[of ?ex ?ts] 1
  have "(\<forall>t \<in> set (colors ?ts). pc_path t \<noteq> []) \<and>
     (\<forall>t \<in> set (float_tokens ?ts). pf_path t \<noteq> []) \<and>
     (\<forall>t \<in> set (shadows ?ts). ps_name t \<noteq> []) \<and>
     (\<forall>t \<in> set (spacing ?ts). [] \<notin> set (pf_path t))"
    by blast
  then have a: "[''red'', ''500''] \<noteq> [] \<and> [''default''] \<noteq> [] \<and> ''drop-shadow/sm'' \<noteq> []"
    and b: "\<forall>t \<in> set (generateSpacingScale (Fin 4)). pf_path t \<noteq> [] \<and> [] \<notin> set (pf_path t)"
    by (simp_all add: float_tokens_def empty_token_set_def ball_Un)
  have "generateSpacingScale (Fin 4) ! 7 \<in> set (generateSpacingScale (Fin 4))"
    by (rule nth_mem) (simp add: generateSpacingScale_def length_steps)
  with b have "pf_path (generateSpacingScale (Fin 4) ! 7) \<noteq> [] \<and>
      [] \<notin> set (pf_path (generateSpacingScale (Fin 4) ! 7))"
    by blast
  with 1 a show ?thesis by blast
qed

text \<open>
  Claim C10.  For every input string \<open>s\<close>, \<^verbatim>\<open>parseColorValue(s)\<close> equals
  \<^verbatim>\<open>parseColorValue(s.trim().toLowerCase())\<close>: white space around the value and
  the case of its letters never affect the result, be it a color, \<^verbatim>\<open>null\<close> or an
  exception.
\<close>

theorem parseColorValue_trim_lower:
  "parseColorValue s = parseColorValue (toLowerCase (trim s))"
  by (simp add: parseColorValue_def trim_toLowerCase toLowerCase_idem trim_idem)

text \<open>The three examples of the claim.\<close>

theorem parseColorValue_trim_lower_witness:
  "parseColorValue ''  #FFF '' = parseColorValue ''#fff'' \<and>
   parseColorValue ''OKLCH(0.5 0.1 200)'' = parseColorValue ''oklch(0.5 0.1 200)'' \<and>
   parseColorValue ''BLACK'' = parseColorValue ''black''"
proof -
  have 1: "toLowerCase (trim ''  #FFF '') = ''#fff''" by code_simp
  have 2: "toLowerCase (trim ''OKLCH(0.5 0.1 200)'') = ''oklch(0.5 0.1 200)''" by code_simp
  have 3: "toLowerCase (trim ''BLACK'') = ''black''" by code_simp
  show ?thesis
    using parseColorValue_trim_lower[of "''  #FFF ''"]
      parseColorValue_trim_lower[of "''OKLCH(0.5 0.1 200)''"]
      parseColorValue_trim_lower[of "''BLACK''"]
    unfolding 1 2 3 by simp
qed

end
